(* ===== verification/Prelude.thy ===== *)
theory Prelude
  imports Complex_Main "HOL-Library.AList" "HOL-Library.Char_ord" "HOL-Library.Sublist" "HOL-Library.Signed_Division"
    "HOL-Library.Multiset"
begin

text \<open>
  Shared base of the gateway development: the error-or-value results of Go functions, Go maps as
  association lists, the 64-bit wrap-around of Go's \<open>int\<close>, \<open>int64\<close> and \<open>time.Duration\<close>, and the
  part of the packages \<open>strings\<close> and \<open>strconv\<close> the gateway calls.

  A Go string is a list of bytes, one \<open>char\<close> each. A Go map is an association list with distinct
  keys: the order of the list is one of the orders Go's \<open>range\<close> may take, and the lemmas below speak
  of lookups, membership and counts, which do not depend on it.
\<close>

named_theorems duration_units \<open>the nanoseconds of the units of \<open>time.Duration\<close>\<close>
named_theorems store_ops \<open>the operations a store provides, unfolded when a client calls one\<close>


section \<open>Results\<close>

text \<open>A Go function that returns \<open>(T, error)\<close> returns \<open>Inl\<close> of the error or \<open>Inr\<close> of the value.\<close>

type_synonym ('e, 'a) result = "'e + 'a"

abbreviation Err :: "'e \<Rightarrow> ('e, 'a) result" where "Err \<equiv> Inl"
abbreviation Ok :: "'a \<Rightarrow> ('e, 'a) result" where "Ok \<equiv> Inr"

lemmas result_splits = sum.splits option.splits if_splits prod.splits


lemma set_map_filter: "set (List.map_filter f xs) = {y. \<exists>x\<in>set xs. f x = Some y}"
  by (induction xs) (auto simp: map_filter_simps split: option.split)


section \<open>Go maps\<close>

type_synonym ('k, 'v) gomap = "('k \<times> 'v) list"

abbreviation mget :: "('k, 'v) gomap \<Rightarrow> 'k \<Rightarrow> 'v option" where "mget m k \<equiv> map_of m k"
abbreviation mput :: "'k \<Rightarrow> 'v \<Rightarrow> ('k, 'v) gomap \<Rightarrow> ('k, 'v) gomap" where
  "mput k v m \<equiv> AList.update k v m"
abbreviation mdel :: "'k \<Rightarrow> ('k, 'v) gomap \<Rightarrow> ('k, 'v) gomap" where "mdel k m \<equiv> AList.delete k m"
abbreviation mwf :: "('k, 'v) gomap \<Rightarrow> bool" where "mwf m \<equiv> distinct (map fst m)"

declare map_of_eq_Some_iff [simp del] Some_eq_map_of_iff [simp del]

lemma mget_update [simp]: "mget (mput k v m) k' = (if k' = k then Some v else mget m k')"
  by (simp add: update_conv')

lemma mget_delete [simp]: "mget (mdel k m) k' = (if k' = k then None else mget m k')"
  by (simp add: delete_conv')

lemma mwf_update [simp, intro]: "mwf m \<Longrightarrow> mwf (mput k v m)"
  by (rule distinct_update)

lemma mwf_delete [simp, intro]: "mwf m \<Longrightarrow> mwf (mdel k m)"
  by (rule distinct_delete)

lemma mwf_filter [simp, intro]: "mwf m \<Longrightarrow> mwf (filter P m)"
  by (rule distinct_map_filter)

lemma mget_filter:
  "mwf m \<Longrightarrow> mget (filter P m) k = (case mget m k of None \<Rightarrow> None | Some v \<Rightarrow> if P (k, v) then Some v else None)"
proof (induction m)
  case Nil
  then show ?case by simp
next
  case (Cons x m)
  obtain a b where x: "x = (a, b)" by (cases x)
  have "mget m k = None" if "a = k"
    using Cons.prems that by (simp add: x map_of_eq_None_iff)
  with Cons show ?case by (auto simp: x split: option.splits)
qed

lemma mwf_mget_iff: "mwf m \<Longrightarrow> mget m k = Some v \<longleftrightarrow> (k, v) \<in> set m"
  by (rule map_of_eq_Some_iff)

lemma set_update_mwf:
  "mwf m \<Longrightarrow> set (mput k v m) = insert (k, v) {e \<in> set m. fst e \<noteq> k}"
proof (rule set_eqI)
  fix e :: "'a \<times> 'b"
  assume wf: "mwf m"
  obtain a b where e: "e = (a, b)" by (cases e)
  have "e \<in> set (mput k v m) \<longleftrightarrow> mget (mput k v m) a = Some b"
    using wf by (simp add: e mwf_mget_iff [OF mwf_update [OF wf]] del: mget_update)
  also have "\<dots> \<longleftrightarrow> e \<in> insert (k, v) {e \<in> set m. fst e \<noteq> k}"
    using wf by (auto simp: e mwf_mget_iff)
  finally show "e \<in> set (mput k v m) \<longleftrightarrow> e \<in> insert (k, v) {e \<in> set m. fst e \<noteq> k}" .
qed

text \<open>How many entries satisfy a predicate, as a loop over the map counts them.\<close>

definition mcount :: "('v \<Rightarrow> bool) \<Rightarrow> ('k, 'v) gomap \<Rightarrow> nat" where
  "mcount P m = length (filter (\<lambda>e. P (snd e)) m)"

lemma mcount_fresh: "mget m k = None \<Longrightarrow> mcount P (mput k v m) = mcount P m + (if P v then 1 else 0)"
proof -
  assume "mget m k = None"
  then have "mput k v m = m @ [(k, v)]"
    by (induction m) (auto split: if_splits)
  then show ?thesis by (simp add: mcount_def)
qed

lemma mcount_replace:
  "mwf m \<Longrightarrow> mget m k = Some w \<Longrightarrow>
   mcount P (mput k v m) + (if P w then 1 else 0) = mcount P m + (if P v then 1 else 0)"
  by (induction m) (auto simp: mcount_def map_of_eq_None_iff split: if_splits)


section \<open>Machine integers\<close>

definition max_int64 :: int where "max_int64 = 9223372036854775807"
definition min_int64 :: int where "min_int64 = - 9223372036854775808"

text \<open>Two's-complement wrap-around of \<open>int\<close> and \<open>int64\<close> arithmetic (64-bit targets).\<close>

definition wrap64 :: "int \<Rightarrow> int" where
  "wrap64 x = (x + 9223372036854775808) mod 18446744073709551616 - 9223372036854775808"

lemma wrap64_id: "min_int64 \<le> x \<Longrightarrow> x \<le> max_int64 \<Longrightarrow> wrap64 x = x"
  by (simp add: wrap64_def min_int64_def max_int64_def)

lemma wrap64_bounds: "min_int64 \<le> wrap64 x \<and> wrap64 x \<le> max_int64"
  by (simp add: wrap64_def min_int64_def max_int64_def)

lemma wrap64_add_left [simp]: "wrap64 (wrap64 a + b) = wrap64 (a + b)"
proof -
  have "((a + 9223372036854775808) mod 18446744073709551616 + b) mod 18446744073709551616 =
      (a + 9223372036854775808 + b) mod 18446744073709551616"
    by (rule mod_add_left_eq)
  then show ?thesis by (simp add: wrap64_def ac_simps)
qed

lemma wrap64_zero [simp]: "wrap64 0 = 0"
  by (simp add: wrap64_def)

lemma wrap64_idem [simp]: "wrap64 (wrap64 a) = wrap64 a"
  using wrap64_add_left [of a 0] by simp

end
