(* ===== verification/Go_Strings.thy ===== *)
theory Go_Strings
  imports Prelude
begin

text \<open>
  The functions of Go's packages \<open>strings\<close> and \<open>strconv\<close> that the gateway calls, on byte strings:
  trimming, prefixes and suffixes, splitting at a byte, joining, case folding against ASCII literals,
  and decimal numerals. The lemmas give what the components need of them: trimming is idempotent and
  leaves no white space at either end, joining undoes splitting, and parsing undoes printing.
\<close>

section \<open>White space\<close>

text \<open>The UTF-8 encodings of the code points with the Unicode property White_Space.\<close>

definition space_encodings :: "string list" where
  "space_encodings =
     [[CHR 0x09], [CHR 0x0A], [CHR 0x0B], [CHR 0x0C], [CHR 0x0D], [CHR 0x20],
      [CHR 0xC2, CHR 0x85], [CHR 0xC2, CHR 0xA0], [CHR 0xE1, CHR 0x9A, CHR 0x80],
      [CHR 0xE2, CHR 0x80, CHR 0x80], [CHR 0xE2, CHR 0x80, CHR 0x81], [CHR 0xE2, CHR 0x80, CHR 0x82],
      [CHR 0xE2, CHR 0x80, CHR 0x83], [CHR 0xE2, CHR 0x80, CHR 0x84], [CHR 0xE2, CHR 0x80, CHR 0x85],
      [CHR 0xE2, CHR 0x80, CHR 0x86], [CHR 0xE2, CHR 0x80, CHR 0x87], [CHR 0xE2, CHR 0x80, CHR 0x88],
      [CHR 0xE2, CHR 0x80, CHR 0x89], [CHR 0xE2, CHR 0x80, CHR 0x8A], [CHR 0xE2, CHR 0x80, CHR 0xA8],
      [CHR 0xE2, CHR 0x80, CHR 0xA9], [CHR 0xE2, CHR 0x80, CHR 0xAF], [CHR 0xE2, CHR 0x81, CHR 0x9F],
      [CHR 0xE3, CHR 0x80, CHR 0x80]]"

text \<open>Remove encodings from the front of a string as long as one of them is there.\<close>

function strip_lead :: "string list \<Rightarrow> string \<Rightarrow> string" where
  "strip_lead es s =
     (case find (\<lambda>e. e \<noteq> [] \<and> prefix e s) es of
        None \<Rightarrow> s
      | Some e \<Rightarrow> strip_lead es (drop (length e) s))"
  by pat_completeness auto
termination
  by (relation "measure (\<lambda>(es, s). length s)") (auto simp: find_Some_iff prefix_def)

declare strip_lead.simps [simp del]

definition TrimSpace :: "string \<Rightarrow> string" where
  "TrimSpace s = rev (strip_lead (map rev space_encodings) (rev (strip_lead space_encodings s)))"

lemma strip_lead_none: "\<forall>e\<in>set es. e \<noteq> [] \<longrightarrow> \<not> prefix e s \<Longrightarrow> strip_lead es s = s"
  by (subst strip_lead.simps) (auto simp: find_None_iff split: option.split dest: find_Some_iff [THEN iffD1])

lemma strip_lead_clean: "e \<in> set es \<Longrightarrow> e \<noteq> [] \<Longrightarrow> \<not> prefix e (strip_lead es s)"
proof (induction es s rule: strip_lead.induct)
  case (1 es s)
  show ?case
  proof (cases "find (\<lambda>e. e \<noteq> [] \<and> prefix e s) es")
    case None
    then have "strip_lead es s = s" by (subst strip_lead.simps) simp
    with None "1.prems" show ?thesis by (auto simp: find_None_iff)
  next
    case (Some e')
    with "1.IH" [OF Some "1.prems"] show ?thesis by (simp add: strip_lead.simps [of es s])
  qed
qed

lemma strip_lead_suffix: "suffix (strip_lead es s) s"
proof (induction es s rule: strip_lead.induct)
  case (1 es s)
  show ?case
  proof (cases "find (\<lambda>e. e \<noteq> [] \<and> prefix e s) es")
    case None
    then show ?thesis by (subst strip_lead.simps) simp
  next
    case (Some e)
    then have "suffix (strip_lead es (drop (length e) s)) (drop (length e) s)" by (rule "1.IH")
    then show ?thesis
      using Some suffix_drop suffix_order.trans by (fastforce simp: strip_lead.simps [of es s])
  qed
qed

text \<open>A string is trimmed when it neither starts nor ends with white space.\<close>

definition trimmed :: "string \<Rightarrow> bool" where
  "trimmed s \<longleftrightarrow> (\<forall>e\<in>set space_encodings. \<not> prefix e s \<and> \<not> suffix e s)"

lemma Nil_not_space [simp]: "[] \<notin> set space_encodings"
  by (simp add: space_encodings_def)

lemma space_nonempty: "e \<in> set space_encodings \<Longrightarrow> e \<noteq> []"
  using Nil_not_space by metis

lemma trimmed_TrimSpace [simp]: "trimmed (TrimSpace s)"
proof -
  let ?l = "strip_lead space_encodings s"
  let ?r = "strip_lead (map rev space_encodings) (rev ?l)"
  have "\<not> prefix e (rev ?r)" if e: "e \<in> set space_encodings" for e
  proof
    assume "prefix e (rev ?r)"
    moreover have "prefix (rev ?r) ?l"
      using strip_lead_suffix [of "map rev space_encodings" "rev ?l"] by (simp add: suffix_to_prefix)
    ultimately have "prefix e ?l" by (rule prefix_order.trans)
    with e show False using strip_lead_clean space_nonempty by blast
  qed
  moreover have "\<not> suffix e (rev ?r)" if e: "e \<in> set space_encodings" for e
    using strip_lead_clean [of "rev e" "map rev space_encodings" "rev ?l"] e space_nonempty [OF e]
    by (auto simp: suffix_to_prefix)
  ultimately show ?thesis by (simp add: trimmed_def TrimSpace_def)
qed

lemma TrimSpace_id: "trimmed s \<Longrightarrow> TrimSpace s = s"
  by (simp add: TrimSpace_def trimmed_def strip_lead_none suffix_to_prefix)

lemma TrimSpace_idem [simp]: "TrimSpace (TrimSpace s) = TrimSpace s"
  by (rule TrimSpace_id) simp

lemma TrimSpace_Nil [simp]: "TrimSpace [] = []"
  by (rule TrimSpace_id) (auto simp: trimmed_def)


section \<open>Prefixes, suffixes, substrings\<close>

abbreviation HasPrefix :: "string \<Rightarrow> string \<Rightarrow> bool" where "HasPrefix s p \<equiv> prefix p s"
abbreviation HasSuffix :: "string \<Rightarrow> string \<Rightarrow> bool" where "HasSuffix s p \<equiv> suffix p s"
abbreviation Contains :: "string \<Rightarrow> string \<Rightarrow> bool" where "Contains s sub \<equiv> sublist sub s"

definition TrimPrefix :: "string \<Rightarrow> string \<Rightarrow> string" where
  "TrimPrefix s p = (if HasPrefix s p then drop (length p) s else s)"

definition TrimSuffix :: "string \<Rightarrow> string \<Rightarrow> string" where
  "TrimSuffix s p = (if HasSuffix s p then take (length s - length p) s else s)"

text \<open>\<open>strings.TrimRight(s, cutset)\<close> for a cutset of ASCII bytes.\<close>

definition TrimRight :: "string \<Rightarrow> string \<Rightarrow> string" where
  "TrimRight s cutset = rev (dropWhile (\<lambda>c. c \<in> set cutset) (rev s))"

text \<open>\<open>strings.ReplaceAll\<close> of one byte by another.\<close>

definition ReplaceByte :: "string \<Rightarrow> char \<Rightarrow> char \<Rightarrow> string" where
  "ReplaceByte s a b = map (\<lambda>c. if c = a then b else c) s"

lemma TrimPrefix_append [simp]: "TrimPrefix (p @ s) p = s"
  by (simp add: TrimPrefix_def)

lemma TrimSuffix_append [simp]: "TrimSuffix (s @ p) p = s"
  by (simp add: TrimSuffix_def suffix_def)


section \<open>Splitting and joining\<close>

text \<open>\<open>strings.Split(s, sep)\<close> for a separator of one byte: never empty, one field more than
  separators.\<close>

fun Split :: "string \<Rightarrow> char \<Rightarrow> string list" where
  "Split [] sep = [[]]"
| "Split (c # s) sep =
     (if c = sep then [] # Split s sep
      else (case Split s sep of [] \<Rightarrow> [[c]] | f # fs \<Rightarrow> (c # f) # fs))"

fun Join :: "string list \<Rightarrow> string \<Rightarrow> string" where
  "Join [] sep = []"
| "Join [x] sep = x"
| "Join (x # y # xs) sep = x @ sep @ Join (y # xs) sep"

lemma Split_nonempty [simp]: "Split s sep \<noteq> []"
  by (cases s) (auto split: list.splits)

lemma Join_Split: "Join (Split s sep) [sep] = s"
proof (induction s)
  case Nil
  show ?case by simp
next
  case (Cons c s)
  obtain f fs where f: "Split s sep = f # fs"
    using Split_nonempty [of s sep] by (cases "Split s sep") blast+
  then show ?case
    using Cons by (cases fs) auto
qed

lemma Split_no_sep: "f \<in> set (Split s sep) \<Longrightarrow> sep \<notin> set f"
proof (induction s arbitrary: f)
  case Nil
  then show ?case by simp
next
  case (Cons c s)
  then show ?case by (cases "Split s sep") (auto split: if_splits)
qed

lemma Join_Cons: "Join (x # xs) sep = (if xs = [] then x else x @ sep @ Join xs sep)"
  by (cases xs) auto

lemma Split_append: "sep \<notin> set f \<Longrightarrow> Split (f @ sep # s) sep = f # Split s sep"
  by (induction f) auto

lemma Split_single: "sep \<notin> set f \<Longrightarrow> Split f sep = [f]"
  by (induction f) auto

lemma Split_Join: "fs \<noteq> [] \<Longrightarrow> \<forall>f\<in>set fs. sep \<notin> set f \<Longrightarrow> Split (Join fs [sep]) sep = fs"
  by (induction fs) (auto simp: Join_Cons Split_append Split_single)

text \<open>A string that is nothing but white space starts with white space; the join of trimmed fields does not.\<close>

lemma strip_lead_Nil: "strip_lead es s = [] \<Longrightarrow> s \<noteq> [] \<Longrightarrow> \<exists>e\<in>set es. e \<noteq> [] \<and> suffix e s"
proof (induction es s rule: strip_lead.induct)
  case (1 es s)
  show ?case
  proof (cases "find (\<lambda>e. e \<noteq> [] \<and> prefix e s) es")
    case None
    with 1 show ?thesis by (simp add: strip_lead.simps [of es s])
  next
    case (Some e)
    then have e: "e \<in> set es" "e \<noteq> []" "prefix e s" by (auto simp: find_Some_iff)
    have r: "strip_lead es (drop (length e) s) = []" using Some "1.prems" by (simp add: strip_lead.simps [of es s])
    show ?thesis
    proof (cases "drop (length e) s = []")
      case True
      with e show ?thesis by (auto simp: prefix_def)
    next
      case False
      then obtain e' where "e' \<in> set es" "e' \<noteq> []" "suffix e' (drop (length e) s)"
        using "1.IH" [OF Some r] by blast
      then show ?thesis using suffix_drop suffix_order.trans by blast
    qed
  qed
qed

lemma TrimSpace_nonempty:
  assumes "s \<noteq> []" "\<forall>e\<in>set space_encodings. \<not> prefix e s"
  shows "TrimSpace s \<noteq> []"
proof
  assume "TrimSpace s = []"
  moreover have "strip_lead space_encodings s = s" using assms(2) by (intro strip_lead_none) auto
  ultimately have "strip_lead (map rev space_encodings) (rev s) = []" by (simp add: TrimSpace_def)
  with assms(1) obtain e where "e \<in> set space_encodings" "suffix (rev e) (rev s)"
    using strip_lead_Nil [of "map rev space_encodings" "rev s"] by auto
  with assms(2) show False by (simp add: suffix_to_prefix)
qed

lemma comma_not_space: "e \<in> set space_encodings \<Longrightarrow> CHR '','' \<notin> set e"
  by (auto simp: space_encodings_def)

lemma TrimSpace_Join_comma:
  assumes "ps \<noteq> []" "\<forall>p\<in>set ps. p \<noteq> [] \<and> trimmed p \<and> CHR '','' \<notin> set p"
  shows "TrimSpace (Join ps '','') \<noteq> []"
proof (rule TrimSpace_nonempty)
  obtain p qs where ps: "ps = p # qs" using assms(1) by (cases ps) auto
  show "Join ps '','' \<noteq> []" using assms(2) by (simp add: ps Join_Cons)
  show "\<forall>e\<in>set space_encodings. \<not> prefix e (Join ps '','')"
  proof
    fix e assume e: "e \<in> set space_encodings"
    then have "\<not> prefix e p" using assms(2) by (simp add: ps trimmed_def)
    moreover have "\<not> prefix e (p @ CHR '','' # r)" for r
      using \<open>\<not> prefix e p\<close> comma_not_space [OF e] by (auto simp: prefix_append prefix_Cons)
    ultimately show "\<not> prefix e (Join ps '','')" by (simp add: ps Join_Cons)
  qed
qed

text \<open>The comma-separated lists of the environment: fields trimmed, empty fields left out.\<close>

definition csv_fields :: "string \<Rightarrow> string list" where
  "csv_fields s = filter (\<lambda>p. p \<noteq> []) (map TrimSpace (Split s CHR '',''))"

lemma csv_fields_trimmed: "p \<in> set (csv_fields s) \<Longrightarrow> p \<noteq> [] \<and> trimmed p"
  by (auto simp: csv_fields_def)


section \<open>Case folding\<close>

text \<open>
  \<open>strings.ToLower\<close> as the gateway uses it, compared with ASCII literals only. ASCII letters are
  lowered; the two code points outside ASCII whose lower case is ASCII (U+0130 and the Kelvin sign
  U+212A) are mapped; every other byte is kept, which no comparison with an ASCII literal can see.
\<close>

definition lower_ascii :: "char \<Rightarrow> char" where
  "lower_ascii c = (if CHR ''A'' \<le> c \<and> c \<le> CHR ''Z'' then char_of (of_char c + 32 :: nat) else c)"

function ToLower :: "string \<Rightarrow> string" where
  "ToLower [] = []"
| "ToLower (c # s) =
     (if c = CHR 0xC4 \<and> take 1 s = [CHR 0xB0] then CHR ''i'' # ToLower (drop 1 s)
      else if c = CHR 0xE2 \<and> take 2 s = [CHR 0x84, CHR 0xAA] then CHR ''k'' # ToLower (drop 2 s)
      else lower_ascii c # ToLower s)"
  by pat_completeness auto
termination
  by (relation "measure length") auto

text \<open>\<open>strings.EqualFold(s, lit)\<close> for an ASCII literal without \<open>k\<close> and \<open>s\<close>, the only ASCII
  letters with a fold outside ASCII.\<close>

definition EqualFold :: "string \<Rightarrow> string \<Rightarrow> bool" where
  "EqualFold s lit \<longleftrightarrow> map lower_ascii s = map lower_ascii lit"


section \<open>Decimal numerals\<close>

definition digit_char :: "nat \<Rightarrow> char" where "digit_char d = char_of (48 + d)"

definition is_digit :: "char \<Rightarrow> bool" where "is_digit c \<longleftrightarrow> CHR ''0'' \<le> c \<and> c \<le> CHR ''9''"

definition digit_val :: "char \<Rightarrow> int" where "digit_val c = int (of_char c) - 48"

fun nat_digits :: "nat \<Rightarrow> string" where
  "nat_digits n = (if n < 10 then [digit_char n] else nat_digits (n div 10) @ [digit_char (n mod 10)])"

declare nat_digits.simps [simp del]

text \<open>\<open>strconv.Itoa\<close> and \<open>strconv.FormatInt(n, 10)\<close>.\<close>

definition Itoa :: "int \<Rightarrow> string" where
  "Itoa n = (if n < 0 then CHR ''-'' # nat_digits (nat (- n)) else nat_digits (nat n))"

definition digits_val :: "string \<Rightarrow> int" where
  "digits_val ds = foldl (\<lambda>n c. n * 10 + digit_val c) 0 ds"

text \<open>\<open>strconv.Atoi\<close> and \<open>strconv.ParseInt(s, 10, 64)\<close>: \<open>None\<close> for a syntax or range error.\<close>

definition Atoi :: "string \<Rightarrow> int option" where
  "Atoi s =
     (let (neg, ds) = (case s of [] \<Rightarrow> (False, [])
                       | c # r \<Rightarrow> if c = CHR ''-'' then (True, r) else if c = CHR ''+'' then (False, r)
                                 else (False, s));
          n = (if neg then - digits_val ds else digits_val ds)
      in if ds = [] \<or> \<not> list_all is_digit ds \<or> n < min_int64 \<or> max_int64 < n then None else Some n)"

lemma is_digit_char: "d < 10 \<Longrightarrow> is_digit (digit_char d)"
  by (auto simp: is_digit_def digit_char_def less_eq_char_def)

lemma digit_val_char: "d < 10 \<Longrightarrow> digit_val (digit_char d) = int d"
  by (simp add: digit_val_def digit_char_def)

lemma nat_digits_props: "nat_digits n \<noteq> [] \<and> list_all is_digit (nat_digits n) \<and> digits_val (nat_digits n) = int n"
proof (induction n rule: nat_digits.induct)
  case (1 n)
  show ?case
  proof (cases "n < 10")
    case True
    then show ?thesis
      by (simp add: nat_digits.simps [of n] is_digit_char digits_val_def digit_val_char)
  next
    case False
    have "int (n div 10) * 10 + int (n mod 10) = int n" by presburger
    with False "1.IH" show ?thesis
      by (simp add: nat_digits.simps [of n] is_digit_char digits_val_def digit_val_char)
  qed
qed

lemma nat_digits_hd: "nat_digits n = c # r \<Longrightarrow> c \<noteq> CHR ''-'' \<and> c \<noteq> CHR ''+''"
  using nat_digits_props [of n] by (auto simp: is_digit_def less_eq_char_def)

theorem Atoi_Itoa: "min_int64 \<le> n \<Longrightarrow> n \<le> max_int64 \<Longrightarrow> Atoi (Itoa n) = Some n"
proof (cases "n < 0")
  case True
  assume "min_int64 \<le> n" "n \<le> max_int64"
  with True nat_digits_props [of "nat (- n)"] show ?thesis
    by (simp add: Atoi_def Itoa_def)
next
  case False
  assume b: "min_int64 \<le> n" "n \<le> max_int64"
  obtain c r where "nat_digits (nat n) = c # r"
    using nat_digits_props [of "nat n"] by (cases "nat_digits (nat n)") auto
  with False b nat_digits_props [of "nat n"] nat_digits_hd [of "nat n"] show ?thesis
    by (simp add: Atoi_def Itoa_def)
qed


section \<open>The environment\<close>

text \<open>\<open>os.Getenv\<close> is an argument of the definitions that read it; a variable that is not set is the empty
  string.\<close>

type_synonym getenv = "string \<Rightarrow> string"

end
