(* ===== verification/Go_Float.thy ===== *)
theory Go_Float
  imports Go_Strings
begin

text \<open>
  Go's \<open>float64\<close>: IEEE 754 binary64 with rounding to nearest, ties to even. A finite float is the
  rational number it denotes, and every arithmetic operation of the source is the exact operation
  followed by \<open>fl\<close>, the rounding to 53 significant bits. The exponent is not bounded: every operand
  the gateway's float code meets is 0 or of magnitude between \<open>10\<^sup>-\<^sup>4\<^sup>0\<close> and \<open>10\<^sup>4\<^sup>0\<close> (64-bit counts,
  nanosecond durations and their quotients), far inside the exponent range of binary64, except where
  a divisor is 0, which the definitions that divide treat as a case of their own.

  The lemmas: \<open>fl\<close> is monotone, exact on the values that fit in 53 bits, idempotent, and has relative
  error at most \<open>2\<^sup>-\<^sup>5\<^sup>3\<close>.
\<close>

section \<open>Binary exponent\<close>

fun nbits :: "nat \<Rightarrow> nat" where
  "nbits n = (if n = 0 then 0 else Suc (nbits (n div 2)))"

declare nbits.simps [simp del]

lemma nbits_upper: "n < 2 ^ nbits n"
proof (induction n rule: nbits.induct)
  case (1 n)
  then show ?case by (cases "n = 0") (auto simp: nbits.simps [of n])
qed

lemma nbits_lower: "0 < n \<Longrightarrow> 2 ^ nbits n \<le> 2 * n"
proof (induction n rule: nbits.induct)
  case (1 n)
  then show ?case
    by (cases "n div 2 = 0") (auto simp: nbits.simps [of n] nbits.simps [of 0])
qed

lemma nbits_rat:
  assumes "0 < n"
  shows "(of_int n :: rat) < 2 ^ nbits (nat n) \<and> 2 ^ nbits (nat n) \<le> 2 * (of_int n :: rat)"
proof -
  obtain m where m: "n = int m" "0 < m" using assms by (metis pos_int_cases)
  have "(of_nat m :: rat) < of_nat (2 ^ nbits m)" "(of_nat (2 ^ nbits m) :: rat) \<le> of_nat (2 * m)"
    using nbits_upper [of m] nbits_lower [OF m(2)] by (simp_all only: of_nat_less_iff of_nat_le_iff)
  then show ?thesis by (simp add: m)
qed

text \<open>The exponent \<open>e\<close> of a positive rational \<open>x\<close>: \<open>2\<^sup>e \<le> x < 2\<^sup>e\<^sup>+\<^sup>1\<close>.\<close>

definition ilog2 :: "rat \<Rightarrow> int" where
  "ilog2 x =
     (let (n, d) = quotient_of x; e = int (nbits (nat n)) - int (nbits (nat d))
      in if 2 powi e \<le> x then e else e - 1)"

lemma ilog2_bounds:
  assumes "0 < x"
  shows "2 powi (ilog2 x) \<le> x \<and> x < 2 powi (ilog2 x + 1)"
proof -
  obtain n d where nd: "quotient_of x = (n, d)" by (cases "quotient_of x")
  then have d: "0 < d" and x: "x = of_int n / of_int d"
    using quotient_of_denom_pos quotient_of_div by auto
  with assms have n: "0 < n" by (simp add: zero_less_divide_iff)
  define a where "a = nbits (nat n)"
  define b where "b = nbits (nat d)"
  have n1: "(of_int n :: rat) < 2 ^ a" and n2: "(2::rat) ^ a \<le> 2 * of_int n"
    and d1: "(of_int d :: rat) < 2 ^ b" and d2: "(2::rat) ^ b \<le> 2 * of_int d"
    using nbits_rat [OF n] nbits_rat [OF d] by (auto simp: a_def b_def)
  define e where "e = int a - int b"
  have pe: "(2::rat) powi e = 2 ^ a / 2 ^ b"
    by (simp add: e_def power_int_diff)
  have up: "x < 2 * 2 powi e"
  proof -
    have "of_int n * 2 ^ b < 2 ^ a * (2 * of_int d :: rat)"
      using n1 d2 n by (intro mult_less_le_imp_less) auto
    then show ?thesis using d by (simp add: x pe field_simps)
  qed
  have lo: "2 powi (e - 1) \<le> x"
  proof -
    have "2 ^ a * of_int d \<le> 2 * of_int n * (2 ^ b :: rat)"
      using n2 d1 d n by (intro mult_mono) auto
    then show ?thesis using d by (simp add: x pe power_int_diff field_simps)
  qed
  have i: "ilog2 x = (if 2 powi e \<le> x then e else e - 1)"
    by (simp add: ilog2_def nd e_def a_def b_def)
  show ?thesis
    using up lo by (auto simp: i power_int_add power_int_diff)
qed

lemma ilog2_less:
  assumes "0 < x" "x < 2 powi k"
  shows "ilog2 x < k"
proof (rule ccontr)
  assume "\<not> ilog2 x < k"
  then have "(2::rat) powi k \<le> 2 powi (ilog2 x)" by (intro power_int_increasing) auto
  with assms ilog2_bounds [of x] show False by linarith
qed

lemma ilog2_mono:
  assumes "0 < x" "x \<le> y"
  shows "ilog2 x \<le> ilog2 y"
proof -
  have "x < 2 powi (ilog2 y + 1)"
    using assms ilog2_bounds [of y] by linarith
  with assms(1) have "ilog2 x < ilog2 y + 1" by (rule ilog2_less)
  then show ?thesis by simp
qed


section \<open>Rounding\<close>

definition round_even :: "rat \<Rightarrow> int" where
  "round_even q =
     (let f = \<lfloor>q\<rfloor>; r = q - of_int f
      in if r < 1 / 2 then f else if 1 / 2 < r then f + 1 else if even f then f else f + 1)"

lemma round_even_err: "\<bar>of_int (round_even q) - q\<bar> \<le> 1 / 2"
  using floor_correct [of q] unfolding round_even_def Let_def abs_if by (simp, linarith)

lemma round_even_of_int [simp]: "round_even (of_int n) = n"
  by (simp add: round_even_def)

lemma round_even_mono: "p \<le> q \<Longrightarrow> round_even p \<le> round_even q"
proof (cases "\<lfloor>p\<rfloor> = \<lfloor>q\<rfloor>")
  case True
  assume "p \<le> q"
  with True show ?thesis by (auto simp: round_even_def Let_def)
next
  case False
  assume "p \<le> q"
  with False have "\<lfloor>p\<rfloor> + 1 \<le> \<lfloor>q\<rfloor>" using floor_mono [of p q] by linarith
  then show ?thesis by (auto simp: round_even_def Let_def)
qed

text \<open>The value of the unit in the last place of a float with the magnitude of \<open>x\<close>.\<close>

definition ulp :: "rat \<Rightarrow> rat" where "ulp x = 2 powi (ilog2 x - 52)"

definition fl_pos :: "rat \<Rightarrow> rat" where
  "fl_pos x = of_int (round_even (x / ulp x)) * ulp x"

definition fl :: "rat \<Rightarrow> rat" where
  "fl x = (if x = 0 then 0 else if 0 < x then fl_pos x else - fl_pos (- x))"

lemma ulp_pos [simp]: "0 < ulp x" by (simp add: ulp_def)

lemma ulp_nonzero [simp]: "ulp x \<noteq> 0" by (simp add: ulp_def)

lemma scaled_range:
  assumes "0 < x"
  shows "2 ^ 52 \<le> x / ulp x \<and> x / ulp x < 2 ^ 53"
proof -
  have u: "ulp x = 2 powi (ilog2 x) / 2 ^ 52" by (simp add: ulp_def power_int_diff)
  have "2 powi (ilog2 x) \<le> x" "x < 2 * 2 powi (ilog2 x)"
    using ilog2_bounds [OF assms] by (auto simp: power_int_add)
  then show ?thesis by (simp add: u field_simps)
qed

lemma round_even_range:
  assumes "0 < x"
  shows "2 ^ 52 \<le> round_even (x / ulp x) \<and> round_even (x / ulp x) \<le> 2 ^ 53"
proof -
  have "round_even (of_int (2 ^ 52)) \<le> round_even (x / ulp x)"
    using scaled_range [OF assms] by (intro round_even_mono) simp
  moreover have "round_even (x / ulp x) \<le> round_even (of_int (2 ^ 53))"
    using scaled_range [OF assms] by (intro round_even_mono) simp
  ultimately show ?thesis by (simp only: round_even_of_int)
qed

lemma fl_pos_err:
  assumes "0 < x"
  shows "\<bar>fl_pos x - x\<bar> \<le> x / 2 ^ 53"
proof -
  have "fl_pos x - x = (of_int (round_even (x / ulp x)) - x / ulp x) * ulp x"
    by (simp add: fl_pos_def algebra_simps)
  then have "\<bar>fl_pos x - x\<bar> = \<bar>of_int (round_even (x / ulp x)) - x / ulp x\<bar> * ulp x"
    using ulp_pos [of x] by (simp add: abs_mult less_imp_le)
  also have "\<dots> \<le> 1 / 2 * ulp x"
    by (intro mult_right_mono round_even_err less_imp_le [OF ulp_pos])
  also have "\<dots> \<le> x / 2 ^ 53"
    using scaled_range [OF assms] by (simp add: field_simps)
  finally show ?thesis .
qed

lemma fl_pos_bounds:
  assumes "0 < x"
  shows "2 powi (ilog2 x) \<le> fl_pos x \<and> fl_pos x \<le> 2 powi (ilog2 x + 1)"
proof -
  have p: "(2::rat) powi (ilog2 x) = 2 ^ 52 * ulp x"
    by (simp add: ulp_def power_int_diff)
  have "(of_int (2 ^ 52) :: rat) \<le> of_int (round_even (x / ulp x))"
    "(of_int (round_even (x / ulp x)) :: rat) \<le> of_int (2 ^ 53)"
    using round_even_range [OF assms] by (simp_all only: of_int_le_iff)
  then show ?thesis
    using ulp_pos [of x] by (simp add: fl_pos_def p power_int_add)
qed

lemma fl_pos_mono:
  assumes "0 < x" "x \<le> y"
  shows "fl_pos x \<le> fl_pos y"
proof (cases "ilog2 x = ilog2 y")
  case True
  then have "ulp x = ulp y" by (simp add: ulp_def)
  moreover have "round_even (x / ulp x) \<le> round_even (y / ulp x)"
    using assms by (intro round_even_mono divide_right_mono) (auto intro: less_imp_le)
  ultimately show ?thesis by (simp add: fl_pos_def mult_right_mono less_imp_le)
next
  case False
  with ilog2_mono [OF assms] have "ilog2 x + 1 \<le> ilog2 y" by simp
  then have "(2::rat) powi (ilog2 x + 1) \<le> 2 powi (ilog2 y)" by (intro power_int_increasing) auto
  with fl_pos_bounds [of x] fl_pos_bounds [of y] assms show ?thesis by linarith
qed

lemma fl_0 [simp]: "fl 0 = 0" by (simp add: fl_def)

lemma fl_minus: "fl (- x) = - fl x" by (auto simp: fl_def)

lemma fl_pos_pos: "0 < x \<Longrightarrow> 0 < fl_pos x"
  using fl_pos_bounds [of x] by (metis less_le_trans zero_less_numeral zero_less_power_int)

lemma fl_nonneg [simp]: "0 \<le> x \<Longrightarrow> 0 \<le> fl x"
  using fl_pos_pos [of x] by (cases "x = 0") (auto simp: fl_def)

lemma fl_gt_0: "0 < x \<Longrightarrow> 0 < fl x"
  by (simp add: fl_def fl_pos_pos)

theorem fl_mono: "x \<le> y \<Longrightarrow> fl x \<le> fl y"
proof -
  assume le: "x \<le> y"
  consider "0 < x" | "x \<le> 0" "0 \<le> y" | "y < 0" by linarith
  then show ?thesis
  proof cases
    case 1
    with le show ?thesis by (simp add: fl_def fl_pos_mono)
  next
    case 2
    then have "fl x \<le> 0" using fl_nonneg [of "- x"] by (simp add: fl_minus)
    with 2 fl_nonneg [of y] show ?thesis by linarith
  next
    case 3
    with le fl_pos_mono [of "- y" "- x"] show ?thesis by (simp add: fl_def)
  qed
qed

theorem fl_err: "\<bar>fl x - x\<bar> \<le> \<bar>x\<bar> / 2 ^ 53"
proof -
  consider "x = 0" | "0 < x" | "x < 0" by linarith
  then show ?thesis
  proof cases
    case 1
    then show ?thesis by simp
  next
    case 2
    with fl_pos_err [of x] show ?thesis by (simp add: fl_def)
  next
    case 3
    then have "\<bar>fl x - x\<bar> = \<bar>fl_pos (- x) - (- x)\<bar>" by (simp add: fl_def)
    with 3 fl_pos_err [of "- x"] show ?thesis by simp
  qed
qed

lemma fl_le_err: "0 \<le> x \<Longrightarrow> fl x \<le> x + x / 2 ^ 53"
  using fl_err [of x] by linarith


section \<open>Exact values\<close>

lemma fl_exact_pos:
  assumes "0 < m" "m < 2 ^ 53"
  shows "fl (of_int m * 2 powi k) = of_int m * 2 powi k"
proof -
  let ?x = "of_int m * 2 powi k :: rat"
  have x: "0 < ?x" using assms by simp
  have "(of_int m :: rat) < of_int (2 ^ 53)" using assms by (simp only: of_int_less_iff)
  then have "?x < 2 powi (53 + k)" by (simp add: power_int_add)
  with x have "ilog2 ?x < 53 + k" by (rule ilog2_less)
  then have k: "0 \<le> k - (ilog2 ?x - 52)" by simp
  have "?x / ulp ?x = of_int m * 2 powi (k - (ilog2 ?x - 52))"
    by (simp add: ulp_def flip: power_int_diff) (simp add: power_int_diff power_int_add)
  also have "\<dots> = of_int (m * 2 ^ nat (k - (ilog2 ?x - 52)))"
    using k by (simp add: power_int_def)
  finally have "fl_pos ?x = ?x"
    by (simp only: fl_pos_def round_even_of_int) (metis ulp_nonzero nonzero_divide_eq_eq)
  with x show ?thesis by (simp add: fl_def)
qed

theorem fl_exact:
  assumes "\<bar>m\<bar> \<le> 2 ^ 53"
  shows "fl (of_int m * 2 powi k) = of_int m * 2 powi k"
proof -
  have pos: "fl (of_int m * 2 powi k) = of_int m * 2 powi k" if "0 < m" "m \<le> 2 ^ 53" for m :: int
  proof (cases "m = 2 ^ 53")
    case True
    then have "(of_int m * 2 powi k :: rat) = of_int (2 ^ 52) * 2 powi (k + 1)"
      by (simp add: power_int_add)
    then show ?thesis using fl_exact_pos [of "2 ^ 52" "k + 1"] by simp
  next
    case False
    with that show ?thesis by (intro fl_exact_pos) auto
  qed
  consider "m = 0" | "0 < m" | "m < 0" by linarith
  then show ?thesis
  proof cases
    case 3
    with assms pos [of "- m"] show ?thesis by (simp add: fl_minus)
  qed (use assms pos in auto)
qed

corollary fl_of_int [simp]: "\<bar>n\<bar> \<le> 9007199254740992 \<Longrightarrow> fl (of_int n) = of_int n"
  using fl_exact [of n 0] by simp

corollary fl_idem [simp]: "fl (fl x) = fl x"
proof -
  have pos: "fl (fl_pos x) = fl_pos x" if "0 < x" for x
    using round_even_range [OF that] fl_exact [of "round_even (x / ulp x)" "ilog2 x - 52"]
    by (simp add: fl_pos_def ulp_def)
  show ?thesis
    using pos [of x] pos [of "- x"] by (auto simp: fl_def fl_minus split: if_splits)
qed


section \<open>Operations\<close>

text \<open>Each is the exact operation rounded once; \<open>f64_div\<close> is \<open>None\<close> where Go's quotient is an
  infinity or NaN.\<close>

abbreviation f64_of_int :: "int \<Rightarrow> rat" where "f64_of_int n \<equiv> fl (of_int n)"
abbreviation f64_add :: "rat \<Rightarrow> rat \<Rightarrow> rat" where "f64_add x y \<equiv> fl (x + y)"
abbreviation f64_sub :: "rat \<Rightarrow> rat \<Rightarrow> rat" where "f64_sub x y \<equiv> fl (x - y)"
abbreviation f64_mul :: "rat \<Rightarrow> rat \<Rightarrow> rat" where "f64_mul x y \<equiv> fl (x * y)"

definition f64_div :: "rat \<Rightarrow> rat \<Rightarrow> rat option" where
  "f64_div x y = (if y = 0 then None else Some (fl (x / y)))"

text \<open>Conversion to a 64-bit integer truncates. Where the value does not fit (or is not finite) Go
  leaves the result to the implementation; this is the one of amd64.\<close>

definition trunc_rat :: "rat \<Rightarrow> int" where
  "trunc_rat q = (if 0 \<le> q then \<lfloor>q\<rfloor> else - \<lfloor>- q\<rfloor>)"

definition f64_to_int64 :: "rat option \<Rightarrow> int" where
  "f64_to_int64 v =
     (case v of None \<Rightarrow> min_int64
      | Some q \<Rightarrow> let t = trunc_rat q in if min_int64 \<le> t \<and> t \<le> max_int64 then t else min_int64)"

lemma trunc_rat_nonneg: "0 \<le> q \<Longrightarrow> 0 \<le> trunc_rat q \<and> of_int (trunc_rat q) \<le> q"
  by (simp add: trunc_rat_def)

end
