(* ===== verification/Go_Time.thy ===== *)
theory Go_Time
  imports Go_Float
begin

text \<open>
  Go's package \<open>time\<close> as the gateway uses it. An instant is the number of nanoseconds since Go's zero
  time (January 1, year 1, UTC), so that \<open>IsZero\<close> is comparison with 0; a duration is a 64-bit
  count of nanoseconds. The calendar is the proleptic Gregorian one of \<open>time.Date\<close>, with the
  decomposition of a day number into cycles of 400, 100, 4 and 1 years.

  Shown here: the day number and the calendar date determine each other, which the quota periods rest
  on, and the float conversion \<open>Duration.Seconds\<close> overestimates by at most two roundings.
\<close>

type_synonym time = int
type_synonym duration = int

section \<open>Durations and instants\<close>

definition Nanosecond :: duration where "Nanosecond = 1"
definition Millisecond :: duration where "Millisecond = 1000000"
definition Second :: duration where "Second = 1000000000"
definition Minute :: duration where "Minute = 60000000000"
definition Hour :: duration where "Hour = 3600000000000"

declare Nanosecond_def [duration_units] Millisecond_def [duration_units] Second_def [duration_units]
  Minute_def [duration_units] Hour_def [duration_units]

definition IsZero :: "time \<Rightarrow> bool" where "IsZero t \<longleftrightarrow> t = 0"

text \<open>\<open>t.Sub(u)\<close> saturates at the largest and smallest duration.\<close>

definition time_Sub :: "time \<Rightarrow> time \<Rightarrow> duration" where
  "time_Sub t u = max min_int64 (min max_int64 (t - u))"

definition time_Add :: "time \<Rightarrow> duration \<Rightarrow> time" where "time_Add t d = t + d"

lemma time_Sub_exact: "min_int64 \<le> t - u \<Longrightarrow> t - u \<le> max_int64 \<Longrightarrow> time_Sub t u = t - u"
  by (simp add: time_Sub_def)

lemma time_Sub_le: "u \<le> t \<Longrightarrow> time_Sub t u \<le> t - u \<and> 0 \<le> time_Sub t u \<and> time_Sub t u \<le> max_int64"
  by (auto simp: time_Sub_def min_int64_def max_int64_def)

text \<open>The Unix epoch in these units.\<close>

definition unix_epoch :: time where "unix_epoch = 719162 * 86400 * 1000000000"

definition time_Unix :: "int \<Rightarrow> time" where "time_Unix s = unix_epoch + s * Second"

definition Unix :: "time \<Rightarrow> int" where "Unix t = (t - unix_epoch) div Second"

definition UnixMilli :: "time \<Rightarrow> int" where "UnixMilli t = (t - unix_epoch) div Millisecond"

definition UnixNano :: "time \<Rightarrow> int" where "UnixNano t = wrap64 (t - unix_epoch)"

definition Milliseconds :: "duration \<Rightarrow> int" where "Milliseconds d = d sdiv Millisecond"

text \<open>\<open>Duration.Seconds\<close>, \<open>Minutes\<close> and \<open>Hours\<close>: whole units plus the fraction, in \<open>float64\<close>.\<close>

definition float_units :: "duration \<Rightarrow> duration \<Rightarrow> rat" where
  "float_units unit d = f64_add (f64_of_int (d sdiv unit)) (fl (f64_of_int (d smod unit) / of_int unit))"

definition Seconds :: "duration \<Rightarrow> rat" where "Seconds d = float_units Second d"
definition Minutes :: "duration \<Rightarrow> rat" where "Minutes d = float_units Minute d"
definition Hours :: "duration \<Rightarrow> rat" where "Hours d = float_units Hour d"

lemma sdiv_smod_nonneg: "0 \<le> d \<Longrightarrow> 0 < u \<Longrightarrow> d sdiv u = d div u \<and> d smod u = d mod (u::int)"
  by (cases "d = 0") (auto simp: signed_divide_int_def signed_modulo_int_def sgn_if abs_if minus_div_mult_eq_mod)

lemma Seconds_nonneg: "0 \<le> d \<Longrightarrow> 0 \<le> Seconds d"
  by (simp add: Seconds_def float_units_def sdiv_smod_nonneg duration_units pos_imp_zdiv_nonneg_iff)

lemma Seconds_pos:
  assumes "0 < d"
  shows "0 < Seconds d"
proof -
  let ?s = "d div Second" and ?n = "d mod Second"
  have nn: "0 \<le> ?s" "0 \<le> ?n" using assms by (simp_all add: duration_units pos_imp_zdiv_nonneg_iff)
  have sum: "?s * Second + ?n = d" by simp
  have "0 < fl (of_int ?s) + fl (fl (of_int ?n) / of_int Second)"
  proof (cases "?s = 0")
    case True
    with sum assms have "0 < ?n" by simp
    then have "0 < fl (fl (of_int ?n) / of_int Second)"
      by (intro fl_gt_0 divide_pos_pos) (simp_all add: duration_units)
    with nn show ?thesis by (intro add_nonneg_pos) auto
  next
    case False
    with nn have "0 < fl (of_int ?s)" by (intro fl_gt_0) simp
    with nn show ?thesis by (intro add_pos_nonneg fl_nonneg divide_nonneg_nonneg) (auto simp: duration_units)
  qed
  then show ?thesis
    using assms by (simp add: Seconds_def float_units_def sdiv_smod_nonneg duration_units fl_gt_0)
qed

text \<open>One rounding loses or gains at most the factor \<open>1 + u\<close>.\<close>

definition unit_roundoff :: rat where "unit_roundoff = 1 / 2 ^ 53"

lemma fl_upper: "0 \<le> x \<Longrightarrow> fl x \<le> x * (1 + unit_roundoff)"
  using fl_le_err [of x] by (simp add: unit_roundoff_def algebra_simps)

lemma roundoff_pos: "0 < unit_roundoff"
  by (simp add: unit_roundoff_def)

lemma Seconds_upper:
  assumes "0 \<le> d" "d \<le> max_int64"
  shows "Seconds d \<le> of_int d / of_int Second * (1 + unit_roundoff) ^ 2"
proof -
  let ?s = "d div Second" and ?n = "d mod Second" and ?c = "1 + unit_roundoff"
  have s: "0 \<le> ?s" "?s \<le> 9223372036" and n: "0 \<le> ?n" "?n < Second"
    using assms by (simp_all add: duration_units max_int64_def pos_imp_zdiv_nonneg_iff)
  have c: "1 \<le> ?c" using roundoff_pos by simp
  have "fl (of_int ?n / of_int Second) \<le> of_int ?n / of_int Second * ?c"
    using n by (intro fl_upper) (simp add: duration_units)
  moreover have "(of_int ?s :: rat) \<le> of_int ?s * ?c"
    using s c by (simp add: mult_le_cancel_left1)
  ultimately have "of_int ?s + fl (of_int ?n / of_int Second) \<le> (of_int ?s + of_int ?n / of_int Second) * ?c"
    by (simp add: algebra_simps)
  also have "of_int ?s + of_int ?n / of_int Second = (of_int d / of_int Second :: rat)"
  proof -
    have "(of_int d :: rat) = of_int (?s * Second + ?n)" by simp
    also have "\<dots> = of_int ?s * of_int Second + of_int ?n" by (simp only: of_int_add of_int_mult)
    finally show ?thesis by (simp only: add_divide_distrib) (simp add: duration_units)
  qed
  finally have le: "of_int ?s + fl (of_int ?n / of_int Second) \<le> of_int d / of_int Second * ?c" .
  have "Seconds d = fl (of_int ?s + fl (of_int ?n / of_int Second))"
    using assms s n by (simp add: Seconds_def float_units_def sdiv_smod_nonneg duration_units)
  also have "\<dots> \<le> (of_int ?s + fl (of_int ?n / of_int Second)) * ?c"
    using s n by (intro fl_upper add_nonneg_nonneg fl_nonneg) (simp_all add: duration_units)
  also have "\<dots> \<le> of_int d / of_int Second * ?c * ?c"
    using le c by (intro mult_right_mono) auto
  finally show ?thesis by (simp only: power2_eq_square mult.assoc)
qed


section \<open>The calendar\<close>

definition leap_year :: "int \<Rightarrow> bool" where
  "leap_year y \<longleftrightarrow> y mod 4 = 0 \<and> (y mod 100 \<noteq> 0 \<or> y mod 400 = 0)"

text \<open>Day number of January 1 of a year; day 0 is January 1 of year 1.\<close>

definition year_start :: "int \<Rightarrow> int" where
  "year_start y = (let p = y - 1 in 365 * p + p div 4 - p div 100 + p div 400)"

definition year_of_day :: "int \<Rightarrow> int" where
  "year_of_day d =
     (let a = d div 146097; d1 = d mod 146097; b = min 3 (d1 div 36524); d2 = d1 - 36524 * b;
          c = d2 div 1461; d3 = d2 mod 1461; e = min 3 (d3 div 365)
      in 400 * a + 100 * b + 4 * c + e + 1)"

text \<open>Days of the year before month \<open>m\<close> (counted from 0).\<close>

definition days_before :: "bool \<Rightarrow> nat \<Rightarrow> int" where
  "days_before lp m =
     [0, 31, 59, 90, 120, 151, 181, 212, 243, 273, 304, 334, 365] ! m + (if lp \<and> 2 \<le> m then 1 else 0)"

definition month_of_yday :: "bool \<Rightarrow> int \<Rightarrow> nat" where
  "month_of_yday lp yd = length (filter (\<lambda>m. days_before lp m \<le> yd) [1, 2, 3, 4, 5, 6, 7, 8, 9, 10, 11])"

lemma div_succ: "0 < n \<Longrightarrow> (p + 1) div n = p div n + (if (p + 1) mod n = 0 then 1 else (0::int))"
proof -
  assume n: "0 < n"
  have p: "p + 1 = n * (p div n) + (p mod n + 1)" by simp
  have r: "0 \<le> p mod n" "p mod n < n" using n by simp_all
  show ?thesis
  proof (cases "p mod n + 1 = n")
    case True
    from p have "p + 1 = n * (p div n) + n" unfolding True .
    then have "p + 1 = n * (p div n + 1) + 0" by (simp only: distrib_left mult_1_right add_0_right)
    with n show ?thesis using int_div_pos_eq [of "p + 1" n _ 0] int_mod_pos_eq [of "p + 1" n _ 0] by simp
  next
    case False
    with r have "p mod n + 1 < n" by simp
    then have "(p + 1) div n = p div n" "(p + 1) mod n = p mod n + 1"
      using int_div_pos_eq [OF p] int_mod_pos_eq [OF p] r by auto
    with r show ?thesis by simp
  qed
qed

lemma leap_year_iff:
  "(if leap_year y then 366 else 365) =
   365 + (if y mod 4 = 0 then 1 else 0) - (if y mod 100 = 0 then 1 else 0) + (if y mod 400 = 0 then 1 else (0::int))"
proof -
  have "y mod 4 = 0" if "y mod 100 = 0"
    using that mod_mod_cancel [of 4 100 y] by simp
  moreover have "y mod 100 = 0" if "y mod 400 = 0"
    using that mod_mod_cancel [of 100 400 y] by simp
  ultimately show ?thesis
    unfolding leap_year_def
    by (cases "y mod 4 = 0"; cases "y mod 100 = 0"; cases "y mod 400 = 0") (simp_all only: simp_thms if_True if_False)
qed

lemma year_start_next: "year_start (y + 1) = year_start y + (if leap_year y then 366 else 365)"
proof -
  have step: "365 * y + (A + i) - (B + j) + (C + k) = 365 * (y - 1) + A - B + C + (365 + i - j + k)"
    for A B C i j k :: int by simp
  have "y div 4 = (y - 1) div 4 + (if y mod 4 = 0 then 1 else 0)"
    "y div 100 = (y - 1) div 100 + (if y mod 100 = 0 then 1 else 0)"
    "y div 400 = (y - 1) div 400 + (if y mod 400 = 0 then 1 else 0)"
    using div_succ [of 4 "y - 1"] div_succ [of 100 "y - 1"] div_succ [of 400 "y - 1"]
    by (simp_all only: diff_add_cancel zero_less_numeral simp_thms)
  then show ?thesis
    unfolding year_start_def Let_def leap_year_iff by (simp only: add_diff_cancel_right' step)
qed

lemma year_start_mono: "y \<le> z \<Longrightarrow> year_start y \<le> year_start z"
proof (induction z rule: int_ge_induct)
  case base
  show ?case by simp
next
  case (step i)
  then show ?case by (simp add: year_start_next)
qed

lemma year_start_cycles:
  assumes "0 \<le> b" "b \<le> 3" "0 \<le> c" "c \<le> 24" "0 \<le> e" "e \<le> 3"
  shows "year_start (400 * a + 100 * b + 4 * c + e + 1) = 146097 * a + 36524 * b + 1461 * c + 365 * e"
proof -
  let ?p = "400 * a + 100 * b + 4 * c + e"
  have "?p div 4 = 100 * a + 25 * b + c"
    using assms by (intro int_div_pos_eq [of _ _ _ e]) auto
  moreover have "?p div 100 = 4 * a + b"
    using assms by (intro int_div_pos_eq [of _ _ _ "4 * c + e"]) auto
  moreover have "?p div 400 = a"
    using assms by (intro int_div_pos_eq [of _ _ _ "100 * b + 4 * c + e"]) auto
  ultimately show ?thesis by (simp add: year_start_def Let_def)
qed

lemma leap_cycles:
  assumes "0 \<le> b" "b \<le> 3" "0 \<le> c" "c \<le> 24" "c = 24 \<Longrightarrow> b = 3"
  shows "leap_year (400 * a + 100 * b + 4 * c + 3 + 1)"
proof -
  let ?y = "400 * a + 100 * b + 4 * c + 3 + 1"
  have "?y mod 4 = 0"
    by (intro int_mod_pos_eq [of _ _ "100 * a + 25 * b + c + 1"]) auto
  moreover have "?y mod 400 = 0" if "c = 24"
    using assms that by (intro int_mod_pos_eq [of _ _ "a + 1"]) auto
  moreover have "?y mod 100 = 4 * c + 4" if "c \<noteq> 24"
    using assms that by (intro int_mod_pos_eq [of _ _ "4 * a + b"]) auto
  ultimately show ?thesis using assms by (cases "c = 24") (auto simp: leap_year_def)
qed

lemma capped_div:
  fixes x k :: int
  assumes "0 < k" "0 \<le> x" "x < 4 * k + 1"
  defines "b \<equiv> min 3 (x div k)"
  shows "0 \<le> b \<and> b \<le> 3 \<and> 0 \<le> x - k * b \<and> x - k * b \<le> k \<and> (b < 3 \<longrightarrow> x - k * b < k)"
proof -
  define q where "q = x div k"
  define r where "r = x mod k"
  have x: "x = k * q + r" and r: "0 \<le> r" "r < k" and q: "0 \<le> q"
    using assms by (simp_all add: q_def r_def pos_imp_zdiv_nonneg_iff)
  show ?thesis
  proof (cases "3 \<le> q")
    case True
    then have "k * 3 \<le> k * q" using assms(1) by simp
    with x r assms(3) have "0 \<le> x - k * 3 \<and> x - k * 3 \<le> k" by linarith
    with True show ?thesis by (simp add: b_def q_def [symmetric])
  next
    case False
    with x r q show ?thesis by (simp add: b_def q_def [symmetric])
  qed
qed

lemma year_of_day_bounds:
  "year_start (year_of_day d) \<le> d \<and> d < year_start (year_of_day d + 1)"
proof -
  define a where "a = d div 146097"
  define d1 where "d1 = d mod 146097"
  define b where "b = min 3 (d1 div 36524)"
  define d2 where "d2 = d1 - 36524 * b"
  define c where "c = d2 div 1461"
  define d3 where "d3 = d2 mod 1461"
  define e where "e = min 3 (d3 div 365)"
  have y: "year_of_day d = 400 * a + 100 * b + 4 * c + e + 1"
    unfolding year_of_day_def Let_def a_def b_def c_def e_def d1_def d2_def d3_def ..
  have d: "d = 146097 * a + d1" and d1: "0 \<le> d1" "d1 < 4 * 36524 + 1"
    unfolding a_def d1_def by simp_all
  have b: "0 \<le> b" "b \<le> 3" and d2: "0 \<le> d2" "d2 \<le> 36524" "b < 3 \<Longrightarrow> d2 < 36524"
    using capped_div [OF _ d1] by (simp_all add: b_def [symmetric] d2_def)
  have d2': "d2 = 1461 * c + d3" and d3: "0 \<le> d3" "d3 < 4 * 365 + 1"
    unfolding c_def d3_def by simp_all
  have c: "0 \<le> c" "c \<le> 24" using d2 d2' d3 by simp_all
  have e: "0 \<le> e" "e \<le> 3" "365 * e \<le> d3" "d3 - 365 * e \<le> 365" "e < 3 \<Longrightarrow> d3 - 365 * e < 365"
    using capped_div [OF _ d3] by (simp_all add: e_def [symmetric])
  have ys: "year_start (year_of_day d) = 146097 * a + 36524 * b + 1461 * c + 365 * e"
    unfolding y using b c e by (intro year_start_cycles) auto
  have tot: "d = 146097 * a + 36524 * b + 1461 * c + d3"
    using d d2' by (simp add: d2_def)
  have "leap_year (year_of_day d)" if l: "d3 = 365 * e + 365"
  proof -
    have e3: "e = 3" using e l by linarith
    have "b = 3" if "c = 24" using that l e3 d2 d2' b by linarith
    with b c show ?thesis unfolding y e3 by (intro leap_cycles) auto
  qed
  then show ?thesis
    unfolding year_start_next ys using tot e by (cases "d3 = 365 * e + 365") simp_all
qed

lemma year_of_day_unique:
  assumes "year_start y \<le> d" "d < year_start (y + 1)"
  shows "year_of_day d = y"
proof (rule ccontr)
  assume "year_of_day d \<noteq> y"
  then consider "year_of_day d + 1 \<le> y" | "y + 1 \<le> year_of_day d" by linarith
  then show False
    using year_of_day_bounds [of d] assms year_start_mono by cases (meson leD order_le_less_trans order_trans)+
qed

lemma days_before_upto:
  "days_before lp 0 = 0" "days_before lp 12 = (if lp then 366 else 365)"
  by (simp_all add: days_before_def)

text \<open>The month of a day of the year, and the day's place within it.\<close>

lemma days_before_step:
  assumes "m < 12"
  shows "days_before lp m < days_before lp (Suc m)"
proof -
  have "m = 0 \<or> m = 1 \<or> m = 2 \<or> m = 3 \<or> m = 4 \<or> m = 5 \<or> m = 6 \<or> m = 7 \<or> m = 8 \<or> m = 9 \<or> m = 10 \<or> m = 11"
    using assms by arith
  then show ?thesis by (elim disjE) (simp_all add: days_before_def)
qed

lemma days_before_mono: "i \<le> j \<Longrightarrow> j \<le> 12 \<Longrightarrow> days_before lp i \<le> days_before lp j"
proof (induction j rule: dec_induct)
  case base
  show ?case by simp
next
  case (step j)
  with days_before_step [of j lp] show ?case by simp
qed

lemma count_upto_eleven:
  assumes "m \<le> 11"
  shows "length (filter (\<lambda>k. k \<le> m) [1, 2, 3, 4, 5, 6, 7, 8, 9, 10, 11]) = (m::nat)"
proof -
  have "m = 0 \<or> m = 1 \<or> m = 2 \<or> m = 3 \<or> m = 4 \<or> m = 5 \<or> m = 6 \<or> m = 7 \<or> m = 8 \<or> m = 9 \<or> m = 10 \<or> m = 11"
    using assms by arith
  then show ?thesis by (elim disjE) simp_all
qed

lemma month_unique:
  assumes "m \<le> 11" "days_before lp m \<le> yd" "yd < days_before lp (Suc m)"
  shows "month_of_yday lp yd = m"
proof -
  have "days_before lp k \<le> yd \<longleftrightarrow> k \<le> m" if "k \<le> 11" for k
  proof (cases "k \<le> m")
    case True
    with assms days_before_mono [of k m lp] show ?thesis by simp
  next
    case False
    with assms that days_before_mono [of "Suc m" k lp] show ?thesis by simp
  qed
  then have "filter (\<lambda>k. days_before lp k \<le> yd) [1, 2, 3, 4, 5, 6, 7, 8, 9, 10, 11] =
             filter (\<lambda>k. k \<le> m) [1, 2, 3, 4, 5, 6, 7, 8, 9, 10, 11]"
    by (intro filter_cong) auto
  with count_upto_eleven [OF assms(1)] show ?thesis by (simp only: month_of_yday_def)
qed

lemma month_bounds:
  assumes "0 \<le> yd" "yd < (if lp then 366 else 365)"
  shows "month_of_yday lp yd \<le> 11 \<and> days_before lp (month_of_yday lp yd) \<le> yd \<and>
         yd < days_before lp (Suc (month_of_yday lp yd))"
proof -
  define m where "m = Max {m. m \<le> 11 \<and> days_before lp m \<le> yd}"
  have fin: "finite {m. m \<le> 11 \<and> days_before lp m \<le> yd}" by simp
  have "0 \<in> {m. m \<le> 11 \<and> days_before lp m \<le> yd}" using assms by (simp add: days_before_upto)
  then have "m \<in> {m. m \<le> 11 \<and> days_before lp m \<le> yd}"
    unfolding m_def by (intro Max_in [OF fin]) blast
  then have m: "m \<le> 11" "days_before lp m \<le> yd" by auto
  have "yd < days_before lp (Suc m)"
  proof (cases "m = 11")
    case True
    with assms show ?thesis by (simp add: days_before_def split: if_splits)
  next
    case False
    with m show ?thesis using Max_ge [OF fin, of "Suc m"] by (force simp: m_def [symmetric])
  qed
  with m month_unique [OF m] show ?thesis by simp
qed

text \<open>\<open>time.Date(y, m, d, 0, 0, 0, 0, time.UTC)\<close>: months outside 1 to 12 carry into the year and days
  outside the month carry into the months around it.\<close>

definition date_day :: "int \<Rightarrow> int \<Rightarrow> int \<Rightarrow> int" where
  "date_day y m d =
     (let y' = y + (m - 1) div 12; m' = nat ((m - 1) mod 12)
      in year_start y' + days_before (leap_year y') m' + d - 1)"

definition day_ns :: int where "day_ns = 86400000000000"

definition time_Date :: "int \<Rightarrow> int \<Rightarrow> int \<Rightarrow> time" where
  "time_Date y m d = date_day y m d * day_ns"

definition day_of :: "time \<Rightarrow> int" where "day_of t = t div day_ns"

definition Year :: "time \<Rightarrow> int" where "Year t = year_of_day (day_of t)"

definition yday :: "time \<Rightarrow> int" where "yday t = day_of t - year_start (Year t)"

definition Month :: "time \<Rightarrow> int" where
  "Month t = int (month_of_yday (leap_year (Year t)) (yday t)) + 1"

definition Day :: "time \<Rightarrow> int" where
  "Day t = yday t - days_before (leap_year (Year t)) (month_of_yday (leap_year (Year t)) (yday t)) + 1"

text \<open>Sunday is 0; day 0 was a Monday.\<close>

definition Weekday :: "time \<Rightarrow> int" where "Weekday t = (day_of t + 1) mod 7"

text \<open>\<open>t.AddDate(years, months, days)\<close> of an instant at midnight UTC.\<close>

definition AddDate :: "time \<Rightarrow> int \<Rightarrow> int \<Rightarrow> int \<Rightarrow> time" where
  "AddDate t y m d = time_Date (Year t + y) (Month t + m) (Day t + d)"

lemma yday_bounds: "0 \<le> yday t \<and> yday t < (if leap_year (Year t) then 366 else 365)"
  using year_of_day_bounds [of "day_of t"] by (simp add: yday_def Year_def year_start_next split: if_splits)

lemma Month_bounds: "1 \<le> Month t \<and> Month t \<le> 12"
  using month_bounds [of "yday t" "leap_year (Year t)"] yday_bounds [of t] by (simp add: Month_def)

theorem date_day_of: "date_day (Year t) (Month t) d = day_of t - Day t + d"
proof -
  let ?m = "month_of_yday (leap_year (Year t)) (yday t)"
  have "?m \<le> 11" using month_bounds [of "yday t" "leap_year (Year t)"] yday_bounds [of t] by simp
  then have "int ?m div 12 = 0" "int ?m mod 12 = int ?m" by simp_all
  then show ?thesis by (simp add: date_day_def Month_def Day_def yday_def Let_def)
qed

lemma day_of_time_Date [simp]: "day_of (time_Date y m d) = date_day y m d"
  by (simp add: day_of_def time_Date_def day_ns_def)

text \<open>The first day of the month determines the month, and every day before the first of the next
  month lies in it.\<close>

lemma date_day_first:
  assumes "k \<le> 11"
  shows "date_day y (int k + 1) 1 = year_start y + days_before (leap_year y) k"
    "date_day y (int k + 1 + 1) 1 = year_start y + days_before (leap_year y) (Suc k)"
proof -
  show "date_day y (int k + 1) 1 = year_start y + days_before (leap_year y) k"
    using assms by (simp add: date_day_def Let_def)
  show "date_day y (int k + 1 + 1) 1 = year_start y + days_before (leap_year y) (Suc k)"
  proof (cases "k = 11")
    case True
    then show ?thesis by (simp add: date_day_def days_before_def year_start_next Let_def)
  next
    case False
    with assms have "(int k + 1) div 12 = 0" "(int k + 1) mod 12 = int k + 1" by simp_all
    then show ?thesis by (simp add: date_day_def nat_add_distrib Let_def)
  qed
qed

lemma month_of_day:
  assumes "1 \<le> m" "m \<le> 12" "date_day y m 1 \<le> day_of t" "day_of t < date_day y (m + 1) 1"
  shows "Year t = y \<and> Month t = m"
proof -
  define k where "k = nat (m - 1)"
  have k: "m = int k + 1" "k \<le> 11" using assms(1,2) by (auto simp: k_def)
  note first = date_day_first [OF k(2), of y]
  have lo: "0 \<le> days_before (leap_year y) k"
    using days_before_mono [of 0 k "leap_year y"] k by (simp add: days_before_upto)
  have hi: "year_start y + days_before (leap_year y) (Suc k) \<le> year_start (y + 1)"
    using days_before_mono [of "Suc k" 12 "leap_year y"] k by (simp add: days_before_upto year_start_next)
  have y: "Year t = y"
    unfolding Year_def using assms(3,4) first lo hi by (intro year_of_day_unique) (auto simp: k(1))
  have "month_of_yday (leap_year y) (yday t) = k"
    using assms(3,4) first k(2) by (intro month_unique) (auto simp: yday_def y k(1))
  with y k show ?thesis by (simp add: Month_def)
qed

text \<open>An instant lies in its month, between the first day of the month and the first day of the next.\<close>

lemma day_in_month: "date_day (Year t) (Month t) 1 \<le> day_of t \<and> day_of t < date_day (Year t) (Month t + 1) 1"
proof -
  let ?k = "month_of_yday (leap_year (Year t)) (yday t)"
  have b: "?k \<le> 11" "days_before (leap_year (Year t)) ?k \<le> yday t" "yday t < days_before (leap_year (Year t)) (Suc ?k)"
    using month_bounds [of "yday t" "leap_year (Year t)"] yday_bounds [of t] by auto
  show ?thesis
    using b(2,3) date_day_first [OF b(1), of "Year t"] by (simp add: Month_def yday_def)
qed

lemma day_of_bounds: "day_of t * day_ns \<le> t \<and> t < (day_of t + 1) * day_ns"
proof -
  have "t div D * D \<le> t \<and> t < (t div D + 1) * D" if "0 < D" for D :: int
  proof -
    define q r where "q = t div D" and "r = t mod D"
    have "t = q * D + r" "0 \<le> r" "r < D" using that by (simp_all add: q_def r_def)
    then show ?thesis unfolding q_def [symmetric] by (simp add: distrib_right)
  qed
  then show ?thesis by (simp add: day_of_def day_ns_def)
qed

lemma day_le_iff: "n \<le> day_of t \<longleftrightarrow> n * day_ns \<le> t"
proof
  have pos: "0 \<le> day_ns" by (simp add: day_ns_def)
  show "n * day_ns \<le> t" if "n \<le> day_of t"
    using mult_right_mono [OF that pos] day_of_bounds [of t] by simp
  show "n \<le> day_of t" if "n * day_ns \<le> t"
  proof (rule ccontr)
    assume "\<not> n \<le> day_of t"
    then have "(day_of t + 1) * day_ns \<le> n * day_ns" using pos by (intro mult_right_mono) auto
    with that day_of_bounds [of t] show False by simp
  qed
qed


section \<open>RFC 3339\<close>

definition pad :: "nat \<Rightarrow> int \<Rightarrow> string" where
  "pad w n = (let s = Itoa n in replicate (w - length s) CHR ''0'' @ s)"

text \<open>\<open>t.Format(time.RFC3339)\<close> of a UTC instant in the years 0 to 9999.\<close>

definition FormatRFC3339 :: "time \<Rightarrow> string" where
  "FormatRFC3339 t =
     (let s = (t mod day_ns) div Second
      in pad 4 (Year t) @ ''-'' @ pad 2 (Month t) @ ''-'' @ pad 2 (Day t) @ ''T'' @
         pad 2 (s div 3600) @ '':'' @ pad 2 ((s div 60) mod 60) @ '':'' @ pad 2 (s mod 60) @ ''Z'')"


section \<open>Parsing durations\<close>

text \<open>\<open>time.ParseDuration\<close>: a sign, then numbers with a unit, each an integer part and a fraction of
  which one may be missing. \<open>None\<close> is its error.\<close>

definition unit_of :: "string \<Rightarrow> int option" where
  "unit_of u = map_of [(''ns'', 1), (''us'', 1000), ([CHR 0xC2, CHR 0xB5, CHR ''s''], 1000),
     ([CHR 0xCE, CHR 0xBC, CHR ''s''], 1000), (''ms'', 1000000), (''s'', 1000000000),
     (''m'', 60000000000), (''h'', 3600000000000)] u"

text \<open>\<open>leadingInt\<close> fails when the integer passes \<open>2\<^sup>6\<^sup>3\<close>; \<open>leadingFraction\<close> ignores further digits
  instead and returns the scale.\<close>

fun leading_int :: "int \<Rightarrow> string \<Rightarrow> int option" where
  "leading_int x [] = Some x"
| "leading_int x (c # s) =
     (if x > 9223372036854775808 div 10 then None
      else let x' = x * 10 + digit_val c in if x' > 9223372036854775808 then None else leading_int x' s)"

fun leading_fraction :: "int \<Rightarrow> rat \<Rightarrow> bool \<Rightarrow> string \<Rightarrow> int \<times> rat" where
  "leading_fraction x scale ovf [] = (x, scale)"
| "leading_fraction x scale ovf (c # s) =
     (if ovf \<or> x > 9223372036854775807 div 10 then leading_fraction x scale True s
      else let y = x * 10 + digit_val c
           in if y > 9223372036854775808 then leading_fraction x scale True s
              else leading_fraction y (f64_mul scale 10) False s)"

definition unit_amount :: "int \<Rightarrow> int \<times> rat \<Rightarrow> int \<Rightarrow> int option" where
  "unit_amount v fs unit =
     (if v > 9223372036854775808 div unit then None
      else let w = v * unit;
               w' = (if fst fs > 0
                     then w + \<lfloor>f64_mul (f64_of_int (fst fs)) (fl (f64_of_int unit / snd fs))\<rfloor> else w)
           in if w' > 9223372036854775808 then None else Some w')"

text \<open>One term of a duration: integer part, fraction, unit, and the rest of the string.\<close>

definition unit_char :: "char \<Rightarrow> bool" where "unit_char c \<longleftrightarrow> c \<noteq> CHR ''.'' \<and> \<not> is_digit c"

definition next_term :: "string \<Rightarrow> (string \<times> string \<times> string \<times> string) option" where
  "next_term s =
     (let ip = takeWhile is_digit s; r1 = dropWhile is_digit s;
          dot = (r1 \<noteq> [] \<and> hd r1 = CHR ''.'');
          fp = (if dot then takeWhile is_digit (tl r1) else []);
          r2 = (if dot then dropWhile is_digit (tl r1) else r1);
          u = takeWhile unit_char r2
      in if ip = [] \<and> fp = [] \<or> u = [] then None else Some (ip, fp, u, dropWhile unit_char r2))"

lemma dropWhile_shorter: "takeWhile P xs \<noteq> [] \<Longrightarrow> length (dropWhile P xs) < length xs"
  by (cases xs) (auto split: if_splits intro: le_imp_less_Suc length_dropWhile_le)

lemma next_term_shorter: "next_term s = Some (ip, fp, u, r) \<Longrightarrow> length r < length s"
proof -
  assume s: "next_term s = Some (ip, fp, u, r)"
  define r1 where "r1 = dropWhile is_digit s"
  define r2 where "r2 = (if r1 \<noteq> [] \<and> hd r1 = CHR ''.'' then dropWhile is_digit (tl r1) else r1)"
  from s have "r = dropWhile unit_char r2" "takeWhile unit_char r2 \<noteq> []"
    by (simp_all only: next_term_def Let_def r1_def [symmetric] r2_def [symmetric] split: if_splits) auto
  then have "length r < length r2" by (simp add: dropWhile_shorter)
  also have "length r2 \<le> length r1"
    using length_dropWhile_le [of is_digit "tl r1"] by (auto simp: r2_def)
  also have "length r1 \<le> length s" by (simp add: r1_def length_dropWhile_le)
  finally show ?thesis .
qed

function parse_terms :: "int \<Rightarrow> string \<Rightarrow> int option" where
  "parse_terms d s =
     (if s = [] then Some d
      else (case next_term s of
              None \<Rightarrow> None
            | Some (ip, fp, u, r) \<Rightarrow>
                (case (leading_int 0 ip, unit_of u) of
                   (Some v, Some unit) \<Rightarrow>
                     (case unit_amount v (leading_fraction 0 1 False fp) unit of
                        None \<Rightarrow> None
                      | Some w \<Rightarrow> if d + w > 9223372036854775808 then None else parse_terms (d + w) r)
                 | _ \<Rightarrow> None)))"
  by pat_completeness auto
termination
  by (relation "measure (\<lambda>(d, s). length s)") (auto dest: next_term_shorter)

declare parse_terms.simps [simp del]

definition ParseDuration :: "string \<Rightarrow> duration option" where
  "ParseDuration s =
     (let signed = (s \<noteq> [] \<and> (hd s = CHR ''-'' \<or> hd s = CHR ''+'')); neg = (s \<noteq> [] \<and> hd s = CHR ''-'');
          s' = (if signed then tl s else s)
      in if s' = ''0'' then Some 0
         else if s' = [] then None
         else (case parse_terms 0 s' of
                 None \<Rightarrow> None
               | Some d \<Rightarrow> if neg then Some (- d) else if d > max_int64 then None else Some d))"

text \<open>A parsed duration without a sign is not negative, and every positive one fits \<open>int64\<close>.\<close>

lemma digit_val_nonneg: "is_digit c \<Longrightarrow> 0 \<le> digit_val c"
  by (simp add: is_digit_def digit_val_def less_eq_char_def)

lemma leading_int_nonneg: "list_all is_digit s \<Longrightarrow> 0 \<le> x \<Longrightarrow> leading_int x s = Some y \<Longrightarrow> 0 \<le> y"
  by (induction x s rule: leading_int.induct) (auto simp: Let_def digit_val_nonneg split: if_splits)

lemma leading_fraction_scale:
  "list_all is_digit s \<Longrightarrow> 0 \<le> x \<Longrightarrow> 0 < q \<Longrightarrow>
   0 \<le> fst (leading_fraction x q ovf s) \<and> 0 < snd (leading_fraction x q ovf s)"
proof (induction x q ovf s rule: leading_fraction.induct)
  case (1 x q ovf)
  then show ?case by simp
next
  case (2 x q ovf c s)
  have "0 < fl (q * 10)" using "2.prems" by (simp add: fl_gt_0)
  then show ?case
    using "2.prems" "2.IH" by (simp add: Let_def digit_val_nonneg)
qed

lemma unit_of_pos: "unit_of u = Some n \<Longrightarrow> 0 < n"
  by (auto simp: unit_of_def split: if_splits)

lemma unit_amount_nonneg:
  assumes "unit_amount v fs unit = Some w" "0 \<le> v" "0 < unit" "0 \<le> fst fs" "0 < snd fs"
  shows "0 \<le> w"
  using assms by (auto simp: unit_amount_def Let_def zero_le_floor intro!: add_nonneg_nonneg split: if_splits)

lemma next_term_digits:
  "next_term s = Some (ip, fp, u, r) \<Longrightarrow> list_all is_digit ip \<and> list_all is_digit fp"
  by (auto simp: next_term_def Let_def list_all_iff dest: set_takeWhileD split: if_splits)

lemma parse_terms_nonneg: "0 \<le> d \<Longrightarrow> parse_terms d s = Some y \<Longrightarrow> 0 \<le> y"
proof (induction d s rule: parse_terms.induct)
  case (1 d s)
  show ?case
  proof (cases "s = []")
    case True
    with "1.prems" show ?thesis by (simp add: parse_terms.simps)
  next
    case False
    with "1.prems"(2) obtain ip fp u r v unit w where
      t: "next_term s = Some (ip, fp, u, r)" "leading_int 0 ip = Some v" "unit_of u = Some unit"
         "unit_amount v (leading_fraction 0 1 False fp) unit = Some w"
         "\<not> 9223372036854775808 < d + w" "parse_terms (d + w) r = Some y"
      by (subst (asm) parse_terms.simps) (auto split: result_splits)
    have "0 \<le> v" using leading_int_nonneg [of ip 0 v] next_term_digits [OF t(1)] t(2) by simp
    then have "0 \<le> w"
      using unit_amount_nonneg [OF t(4)] unit_of_pos [OF t(3)] next_term_digits [OF t(1)]
        leading_fraction_scale [of fp 0 1 False] by simp
    with t False "1.prems"(1) show ?thesis
      by (intro "1.IH" [of _ ip _ fp _ u r _ _ v unit]) auto
  qed
qed

lemma ParseDuration_max: "ParseDuration s = Some d \<Longrightarrow> 0 < d \<Longrightarrow> d \<le> max_int64"
  using parse_terms_nonneg [of 0] by (fastforce simp: ParseDuration_def Let_def max_int64_def split: result_splits)

end
