(* ===== verification/Go_Values.thy ===== *)
theory Go_Values
  imports Go_Time
begin

text \<open>
  Go values of type \<open>any\<close>, as JSON decoding and the gateway's own maps produce them, the hexadecimal
  encoding of bytes, and the helper all packages copy to read a switch from the environment.
\<close>

text \<open>\<open>ANumber\<close> is a \<open>json.Number\<close>, \<open>ATime\<close> a \<open>time.Time\<close>, \<open>AStrings\<close> a \<open>[]string\<close> and \<open>AList\<close> a \<open>[]any\<close>.\<close>

datatype any =
    ANil | ABool bool | AFloat rat | AInt int | ANumber string | AString string | ATime time
  | AStrings "string list" | AList "any list" | AMap "(string \<times> any) list"


section \<open>Hexadecimal\<close>

definition hex_digit :: "nat \<Rightarrow> char" where
  "hex_digit d = (if d < 10 then char_of (48 + d) else char_of (87 + d))"

definition EncodeToString :: "string \<Rightarrow> string" where
  "EncodeToString bs = concat (map (\<lambda>b. [hex_digit (of_char b div 16), hex_digit (of_char b mod 16)]) bs)"

lemma of_char_hex_digit: "d < 16 \<Longrightarrow> of_char (hex_digit d) = (if d < 10 then 48 + d else 87 + d)"
  by (simp add: hex_digit_def)

lemma hex_digit_inj:
  assumes "d < 16" "e < 16" "hex_digit d = hex_digit e"
  shows "d = e"
proof -
  have "(if d < 10 then 48 + d else 87 + d) = (if e < 10 then 48 + e else 87 + e)"
    using assms of_char_hex_digit [of d] of_char_hex_digit [of e] by simp
  then show ?thesis by (simp split: if_splits)
qed

lemma EncodeToString_Cons:
  "EncodeToString (b # bs) = hex_digit (of_char b div 16) # hex_digit (of_char b mod 16) # EncodeToString bs"
  by (simp add: EncodeToString_def)

lemma EncodeToString_length: "length (EncodeToString bs) = 2 * length bs"
  by (induction bs) (simp_all add: EncodeToString_Cons EncodeToString_def)

lemma EncodeToString_inj: "EncodeToString xs = EncodeToString ys \<Longrightarrow> xs = ys"
proof (induction xs arbitrary: ys)
  case Nil
  then show ?case by (cases ys) (simp_all add: EncodeToString_def)
next
  case (Cons x xs)
  then obtain y zs where ys: "ys = y # zs" by (cases ys) (simp_all add: EncodeToString_def)
  have l: "of_char c div 16 < (16 :: nat)" "of_char c mod 16 < (16 :: nat)" for c :: char
    using nat_of_char_less_256 [of c] by (simp_all add: div_less_iff_less_mult)
  have "of_char x div 16 = (of_char y div 16 :: nat)" "of_char x mod 16 = (of_char y mod 16 :: nat)" "EncodeToString xs = EncodeToString zs"
    using Cons.prems hex_digit_inj l by (auto simp: ys EncodeToString_Cons)
  moreover from this(1,2) have "of_char x = (of_char y :: nat)" by (metis div_mult_mod_eq)
  ultimately show ?case using Cons.IH ys by simp
qed


section \<open>Reading the environment\<close>

text \<open>The loop over the characters of a setting that several packages use instead of \<open>strconv\<close>: any
  character but a decimal digit gives the fallback, and the value wraps around.\<close>

fun digits_loop :: "int \<Rightarrow> int \<Rightarrow> string \<Rightarrow> int" where
  "digits_loop fallback n [] = n"
| "digits_loop fallback n (c # s) =
     (if is_digit c then digits_loop fallback (wrap64 (n * 10 + digit_val c)) s else fallback)"

end
