(* ===== verification/Mcpws_Backends.thy ===== *)
theory Mcpws_Backends
  imports Go_Values
begin

text \<open>
  The backend connections of a WebSocket session (\<open>mcpws.go\<close>: \<open>backend\<close>, \<open>getBackend\<close>, \<open>dropBackend\<close>,
  \<open>reapBackendsLoop\<close>, \<open>pumpBackendToClient\<close>, \<open>session.Close\<close>). The connection pool of \<open>fi-mcp-kit\<close> is a
  record of operations; a connection is known by a number, and what the session reads and writes of it
  (its health flag, its time of last use and whether its transport is a \<open>backendTransport\<close>) is the record
  \<open>conn\<close>.

  \<open>getBackend\<close> and \<open>dropBackend\<close> take the lock of the session for a moment and work outside it; they are
  split at these points, and the relation \<open>conn_step\<close> interleaves the pieces of any number of goroutines.

  Shown here: every connection taken from the pool is in the table of backends, in the hands of exactly one
  goroutine, or was put back exactly once; there is one backend per server; and the goroutine that serves an
  old connection can drop a newer one.
\<close>

section \<open>Backends\<close>

record conn =
  cn_Healthy :: bool
  cn_LastUsed :: time
  cn_ours :: bool

record 'p pool_ops =
  po_Get :: "string \<Rightarrow> 'p \<Rightarrow> (string, nat \<times> conn) result \<times> 'p"
  po_Put :: "nat \<Rightarrow> conn \<Rightarrow> 'p \<Rightarrow> 'p"
  po_Close :: "'p \<Rightarrow> 'p"

text \<open>\<open>bk_lastUsed\<close> is \<open>lastUsedNano\<close>, kept as an instant. A backend always has its connection.\<close>

record backend =
  bk_server :: string
  bk_conn :: nat
  bk_lastUsed :: time

text \<open>\<open>cs_conns\<close> holds the connections the session has a pointer to, \<open>cs_closed\<close> the transports it closed and
  \<open>cs_pumps\<close> the backends whose reading goroutine was started.\<close>

record 'p conns =
  cs_backends :: "(string, backend) gomap"
  cs_conns :: "nat \<Rightarrow> conn"
  cs_pool :: 'p
  cs_closed :: "nat list"
  cs_pumps :: "backend list"

definition unix_nano :: "time \<Rightarrow> time" where "unix_nano t = unix_epoch + UnixNano t"

definition touch :: "time \<Rightarrow> backend \<Rightarrow> backend" where "touch now b = b\<lparr>bk_lastUsed := unix_nano now\<rparr>"

definition set_conn :: "nat \<Rightarrow> (conn \<Rightarrow> conn) \<Rightarrow> 'p conns \<Rightarrow> 'p conns" where
  "set_conn c f s = s\<lparr>cs_conns := (cs_conns s)(c := f (cs_conns s c))\<rparr>"

definition syncLastUsed :: "backend \<Rightarrow> 'p conns \<Rightarrow> 'p conns" where
  "syncLastUsed b = set_conn (bk_conn b) (\<lambda>cn. cn\<lparr>cn_LastUsed := bk_lastUsed b\<rparr>)"

definition close_transport :: "nat \<Rightarrow> 'p conns \<Rightarrow> 'p conns" where
  "close_transport c s = s\<lparr>cs_closed := cs_closed s @ [c]\<rparr>"

definition pool_put :: "'p pool_ops \<Rightarrow> nat \<Rightarrow> 'p conns \<Rightarrow> 'p conns" where
  "pool_put ops c s = s\<lparr>cs_pool := po_Put ops c (cs_conns s c) (cs_pool s)\<rparr>"

text \<open>Returning a backend that was taken out of the table, as \<open>getBackend\<close> and \<open>dropBackend\<close> do it.\<close>

definition retire :: "'p pool_ops \<Rightarrow> bool \<Rightarrow> backend \<Rightarrow> 'p conns \<Rightarrow> 'p conns" where
  "retire ops unhealthy b s =
     (let s1 = (if unhealthy then set_conn (bk_conn b) (\<lambda>cn. cn\<lparr>cn_Healthy := False\<rparr>) s else s)
      in pool_put ops (bk_conn b) (close_transport (bk_conn b) (syncLastUsed b s1)))"

text \<open>\<open>getBackend\<close>: the first section under the lock finds a healthy backend (\<open>Inl\<close>) or removes an unhealthy
  one, the last one keeps the backend of another goroutine that was faster.\<close>

definition getBackend_lookup :: "string \<Rightarrow> 'p conns \<Rightarrow> (backend + backend option) \<times> 'p conns" where
  "getBackend_lookup serverName s =
     (case mget (cs_backends s) serverName of
        Some b \<Rightarrow>
          if cn_Healthy (cs_conns s (bk_conn b)) then (Inl b, s)
          else (Inr (Some b), s\<lparr>cs_backends := mdel serverName (cs_backends s)\<rparr>)
      | None \<Rightarrow> (Inr None, s))"

definition getBackend_dial :: "'p pool_ops \<Rightarrow> time \<Rightarrow> string \<Rightarrow> 'p conns \<Rightarrow> (string, backend) result \<times> 'p conns" where
  "getBackend_dial ops now serverName s =
     (case po_Get ops serverName (cs_pool s) of
        (Inl er, p) \<Rightarrow> (Err er, s\<lparr>cs_pool := p\<rparr>)
      | (Inr (c, cn), p) \<Rightarrow>
          let s1 = s\<lparr>cs_pool := p, cs_conns := (cs_conns s)(c := cn)\<rparr>
          in if \<not> cn_ours cn
             then (Err ''unexpected backend transport type'',
                   pool_put ops c (set_conn c (\<lambda>cn. cn\<lparr>cn_Healthy := False\<rparr>) s1))
             else (Ok (touch now \<lparr>bk_server = serverName, bk_conn = c, bk_lastUsed = unix_epoch\<rparr>), s1))"

definition getBackend_install :: "'p pool_ops \<Rightarrow> backend \<Rightarrow> 'p conns \<Rightarrow> backend \<times> 'p conns" where
  "getBackend_install ops b s =
     (case mget (cs_backends s) (bk_server b) of
        Some prev \<Rightarrow> (prev, pool_put ops (bk_conn b) (set_conn (bk_conn b) (\<lambda>cn. cn\<lparr>cn_Healthy := False\<rparr>) s))
      | None \<Rightarrow> (b, s\<lparr>cs_backends := mput (bk_server b) b (cs_backends s), cs_pumps := cs_pumps s @ [b]\<rparr>))"

definition getBackend :: "'p pool_ops \<Rightarrow> time \<Rightarrow> string \<Rightarrow> 'p conns \<Rightarrow> (string, backend) result \<times> 'p conns" where
  "getBackend ops now serverName s =
     (case getBackend_lookup serverName s of
        (Inl b, s1) \<Rightarrow> (Ok b, s1)
      | (Inr toDrop, s1) \<Rightarrow>
          let s2 = (case toDrop of Some b \<Rightarrow> retire ops True b s1 | None \<Rightarrow> s1)
          in (case getBackend_dial ops now serverName s2 of
                (Inl er, s3) \<Rightarrow> (Err er, s3)
              | (Inr b, s3) \<Rightarrow> (case getBackend_install ops b s3 of (b', s4) \<Rightarrow> (Ok b', s4))))"

definition dropBackend_take :: "string \<Rightarrow> 'p conns \<Rightarrow> backend option \<times> 'p conns" where
  "dropBackend_take serverName s =
     (mget (cs_backends s) serverName, s\<lparr>cs_backends := mdel serverName (cs_backends s)\<rparr>)"

definition dropBackend :: "'p pool_ops \<Rightarrow> string \<Rightarrow> bool \<Rightarrow> 'p conns \<Rightarrow> 'p conns" where
  "dropBackend ops serverName unhealthy s =
     (case dropBackend_take serverName s of
        (None, s1) \<Rightarrow> s1
      | (Some b, s1) \<Rightarrow> retire ops unhealthy b s1)"

text \<open>One tick of \<open>reapBackendsLoop\<close>, and the interval between ticks.\<close>

definition reap_interval :: "duration \<Rightarrow> duration option" where
  "reap_interval idleTimeout =
     (if idleTimeout \<le> 0 then None
      else let tickEvery = idleTimeout sdiv 2
           in Some (if tickEvery < 250 * Millisecond then 250 * Millisecond else tickEvery))"

definition reap_tick :: "'p pool_ops \<Rightarrow> duration \<Rightarrow> time \<Rightarrow> 'p conns \<Rightarrow> 'p conns" where
  "reap_tick ops idleTimeout now s =
     fold (\<lambda>name. dropBackend ops name True)
       (map fst (filter (\<lambda>(name, b). time_Sub now (bk_lastUsed b) > idleTimeout) (cs_backends s))) s"

text \<open>\<open>Close\<close> of the session, without the client: the transports are closed and the pool is.\<close>

definition close_backends :: "'p pool_ops \<Rightarrow> 'p conns \<Rightarrow> 'p conns" where
  "close_backends ops s =
     (let s1 = fold (\<lambda>(name, b). close_transport (bk_conn b)) (cs_backends s) s
      in s1\<lparr>cs_pool := po_Close ops (cs_pool s1)\<rparr>)"


text \<open>\<open>touch\<close> through a pointer to a backend: a backend is known by its connection.\<close>

definition touch_backend :: "time \<Rightarrow> backend \<Rightarrow> 'p conns \<Rightarrow> 'p conns" where
  "touch_backend now b s =
     s\<lparr>cs_backends := map (\<lambda>(name, b'). (name, if bk_conn b' = bk_conn b then touch now b' else b')) (cs_backends s)\<rparr>"


section \<open>Ownership of connections\<close>

text \<open>A pool that counts what it hands out and what it gets back.\<close>

definition counted :: "'p pool_ops \<Rightarrow> ('p \<times> nat multiset \<times> nat multiset) pool_ops" where
  "counted ops = \<lparr>
     po_Get = (\<lambda>server (p, got, back).
       case po_Get ops server p of
         (Inl er, p') \<Rightarrow> (Inl er, p', got, back)
       | (Inr (c, cn), p') \<Rightarrow> (Inr (c, cn), p', got + {# c #}, back)),
     po_Put = (\<lambda>c cn (p, got, back). (po_Put ops c cn p, got, back + {# c #})),
     po_Close = (\<lambda>(p, got, back). (po_Close ops p, got, back))\<rparr>"

definition handed_out :: "('p \<times> nat multiset \<times> nat multiset) conns \<Rightarrow> nat multiset" where "handed_out s = fst (snd (cs_pool s))"
definition put_back :: "('p \<times> nat multiset \<times> nat multiset) conns \<Rightarrow> nat multiset" where "put_back s = snd (snd (cs_pool s))"

text \<open>The state seen by all goroutines of a session, with what each holds outside the lock: backends taken
  out of the table and fresh backends not yet in it.\<close>

record 'p owned =
  ow_s :: "('p \<times> nat multiset \<times> nat multiset) conns"
  ow_retiring :: "(bool \<times> backend) list"
  ow_dialed :: "backend list"

inductive conn_step :: "'p pool_ops \<Rightarrow> 'p owned \<Rightarrow> 'p owned \<Rightarrow> bool" for ops where
  lookup: "getBackend_lookup name (ow_s y) = (Inr (Some b), s) \<Longrightarrow>
    conn_step ops y (y\<lparr>ow_s := s, ow_retiring := ow_retiring y @ [(True, b)]\<rparr>)"
| dial: "getBackend_dial (counted ops) now name (ow_s y) = (Ok b, s) \<Longrightarrow>
    conn_step ops y (y\<lparr>ow_s := s, ow_dialed := ow_dialed y @ [b]\<rparr>)"
| dial_fails: "getBackend_dial (counted ops) now name (ow_s y) = (Err er, s) \<Longrightarrow>
    conn_step ops y (y\<lparr>ow_s := s\<rparr>)"
| install: "ow_dialed y = xs @ b # ys \<Longrightarrow> getBackend_install (counted ops) b (ow_s y) = (b', s) \<Longrightarrow>
    conn_step ops y (y\<lparr>ow_s := s, ow_dialed := xs @ ys\<rparr>)"
| drop: "dropBackend_take name (ow_s y) = (Some b, s) \<Longrightarrow>
    conn_step ops y (y\<lparr>ow_s := s, ow_retiring := ow_retiring y @ [(unhealthy, b)]\<rparr>)"
| retired: "ow_retiring y = xs @ (unhealthy, b) # ys \<Longrightarrow>
    conn_step ops y (y\<lparr>ow_s := retire (counted ops) unhealthy b (ow_s y), ow_retiring := xs @ ys\<rparr>)"
| touched: "conn_step ops y (y\<lparr>ow_s := touch_backend now b (ow_s y)\<rparr>)"
| marked: "conn_step ops y (y\<lparr>ow_s := set_conn c f (ow_s y)\<rparr>)"

inductive conn_reach :: "'p pool_ops \<Rightarrow> 'p owned \<Rightarrow> bool" for ops where
  start: "cs_backends s = [] \<Longrightarrow> handed_out s = {#} \<Longrightarrow> put_back s = {#} \<Longrightarrow>
    conn_reach ops \<lparr>ow_s = s, ow_retiring = [], ow_dialed = []\<rparr>"
| step: "conn_reach ops y \<Longrightarrow> conn_step ops y y' \<Longrightarrow> conn_reach ops y'"

definition table :: "'p conns \<Rightarrow> nat multiset" where "table s = mset (map (bk_conn \<circ> snd) (cs_backends s))"

text \<open>Where the connections are that the session has from the pool.\<close>

definition held :: "'p owned \<Rightarrow> nat multiset" where
  "held y = table (ow_s y) + mset (map (bk_conn \<circ> snd) (ow_retiring y)) + mset (map bk_conn (ow_dialed y))"

definition own_inv :: "'p owned \<Rightarrow> bool" where
  "own_inv y \<longleftrightarrow> mwf (cs_backends (ow_s y)) \<and> handed_out (ow_s y) = put_back (ow_s y) + held y"

lemmas own_defs = own_inv_def held_def table_def

lemma retire_backends [simp]: "cs_backends (retire ops u b s) = cs_backends s"
  by (simp add: retire_def Let_def pool_put_def close_transport_def syncLastUsed_def set_conn_def)

lemma set_conn_backends [simp]: "cs_backends (set_conn c f s) = cs_backends s"
  by (simp add: set_conn_def)

lemma pool_put_backends [simp]: "cs_backends (pool_put ops c s) = cs_backends s"
  by (simp add: pool_put_def)

lemma dial_backends [simp]: "cs_backends (snd (getBackend_dial ops now name s)) = cs_backends s"
  by (simp add: getBackend_dial_def Let_def split: prod.split sum.split)

text \<open>What the operations do to the counters.\<close>

lemma pool_put_counts [simp]:
  "handed_out (pool_put (counted ops) c s) = handed_out s" "put_back (pool_put (counted ops) c s) = put_back s + {# c #}"
  by (simp_all add: handed_out_def put_back_def pool_put_def counted_def case_prod_beta)

lemma same_pool_counts:
  "cs_pool s' = cs_pool s \<Longrightarrow> handed_out s' = handed_out s \<and> put_back s' = put_back s"
  by (simp add: handed_out_def put_back_def)

lemma set_conn_counts [simp]: "handed_out (set_conn c f s) = handed_out s" "put_back (set_conn c f s) = put_back s"
  using same_pool_counts [of "set_conn c f s" s] by (simp_all add: set_conn_def)

lemma retire_counts [simp]:
  "handed_out (retire (counted ops) u b s) = handed_out s" "put_back (retire (counted ops) u b s) = put_back s + {# bk_conn b #}"
proof -
  have c: "handed_out (close_transport c t) = handed_out t" "put_back (close_transport c t) = put_back t" for c t
    using same_pool_counts [of "close_transport c t" t] by (simp_all add: close_transport_def)
  show "handed_out (retire (counted ops) u b s) = handed_out s" "put_back (retire (counted ops) u b s) = put_back s + {# bk_conn b #}"
    by (simp_all add: retire_def Let_def syncLastUsed_def c)
qed

lemma dial_counts:
  assumes "getBackend_dial (counted ops) now name s = (r, s')"
  shows "handed_out s' = put_back s' + held' \<longleftrightarrow>
    handed_out s + (case r of Inl _ \<Rightarrow> {#} | Inr b \<Rightarrow> {# bk_conn b #}) = put_back s + held'"
proof -
  obtain g p where Pair: "po_Get (counted ops) name (cs_pool s) = (g, p)" by (cases "po_Get (counted ops) name (cs_pool s)")
  show ?thesis
  proof (cases g)
    case (Inl er)
    with assms Pair have "r = Inl er" "s' = s\<lparr>cs_pool := p\<rparr>" by (auto simp: getBackend_dial_def)
    moreover have "snd p = snd (cs_pool s)"
      using Pair Inl by (auto simp: counted_def case_prod_beta split: result_splits)
    ultimately show ?thesis by (simp add: handed_out_def put_back_def)
  next
    case (Inr x)
    obtain c cn where x: "x = (c, cn)" by (cases x)
    let ?s = "s\<lparr>cs_pool := p, cs_conns := (cs_conns s)(c := cn)\<rparr>"
    have p: "snd p = (handed_out s + {# c #}, put_back s)"
      using Pair Inr by (auto simp: counted_def x case_prod_beta handed_out_def put_back_def split: result_splits)
    then have n: "handed_out ?s = handed_out s + {# c #}" "put_back ?s = put_back s" by (simp_all add: handed_out_def put_back_def)
    show ?thesis
    proof (cases "cn_ours cn")
      case True
      with assms Pair Inr x have "r = Inr (touch now \<lparr>bk_server = name, bk_conn = c, bk_lastUsed = unix_epoch\<rparr>)" "s' = ?s"
        by (auto simp: getBackend_dial_def Let_def)
      then show ?thesis by (simp add: n touch_def)
    next
      case False
      with assms Pair Inr x have "r = Inl ''unexpected backend transport type''"
        "s' = pool_put (counted ops) c (set_conn c (\<lambda>cn. cn\<lparr>cn_Healthy := False\<rparr>) ?s)"
        by (auto simp: getBackend_dial_def Let_def)
      then show ?thesis by (simp add: n)
    qed
  qed
qed

lemma table_delete:
  assumes "mwf m" "mget m k = Some b"
  shows "mset (map (bk_conn \<circ> snd) m) = {# bk_conn b #} + mset (map (bk_conn \<circ> snd) (mdel k m))"
  using assms
proof (induction m)
  case (Cons x m)
  have "mdel k m = m" if "fst x = k"
    using Cons.prems(1) that by (auto simp: delete_notin_dom)
  with Cons show ?case by (cases x) (auto split: if_splits)
qed simp

lemma table_insert:
  "mget m k = None \<Longrightarrow> mset (map (bk_conn \<circ> snd) (mput k b m)) = mset (map (bk_conn \<circ> snd) m) + {# bk_conn b #}"
  by (induction m) (auto split: if_splits)

lemma touch_backends:
  "map fst (cs_backends (touch_backend now b s)) = map fst (cs_backends s)" "table (touch_backend now b s) = table s"
  by (auto simp: touch_backend_def table_def touch_def comp_def case_prod_beta if_distrib [of bk_conn] cong: if_cong)

lemma own_inv_step:
  assumes "own_inv y" "conn_step ops y y'"
  shows "own_inv y'"
  using assms(2)
proof cases
  case (lookup name b s)
  then have "mget (cs_backends (ow_s y)) name = Some b" "cs_backends s = mdel name (cs_backends (ow_s y))" "cs_pool s = cs_pool (ow_s y)"
    by (auto simp: getBackend_lookup_def split: result_splits)
  with assms(1) lookup(1) table_delete [of "cs_backends (ow_s y)" name b] same_pool_counts [of s "ow_s y"] show ?thesis
    by (simp add: own_defs)
next
  case (dial now name b s)
  from dial(2) have "cs_backends s = cs_backends (ow_s y)" by (metis dial_backends snd_conv)
  with assms(1) dial(1) dial_counts [OF dial(2), of "held y'"] show ?thesis by (simp add: own_defs)
next
  case (dial_fails now name er s)
  from dial_fails(2) have "cs_backends s = cs_backends (ow_s y)" by (metis dial_backends snd_conv)
  with assms(1) dial_fails(1) dial_counts [OF dial_fails(2), of "held y'"] show ?thesis by (simp add: own_defs)
next
  case (install xs b ys b' s)
  show ?thesis
  proof (cases "mget (cs_backends (ow_s y)) (bk_server b)")
    case None
    with install(3) have "cs_backends s = mput (bk_server b) b (cs_backends (ow_s y))" "cs_pool s = cs_pool (ow_s y)"
      by (auto simp: getBackend_install_def)
    with None assms(1) install(1,2) table_insert [of "cs_backends (ow_s y)" "bk_server b" b] same_pool_counts [of s "ow_s y"]
    show ?thesis by (simp add: own_defs)
  next
    case (Some prev)
    with install(3) have "s = pool_put (counted ops) (bk_conn b) (set_conn (bk_conn b) (\<lambda>cn. cn\<lparr>cn_Healthy := False\<rparr>) (ow_s y))"
      by (auto simp: getBackend_install_def)
    with assms(1) install(1,2) show ?thesis by (simp add: own_defs)
  qed
next
  case (drop name b s unhealthy)
  then have "mget (cs_backends (ow_s y)) name = Some b" "cs_backends s = mdel name (cs_backends (ow_s y))" "cs_pool s = cs_pool (ow_s y)"
    by (auto simp: dropBackend_take_def)
  with assms(1) drop(1) table_delete [of "cs_backends (ow_s y)" name b] same_pool_counts [of s "ow_s y"] show ?thesis
    by (simp add: own_defs)
next
  case (retired xs unhealthy b ys)
  with assms(1) show ?thesis by (simp add: own_defs)
next
  case (touched now b)
  have "cs_pool (touch_backend now b (ow_s y)) = cs_pool (ow_s y)" by (simp add: touch_backend_def)
  with assms(1) touched show ?thesis using touch_backends [of now b "ow_s y"] same_pool_counts [of "touch_backend now b (ow_s y)" "ow_s y"]
    by (simp add: own_inv_def held_def)
next
  case (marked c f)
  with assms(1) show ?thesis by (simp add: own_defs)
qed

text \<open>C8. Connections are neither leaked nor returned twice: in every interleaving of the goroutines of a session,
  the connections the pool handed out are exactly those put back, those of the table of backends, those of
  backends on their way out and those of backends on their way in; the table has one backend per server.\<close>

theorem connections_owned_once:
  assumes "conn_reach ops y"
  shows "handed_out (ow_s y) = put_back (ow_s y) + table (ow_s y) + mset (map (bk_conn \<circ> snd) (ow_retiring y)) + mset (map bk_conn (ow_dialed y)) \<and>
    distinct (map fst (cs_backends (ow_s y)))"
proof -
  from assms have "own_inv y"
  proof (induction rule: conn_reach.induct)
    case (start s)
    then show ?case by (simp add: own_defs)
  next
    case (step y y')
    then show ?case by (blast intro: own_inv_step)
  qed
  then show ?thesis by (simp add: own_inv_def held_def add.assoc)
qed

text \<open>A pool that opens a new connection for every request.\<close>

definition demo_pool :: "nat pool_ops" where
  "demo_pool = \<lparr>po_Get = (\<lambda>server n. (Ok (n, \<lparr>cn_Healthy = True, cn_LastUsed = 0, cn_ours = True\<rparr>), n + 1)),
     po_Put = (\<lambda>c cn n. n), po_Close = (\<lambda>n. n)\<rparr>"

definition demo_conns :: "nat conns" where
  "demo_conns = \<lparr>cs_backends = [], cs_conns = (\<lambda>_. \<lparr>cn_Healthy = False, cn_LastUsed = 0, cn_ours = False\<rparr>), cs_pool = 0,
     cs_closed = [], cs_pumps = []\<rparr>"

text \<open>Two goroutines dial the same server: the second to install its backend gives its connection back.\<close>

definition race_start :: "(nat \<times> nat multiset \<times> nat multiset) conns" where
  "race_start = \<lparr>cs_backends = [], cs_conns = cs_conns demo_conns, cs_pool = (0, {#}, {#}), cs_closed = [], cs_pumps = []\<rparr>"

definition race_backend :: "nat \<Rightarrow> backend" where
  "race_backend c = touch 5 \<lparr>bk_server = ''fs'', bk_conn = c, bk_lastUsed = unix_epoch\<rparr>"

theorem connections_owned_once_witness:
  "\<exists>y. conn_reach demo_pool y \<and> handed_out (ow_s y) = {# 0, 1 #} \<and> table (ow_s y) = {# 0 #} \<and> put_back (ow_s y) = {# 1 #}"
proof -
  let ?y0 = "\<lparr>ow_s = race_start, ow_retiring = [], ow_dialed = []\<rparr>"
  have r0: "conn_reach demo_pool ?y0"
    by (rule conn_reach.start) (simp_all add: race_start_def handed_out_def put_back_def)
  obtain s1 where d1: "getBackend_dial (counted demo_pool) 5 ''fs'' race_start = (Ok (race_backend 0), s1)"
    and s1: "cs_pool s1 = (1, {# 0 #}, {#})" "cs_backends s1 = []"
    by (simp add: getBackend_dial_def counted_def demo_pool_def race_start_def race_backend_def)
  obtain s2 where d2: "getBackend_dial (counted demo_pool) 5 ''fs'' s1 = (Ok (race_backend 1), s2)"
    and s2: "cs_pool s2 = (2, {# 0, 1 #}, {#})" "cs_backends s2 = []"
    by (simp add: getBackend_dial_def counted_def demo_pool_def race_backend_def s1)
  obtain s3 where i1: "getBackend_install (counted demo_pool) (race_backend 0) s2 = (race_backend 0, s3)"
    and s3: "cs_pool s3 = (2, {# 0, 1 #}, {#})" "cs_backends s3 = [(''fs'', race_backend 0)]"
    by (simp add: getBackend_install_def race_backend_def touch_def s2)
  obtain s4 where i2: "getBackend_install (counted demo_pool) (race_backend 1) s3 = (race_backend 0, s4)"
    and s4: "handed_out s4 = {# 0, 1 #}" "cs_backends s4 = [(''fs'', race_backend 0)]"
    by (simp add: getBackend_install_def s3 race_backend_def touch_def handed_out_def counted_def pool_put_def set_conn_def)
  have "conn_reach demo_pool \<lparr>ow_s = s1, ow_retiring = [], ow_dialed = [race_backend 0]\<rparr>"
    using conn_reach.step [OF r0] conn_step.dial [of demo_pool 5 "''fs''" ?y0] d1 by simp
  then have "conn_reach demo_pool \<lparr>ow_s = s2, ow_retiring = [], ow_dialed = [race_backend 0, race_backend 1]\<rparr>"
    by (rule conn_reach.step) (use conn_step.dial [of demo_pool 5 "''fs''" "\<lparr>ow_s = s1, ow_retiring = [], ow_dialed = [race_backend 0]\<rparr>"] d2 in simp)
  then have "conn_reach demo_pool \<lparr>ow_s = s3, ow_retiring = [], ow_dialed = [race_backend 1]\<rparr>"
    by (rule conn_reach.step) (use conn_step.install [of "\<lparr>ow_s = s2, ow_retiring = [], ow_dialed = [race_backend 0, race_backend 1]\<rparr>"
        "[]" "race_backend 0" "[race_backend 1]" demo_pool] i1 in simp)
  then have "conn_reach demo_pool \<lparr>ow_s = s4, ow_retiring = [], ow_dialed = []\<rparr>"
    by (rule conn_reach.step) (use conn_step.install [of "\<lparr>ow_s = s3, ow_retiring = [], ow_dialed = [race_backend 1]\<rparr>"
        "[]" "race_backend 1" "[]" demo_pool] i2 in simp)
  from connections_owned_once [OF this] this s4 show ?thesis
    by (intro exI [of _ "\<lparr>ow_s = s4, ow_retiring = [], ow_dialed = []\<rparr>"]) (simp add: table_def race_backend_def touch_def)
qed

text \<open>The goroutine that reads from a backend drops by name when reading fails: a newer, healthy backend of the
  same server is taken out of the table, marked unhealthy and closed.\<close>

definition pump_read_error :: "'p pool_ops \<Rightarrow> backend \<Rightarrow> 'p conns \<Rightarrow> 'p conns" where
  "pump_read_error ops b s = dropBackend ops (bk_server b) True s"

lemma pump_drops_newer_backend:
  assumes "mget (cs_backends s) (bk_server b) = Some b2" "bk_conn b2 \<noteq> bk_conn b"
  shows "mget (cs_backends (pump_read_error ops b s)) (bk_server b) = None \<and>
    bk_conn b2 \<in> set (cs_closed (pump_read_error ops b s)) \<and> \<not> cn_Healthy (cs_conns (pump_read_error ops b s) (bk_conn b2))"
  using assms
  by (simp add: pump_read_error_def dropBackend_def dropBackend_take_def retire_def pool_put_def close_transport_def
      syncLastUsed_def set_conn_def Let_def)

lemma getBackend_found:
  assumes "mget (cs_backends s) n = Some b" "cn_Healthy (cs_conns s (bk_conn b))"
  shows "getBackend ops now n s = (Ok b, s)"
  using assms by (simp add: getBackend_def getBackend_lookup_def)

text \<open>A session reuses its backend: after \<open>getBackend\<close> has returned a backend, and as long as the pool hands out
  healthy connections, the next call for the same server returns the same backend and asks the pool for
  nothing.\<close>

theorem getBackend_reuses:
  assumes "getBackend ops now n s = (Ok b, s')" "\<forall>p c cn p'. po_Get ops n p = (Ok (c, cn), p') \<longrightarrow> cn_Healthy cn"
  shows "getBackend ops now' n s' = (Ok b, s')"
proof (cases "getBackend_lookup n s")
  case (Pair r s1)
  show ?thesis
  proof (cases r)
    case (Inl b1)
    with Pair have "mget (cs_backends s) n = Some b1" "cn_Healthy (cs_conns s (bk_conn b1))"
      by (auto simp: getBackend_lookup_def split: result_splits)
    with getBackend_found [of s n b1] assms(1) show ?thesis by simp
  next
    case (Inr d)
    let ?s2 = "case d of Some b \<Rightarrow> retire ops True b s1 | None \<Rightarrow> s1"
    from Pair Inr have none: "mget (cs_backends ?s2) n = None"
      by (auto simp: getBackend_lookup_def split: result_splits)
    obtain b3 s3 where d3: "getBackend_dial ops now n ?s2 = (Ok b3, s3)" "getBackend_install ops b3 s3 = (b, s')"
      using assms(1) Pair Inr by (auto simp: getBackend_def Let_def split: result_splits)
    have t: "cs_backends s3 = cs_backends ?s2" using d3(1) by (metis dial_backends snd_conv)
    from d3(1) have b3: "bk_server b3 = n" "cn_Healthy (cs_conns s3 (bk_conn b3))"
      using assms(2) by (auto simp: getBackend_dial_def touch_def Let_def split: prod.splits sum.splits if_splits) metis
    with d3(2) none t have "b = b3" "mget (cs_backends s') n = Some b" "cs_conns s' = cs_conns s3"
      by (auto simp: getBackend_install_def)
    with b3 getBackend_found [of s' n b] show ?thesis by simp
  qed
qed

theorem getBackend_reuses_witness:
  "\<exists>b s'. getBackend demo_pool 5 ''fs'' demo_conns = (Ok b, s') \<and> getBackend demo_pool 9 ''fs'' s' = (Ok b, s')"
proof -
  obtain b s' where g: "getBackend demo_pool 5 ''fs'' demo_conns = (Ok b, s')"
    by (simp add: getBackend_def getBackend_lookup_def getBackend_dial_def getBackend_install_def demo_conns_def demo_pool_def touch_def)
  from getBackend_reuses [OF g, of 9] g show ?thesis by (auto simp: demo_pool_def)
qed

end
