(* ===== verification/Registry.thy ===== *)
theory Registry
  imports Go_Strings
begin

text \<open>
  What the gateway reads of the server registry of \<open>fi-mcp-kit\<close>, a library outside this repository:
  the list of servers (an entry may be nil), their names, flags, URLs and descriptions, and the two lookups
  \<open>GetServer\<close> and \<open>GetServerSpec\<close>, which are functions of the record because the library computes them.
  \<open>sv_Description\<close> is absent when the server has no \<open>Common\<close> section; \<open>sp_Tools\<close> are the names of the
  tools a specification declares.
\<close>

record Server =
  sv_Name :: string
  sv_IsLocalOnly :: bool
  sv_URL :: string
  sv_Categories :: "string list"
  sv_Description :: "string option"

record ServerSpec =
  sp_AlwaysAllow :: "string list"
  sp_Tools :: "string list"

record Registry =
  rg_Servers :: "Server option list"
  rg_GetServer :: "string \<Rightarrow> Server option"
  rg_GetServerSpec :: "string \<Rightarrow> string \<Rightarrow> (string, ServerSpec option) result"

end
