(* ===== verification/Policy.thy ===== *)
theory Policy
  imports Registry
begin

text \<open>
  The package \<open>internal/policy\<close>: which methods and tools a request may use, decided by lists of
  patterns and by the always-allow lists of the server registry.

  Shown here: the complete decision table, that a deny pattern overrides everything else and that
  adding one never admits a request, that patterns with a star at one end match as globs, and that
  pattern lists survive the comma-separated form of the environment.
\<close>

section \<open>Requests, decisions and configuration\<close>

record Request =
  rq_Method :: string
  rq_ToolName :: string
  rq_ServerName :: string
  rq_Profile :: string

record Decision =
  d_Allow :: bool
  d_Reason :: string

definition AllowAll_Authorize :: "Request \<Rightarrow> Decision" where
  "AllowAll_Authorize req = \<lparr>d_Allow = True, d_Reason = []\<rparr>"

record Config =
  pc_DefaultAllow :: bool
  pc_AllowTools :: "string list"
  pc_DenyTools :: "string list"
  pc_AllowMethods :: "string list"
  pc_DenyMethods :: "string list"
  pc_Registry :: "Registry option"
  pc_RespectRegistryAlwaysAllow :: bool

record PatternPolicy =
  pp_defaultAllow :: bool
  pp_allowTools :: "string list"
  pp_denyTools :: "string list"
  pp_allowMethods :: "string list"
  pp_denyMethods :: "string list"
  pp_registry :: "Registry option"
  pp_respectRegistryAlwaysAllow :: bool

definition New :: "Config \<Rightarrow> PatternPolicy" where
  "New cfg =
     \<lparr>pp_defaultAllow = pc_DefaultAllow cfg, pp_allowTools = pc_AllowTools cfg, pp_denyTools = pc_DenyTools cfg,
      pp_allowMethods = pc_AllowMethods cfg, pp_denyMethods = pc_DenyMethods cfg, pp_registry = pc_Registry cfg,
      pp_respectRegistryAlwaysAllow = pc_RespectRegistryAlwaysAllow cfg\<rparr>"

definition envDefault :: "getenv \<Rightarrow> string \<Rightarrow> string \<Rightarrow> string" where
  "envDefault getenv key fallback = (let v = getenv key in if v \<noteq> [] then v else fallback)"

definition splitCSV :: "string \<Rightarrow> string list" where
  "splitCSV s = (if TrimSpace s = [] then [] else filter (\<lambda>p. p \<noteq> []) (map TrimSpace (Split s CHR '','')))"

definition LoadConfigFromEnv :: "getenv \<Rightarrow> Registry option \<Rightarrow> Config" where
  "LoadConfigFromEnv getenv reg =
     \<lparr>pc_DefaultAllow = (ToLower (envDefault getenv ''FI_MCP_POLICY_DEFAULT'' ''allow'') \<noteq> ''deny''),
      pc_AllowTools = splitCSV (getenv ''FI_MCP_POLICY_ALLOW_TOOLS''),
      pc_DenyTools = splitCSV (getenv ''FI_MCP_POLICY_DENY_TOOLS''),
      pc_AllowMethods = splitCSV (getenv ''FI_MCP_POLICY_ALLOW_METHODS''),
      pc_DenyMethods = splitCSV (getenv ''FI_MCP_POLICY_DENY_METHODS''),
      pc_Registry = reg,
      pc_RespectRegistryAlwaysAllow = EqualFold (envDefault getenv ''FI_MCP_POLICY_RESPECT_ALWAYS_ALLOW'' ''true'') ''true''\<rparr>"


section \<open>Patterns\<close>

definition matchPattern :: "string \<Rightarrow> string \<Rightarrow> bool" where
  "matchPattern value0 pattern0 =
     (let value = TrimSpace value0; pattern = TrimSpace pattern0
      in if value = [] \<or> pattern = [] then False
         else if pattern = ''*'' then True
         else if HasSuffix pattern ''*'' \<and> length pattern > 1 then HasPrefix value (TrimSuffix pattern ''*'')
         else if HasPrefix pattern ''*'' \<and> length pattern > 1 then HasSuffix value (TrimPrefix pattern ''*'')
         else value = pattern)"

fun matchAny :: "string \<Rightarrow> string list \<Rightarrow> bool" where
  "matchAny value [] = False"
| "matchAny value (p # ps) = (if matchPattern value p then True else matchAny value ps)"


section \<open>Authorization\<close>

definition IsToolAlwaysAllowed :: "Registry option \<Rightarrow> string \<Rightarrow> string \<Rightarrow> string \<Rightarrow> bool" where
  "IsToolAlwaysAllowed reg serverName profile toolName =
     (case reg of
        None \<Rightarrow> False
      | Some r \<Rightarrow>
          (case rg_GetServerSpec r serverName profile of
             Inl er \<Rightarrow> False
           | Inr None \<Rightarrow> False
           | Inr (Some spec) \<Rightarrow> toolName \<in> set (sp_AlwaysAllow spec)))"

fun always_allow_loop :: "Registry \<Rightarrow> string \<Rightarrow> string \<Rightarrow> Server option list \<Rightarrow> bool" where
  "always_allow_loop r profile toolName [] = False"
| "always_allow_loop r profile toolName (None # ss) = always_allow_loop r profile toolName ss"
| "always_allow_loop r profile toolName (Some srv # ss) =
     (if sv_IsLocalOnly srv then always_allow_loop r profile toolName ss
      else if IsToolAlwaysAllowed (Some r) (sv_Name srv) profile toolName then True
      else always_allow_loop r profile toolName ss)"

definition isRegistryAlwaysAllow :: "PatternPolicy \<Rightarrow> string \<Rightarrow> string \<Rightarrow> bool" where
  "isRegistryAlwaysAllow p profile toolName =
     (case pp_registry p of None \<Rightarrow> False | Some r \<Rightarrow> always_allow_loop r profile toolName (rg_Servers r))"

definition Authorize :: "PatternPolicy \<Rightarrow> Request \<Rightarrow> Decision" where
  "Authorize p req =
     (if rq_Method req = [] then \<lparr>d_Allow = False, d_Reason = ''missing method''\<rparr>
      else if matchAny (rq_Method req) (pp_denyMethods p) then \<lparr>d_Allow = False, d_Reason = ''method denied''\<rparr>
      else if length (pp_allowMethods p) > 0 \<and> \<not> matchAny (rq_Method req) (pp_allowMethods p)
      then \<lparr>d_Allow = False, d_Reason = ''method not allowed''\<rparr>
      else if rq_Method req = ''tools/call''
      then let tool = TrimSpace (rq_ToolName req)
           in if tool = [] then \<lparr>d_Allow = False, d_Reason = ''missing tool name''\<rparr>
              else if matchAny tool (pp_denyTools p) then \<lparr>d_Allow = False, d_Reason = ''tool denied''\<rparr>
              else if pp_respectRegistryAlwaysAllow p \<and> isRegistryAlwaysAllow p (rq_Profile req) tool
              then \<lparr>d_Allow = True, d_Reason = ''registry always_allow''\<rparr>
              else if length (pp_allowTools p) > 0
              then if matchAny tool (pp_allowTools p) then \<lparr>d_Allow = True, d_Reason = ''tool allowed''\<rparr>
                   else \<lparr>d_Allow = False, d_Reason = ''tool not allowed''\<rparr>
              else if pp_defaultAllow p then \<lparr>d_Allow = True, d_Reason = []\<rparr>
              else \<lparr>d_Allow = False, d_Reason = ''default deny''\<rparr>
      else \<lparr>d_Allow = True, d_Reason = []\<rparr>)"


section \<open>Patterns as globs\<close>

text \<open>The reference: a star stands for any string, every other character for itself.\<close>

fun glob :: "string \<Rightarrow> string \<Rightarrow> bool" where
  "glob [] v = (v = [])"
| "glob (c # p) [] = (c = CHR ''*'' \<and> glob p [])"
| "glob (c # p) (d # v) = (if c = CHR ''*'' then glob p (d # v) \<or> glob (c # p) v else d = c \<and> glob p v)"

lemma glob_plain: "CHR ''*'' \<notin> set p \<Longrightarrow> glob p v = (v = p)"
  by (induction p v rule: glob.induct) auto

lemma glob_star_any: "glob ''*'' v"
  by (induction v) auto

lemma glob_prefix: "CHR ''*'' \<notin> set p \<Longrightarrow> glob (p @ ''*'') v = prefix p v"
proof (induction p arbitrary: v)
  case Nil
  show ?case using glob_star_any by simp
next
  case (Cons c p)
  then show ?case by (cases v) auto
qed

lemma glob_suffix: "CHR ''*'' \<notin> set p \<Longrightarrow> glob (CHR ''*'' # p) v = suffix p v"
proof (induction v)
  case Nil
  then show ?case by (auto simp: glob_plain)
next
  case (Cons c v)
  then show ?case by (auto simp: glob_plain suffix_Cons)
qed

text \<open>C27. A pattern with no star, one star at its end or one star at its start matches a value that is
  not blank exactly when it does as a glob on the trimmed value.\<close>

theorem matchPattern_glob:
  assumes "CHR ''*'' \<notin> set p" "q = p \<or> q = p @ ''*'' \<or> q = CHR ''*'' # p" "q \<noteq> []" "trimmed q"
    "TrimSpace v \<noteq> []"
  shows "matchPattern v q = glob q (TrimSpace v)"
proof -
  have q: "TrimSpace q = q" using assms(4) by (rule TrimSpace_id)
  from assms(2) consider "q = ''*''" | "q = p" "p \<noteq> []" | "q = p @ ''*''" "p \<noteq> []" | "q = CHR ''*'' # p" "p \<noteq> []"
    using assms(3) by (cases "p = []") auto
  then show ?thesis
  proof cases
    case 1
    then show ?thesis using q assms(5) glob_star_any by (simp add: matchPattern_def Let_def)
  next
    case 2
    then have "\<not> suffix ''*'' p" "\<not> prefix ''*'' p" "p \<noteq> ''*''"
      using assms(1) by (auto simp: suffix_def prefix_def)
    with 2 q assms(1,5) show ?thesis by (simp add: matchPattern_def Let_def glob_plain)
  next
    case 3
    then have "p @ ''*'' \<noteq> ''*''" "length (p @ ''*'') > 1" "suffix ''*'' (p @ ''*'')"
      by (auto simp: suffix_def)
    with 3 q assms(1,3,5) show ?thesis by (simp add: matchPattern_def Let_def glob_prefix del: glob.simps)
  next
    case 4
    then have "\<not> suffix ''*'' (CHR ''*'' # p)" "prefix ''*'' (CHR ''*'' # p)"
      using assms(1) by (auto simp: suffix_def) (metis last_ConsR last_in_set last_snoc)
    with 4 q assms(1,5) show ?thesis
      by (simp add: matchPattern_def Let_def glob_suffix TrimPrefix_def del: glob.simps)
  qed
qed

theorem matchPattern_glob_witness:
  "matchPattern '' git_status '' ''git_*'' \<and> glob ''git_*'' ''git_status'' \<and> \<not> matchPattern ''fs_read'' ''git_*''"
proof -
  have t: "trimmed ''git_*''" "TrimSpace '' git_status '' = ''git_status''" "TrimSpace ''fs_read'' = ''fs_read''" by code_simp+
  note m = matchPattern_glob [of "''git_''" "''git_*''"]
  have "glob ''git_*'' ''git_status''" "\<not> glob ''git_*'' ''fs_read''" by simp_all
  with m [of "'' git_status ''"] m [of "''fs_read''"] t show ?thesis by (simp del: glob.simps)
qed

section \<open>Decisions\<close>

lemma matchAny_iff: "matchAny v ps \<longleftrightarrow> (\<exists>p\<in>set ps. matchPattern v p)"
  by (induction ps) auto

lemma matchAny_mono: "set ps \<subseteq> set qs \<Longrightarrow> matchAny v ps \<Longrightarrow> matchAny v qs"
  by (auto simp: matchAny_iff)

lemma always_allow_loop_iff:
  "always_allow_loop r profile tool ss \<longleftrightarrow>
     (\<exists>srv. Some srv \<in> set ss \<and> \<not> sv_IsLocalOnly srv \<and> IsToolAlwaysAllowed (Some r) (sv_Name srv) profile tool)"
  by (induction r profile tool ss rule: always_allow_loop.induct) auto

text \<open>The abstract policy: whether a request passes, as one formula over the four pattern lists, the
  registry and the default.\<close>

definition permits :: "PatternPolicy \<Rightarrow> Request \<Rightarrow> bool" where
  "permits p req \<longleftrightarrow>
     rq_Method req \<noteq> [] \<and>
     (\<forall>q\<in>set (pp_denyMethods p). \<not> matchPattern (rq_Method req) q) \<and>
     (pp_allowMethods p = [] \<or> (\<exists>q\<in>set (pp_allowMethods p). matchPattern (rq_Method req) q)) \<and>
     (if rq_Method req = ''tools/call''
      then TrimSpace (rq_ToolName req) \<noteq> [] \<and>
           (\<forall>q\<in>set (pp_denyTools p). \<not> matchPattern (rq_ToolName req) q) \<and>
           ((pp_respectRegistryAlwaysAllow p \<and>
              (\<exists>r srv. pp_registry p = Some r \<and> Some srv \<in> set (rg_Servers r) \<and> \<not> sv_IsLocalOnly srv \<and>
                 IsToolAlwaysAllowed (Some r) (sv_Name srv) (rq_Profile req) (TrimSpace (rq_ToolName req)))) \<or>
            (if pp_allowTools p = [] then pp_defaultAllow p
             else \<exists>q\<in>set (pp_allowTools p). matchPattern (rq_ToolName req) q))
      else True)"

lemma matchPattern_TrimSpace [simp]: "matchPattern (TrimSpace v) q = matchPattern v q"
  by (simp add: matchPattern_def)

lemma isRegistryAlwaysAllow_iff:
  "isRegistryAlwaysAllow p profile tool \<longleftrightarrow>
     (\<exists>r srv. pp_registry p = Some r \<and> Some srv \<in> set (rg_Servers r) \<and> \<not> sv_IsLocalOnly srv \<and>
        IsToolAlwaysAllowed (Some r) (sv_Name srv) profile tool)"
  by (auto simp: isRegistryAlwaysAllow_def always_allow_loop_iff split: option.split)

text \<open>C26. The policy decides as its abstract specification: a method is required, no deny pattern may
  match it, an allow list must; a tool call needs a tool that no deny pattern matches and that the
  registry always allows, or the allow list names, or, without an allow list, the default admits.\<close>

theorem Authorize_permits: "d_Allow (Authorize p req) \<longleftrightarrow> permits p req"
proof -
  have "matchAny (TrimSpace t) ps \<longleftrightarrow> (\<exists>q\<in>set ps. matchPattern t q)" for t ps by (simp add: matchAny_iff)
  moreover have "length xs > 0 \<longleftrightarrow> xs \<noteq> []" for xs :: "string list" by simp
  ultimately show ?thesis
    by (simp only: Authorize_def permits_def isRegistryAlwaysAllow_iff matchAny_iff Let_def)
      (auto split: if_splits)
qed

text \<open>Deny patterns only ever take away: a policy with more deny patterns and otherwise the same admits
  no request the smaller policy rejects.\<close>

theorem deny_antimono:
  assumes "set (pp_denyMethods p) \<subseteq> set dm" "set (pp_denyTools p) \<subseteq> set dt"
    "d_Allow (Authorize (p\<lparr>pp_denyMethods := dm, pp_denyTools := dt\<rparr>) req)"
  shows "d_Allow (Authorize p req)"
proof -
  have "isRegistryAlwaysAllow (p\<lparr>pp_denyMethods := dm, pp_denyTools := dt\<rparr>) = isRegistryAlwaysAllow p"
    by (rule ext)+ (simp add: isRegistryAlwaysAllow_def)
  then show ?thesis
    using assms(3) matchAny_mono [OF assms(1), of "rq_Method req"] matchAny_mono [OF assms(2), of "TrimSpace (rq_ToolName req)"]
    by (auto simp: Authorize_def Let_def split: if_splits)
qed

definition open_policy :: PatternPolicy where
  "open_policy = \<lparr>pp_defaultAllow = True, pp_allowTools = [], pp_denyTools = [''rm_*''], pp_allowMethods = [],
     pp_denyMethods = [], pp_registry = None, pp_respectRegistryAlwaysAllow = True\<rparr>"

definition call_request :: "string \<Rightarrow> Request" where
  "call_request tool = \<lparr>rq_Method = ''tools/call'', rq_ToolName = tool, rq_ServerName = [], rq_Profile = []\<rparr>"

theorem deny_antimono_witness: "d_Allow (Authorize open_policy (call_request ''git_log''))"
proof -
  have "d_Allow (Authorize (open_policy\<lparr>pp_denyMethods := [''admin/*''], pp_denyTools := [''rm_*'', ''*_drop'']\<rparr>) (call_request ''git_log''))"
    by code_simp
  then show ?thesis by (rule deny_antimono [rotated 2]) (simp_all add: open_policy_def)
qed

text \<open>A list of patterns written into the environment is read back as it was: joining trimmed,
  non-empty patterns without commas and splitting the result gives the list.\<close>

theorem splitCSV_Join:
  assumes "\<forall>p\<in>set ps. p \<noteq> [] \<and> trimmed p \<and> CHR '','' \<notin> set p"
  shows "splitCSV (Join ps '','') = ps"
proof (cases "ps = []")
  case True
  then show ?thesis by (simp add: splitCSV_def)
next
  case False
  have sp: "Split (Join ps '','') CHR '','' = ps" using False assms by (intro Split_Join) auto
  have id: "map TrimSpace ps = ps" using assms by (intro map_idI TrimSpace_id) auto
  have ne: "filter (\<lambda>p. p \<noteq> []) ps = ps" using assms by (intro filter_True) auto
  have "TrimSpace (Join ps '','') \<noteq> []" using False assms by (rule TrimSpace_Join_comma)
  then show ?thesis by (simp add: splitCSV_def sp id ne)
qed

theorem splitCSV_Join_witness: "splitCSV (Join [''git_*'', ''*_read'', ''fs_list''] '','') = [''git_*'', ''*_read'', ''fs_list'']"
proof -
  have "trimmed ''git_*''" "trimmed ''*_read''" "trimmed ''fs_list''" by code_simp+
  then show ?thesis by (intro splitCSV_Join) simp
qed

end
