(* ===== verification/Apikeys.thy ===== *)
theory Apikeys
  imports Go_Values
begin

text \<open>
  The package \<open>internal/apikeys\<close>: API keys (\<open>apikeys.go\<close>), their manager (\<open>manager.go\<close>) and the
  in-memory store (\<open>memory.go\<close>). SHA-256 is the argument \<open>sha256\<close>, from the bytes of a key to its digest;
  random bytes, UUIDs and clock readings are inputs of the operations that draw them.

  The manager works on any store: a store is a record of operations, as a Go interface value is, and
  the locale \<open>key_store\<close> states what the manager relies on. It is interpreted on the in-memory store.

  Shown here: a created key validates until it expires, only the holder of a stored, unexpired key
  that is not revoked passes validation, a revoked key never validates again in any sequential run,
  the limit of keys per user holds, and what rotation keeps.
\<close>

section \<open>Keys and configuration\<close>

record APIKey =
  ak_ID :: string
  ak_TenantID :: string
  ak_UserID :: string
  ak_Name :: string
  ak_KeyHash :: string
  ak_KeyPrefix :: string
  ak_Scopes :: "string list"
  ak_ExpiresAt :: "time option"
  ak_CreatedAt :: time
  ak_LastUsedAt :: "time option"
  ak_RevokedAt :: "time option"

definition IsExpired :: "time \<Rightarrow> APIKey \<Rightarrow> bool" where
  "IsExpired now k = (case ak_ExpiresAt k of None \<Rightarrow> False | Some e \<Rightarrow> now > e)"

definition IsRevoked :: "APIKey \<Rightarrow> bool" where "IsRevoked k = (ak_RevokedAt k \<noteq> None)"

definition IsValid :: "time \<Rightarrow> APIKey \<Rightarrow> bool" where
  "IsValid now k =
     (if ak_RevokedAt k \<noteq> None then False
      else (case ak_ExpiresAt k of None \<Rightarrow> True | Some e \<Rightarrow> \<not> now > e))"

definition HasScope :: "APIKey \<Rightarrow> string \<Rightarrow> bool" where
  "HasScope k scope = (if length (ak_Scopes k) = 0 then True else list_ex (\<lambda>s. s = scope \<or> s = ''*'') (ak_Scopes k))"

record CreateKeyRequest =
  cr_TenantID :: string
  cr_UserID :: string
  cr_Name :: string
  cr_Scopes :: "string list"
  cr_ExpiresIn :: duration

record CreateKeyResult =
  kr_Key :: APIKey
  kr_PlaintextKey :: string

record Config =
  kc_Enabled :: bool
  kc_Prefix :: string
  kc_Store :: string
  kc_PostgresURL :: string
  kc_DefaultExpiry :: duration
  kc_MaxKeysPerUser :: int

definition envDefault :: "getenv \<Rightarrow> string \<Rightarrow> string \<Rightarrow> string" where
  "envDefault getenv key fallback = (let v = getenv key in if v \<noteq> [] then v else fallback)"

definition envBoolDefault :: "getenv \<Rightarrow> string \<Rightarrow> bool \<Rightarrow> bool" where
  "envBoolDefault getenv key fallback =
     (let v = TrimSpace (ToLower (getenv key))
      in if v = [] then fallback else v = ''true'' \<or> v = ''1'' \<or> v = ''yes'')"

text \<open>The variable \<open>n\<close> is declared and never assigned: reading one byte of the value into a fresh slice
  succeeds for every value that is not empty.\<close>

definition envIntDefault :: "getenv \<Rightarrow> string \<Rightarrow> int \<Rightarrow> int" where
  "envIntDefault getenv key fallback =
     (let v = TrimSpace (getenv key); n = 0
      in if v = [] then fallback
         else (case v of [] \<Rightarrow> fallback | c # r \<Rightarrow> n))"

definition envDurationDefault :: "getenv \<Rightarrow> string \<Rightarrow> duration \<Rightarrow> duration" where
  "envDurationDefault getenv key fallback =
     (let v = TrimSpace (getenv key)
      in if v = [] then fallback
         else (case ParseDuration v of None \<Rightarrow> fallback | Some d \<Rightarrow> if d < 0 then fallback else d))"

definition LoadConfigFromEnv :: "getenv \<Rightarrow> Config" where
  "LoadConfigFromEnv getenv =
     \<lparr>kc_Enabled = envBoolDefault getenv ''FI_MCP_APIKEY_ENABLED'' False,
      kc_Prefix = envDefault getenv ''FI_MCP_APIKEY_PREFIX'' ''fmg_'',
      kc_Store = envDefault getenv ''FI_MCP_APIKEY_STORE'' ''memory'',
      kc_PostgresURL = getenv ''FI_MCP_APIKEY_POSTGRES_URL'',
      kc_DefaultExpiry = envDurationDefault getenv ''FI_MCP_APIKEY_DEFAULT_EXPIRY'' 0,
      kc_MaxKeysPerUser = envIntDefault getenv ''FI_MCP_APIKEY_MAX_PER_USER'' 10\<rparr>"

text \<open>The package's errors. \<open>ErrGenerate\<close> and \<open>ErrCreateNew\<close> wrap another error, \<open>ErrStore\<close> is an error of the
  store, \<open>ErrDisabled\<close> the message of a disabled manager, and \<open>NilStore\<close> the panic of an enabled manager
  without a store, which \<open>New\<close> never builds.\<close>

datatype key_error =
    ErrKeyNotFound | ErrKeyRevoked | ErrKeyExpired | ErrInvalidKey | ErrTooManyKeys | ErrInvalidRequest
  | ErrDisabled | ErrGenerate string | ErrCreateNew key_error | ErrStore string | NilStore


section \<open>Generating and hashing keys\<close>

definition HashKey :: "(string \<Rightarrow> string) \<Rightarrow> string \<Rightarrow> string" where
  "HashKey sha256 plaintextKey = EncodeToString (sha256 plaintextKey)"

text \<open>\<open>random\<close> is what \<open>rand.Read\<close> puts into the 32 bytes, or its error.\<close>

definition GenerateKey :: "(string \<Rightarrow> string) \<Rightarrow> (string, string) result \<Rightarrow> string \<Rightarrow> (string, string \<times> string) result" where
  "GenerateKey sha256 random prefix_str =
     (case random of
        Inl er \<Rightarrow> Err er
      | Inr bytes \<Rightarrow>
          let plaintext = prefix_str @ EncodeToString bytes;
              hash = EncodeToString (sha256 plaintext)
          in Ok (plaintext, hash))"

definition ExtractPrefix :: "string \<Rightarrow> nat \<Rightarrow> string" where
  "ExtractPrefix plaintextKey prefixLen =
     (if length plaintextKey \<le> prefixLen then plaintextKey else take prefixLen plaintextKey)"


section \<open>The store interface and the manager\<close>

record 's Store =
  st_Create :: "APIKey \<Rightarrow> 's \<Rightarrow> (key_error, unit) result \<times> 's"
  st_Get :: "string \<Rightarrow> 's \<Rightarrow> (key_error, APIKey) result"
  st_GetByHash :: "string \<Rightarrow> 's \<Rightarrow> (key_error, APIKey) result"
  st_List :: "string \<Rightarrow> string \<Rightarrow> 's \<Rightarrow> (key_error, APIKey list) result"
  st_Update :: "APIKey \<Rightarrow> 's \<Rightarrow> (key_error, unit) result \<times> 's"
  st_Delete :: "string \<Rightarrow> 's \<Rightarrow> (key_error, unit) result \<times> 's"
  st_CountByUser :: "time \<Rightarrow> string \<Rightarrow> string \<Rightarrow> 's \<Rightarrow> (key_error, int) result"

record 's DefaultManager =
  dm_store :: "'s option"
  dm_cfg :: Config
  dm_enabled :: bool

definition New :: "(Config \<Rightarrow> (string, 's) result) \<Rightarrow> 's \<Rightarrow> Config \<Rightarrow> (string, 's DefaultManager) result" where
  "New newPostgres newMemory cfg =
     (if \<not> kc_Enabled cfg then Ok \<lparr>dm_store = None, dm_cfg = cfg, dm_enabled = False\<rparr>
      else if kc_Store cfg = ''memory'' \<or> kc_Store cfg = []
      then Ok \<lparr>dm_store = Some newMemory, dm_cfg = cfg, dm_enabled = True\<rparr>
      else if kc_Store cfg = ''postgres''
      then (case newPostgres cfg of
              Inl er \<Rightarrow> Err er
            | Inr st \<Rightarrow> Ok \<lparr>dm_store = Some st, dm_cfg = cfg, dm_enabled = True\<rparr>)
      else Err (''unknown api key store: '' @ kc_Store cfg))"

text \<open>What \<open>Create\<close> draws from outside: the clock when it counts the user's keys, the random bytes, the UUID
  and the clock when it stamps the key.\<close>

record create_inputs =
  ci_CountNow :: time
  ci_Random :: "(string, string) result"
  ci_UUID :: string
  ci_Now :: time

definition limit_reached :: "'s Store \<Rightarrow> Config \<Rightarrow> time \<Rightarrow> CreateKeyRequest \<Rightarrow> 's \<Rightarrow> key_error option" where
  "limit_reached ops cfg now req s =
     (if kc_MaxKeysPerUser cfg > 0 \<and> cr_UserID req \<noteq> []
      then (case st_CountByUser ops now (cr_TenantID req) (cr_UserID req) s of
              Inl er \<Rightarrow> Some er
            | Inr cnt \<Rightarrow> if cnt \<ge> kc_MaxKeysPerUser cfg then Some ErrTooManyKeys else None)
      else None)"

definition new_key :: "Config \<Rightarrow> create_inputs \<Rightarrow> CreateKeyRequest \<Rightarrow> string \<Rightarrow> string \<Rightarrow> APIKey" where
  "new_key cfg inp req plaintext hash =
     (let now = ci_Now inp
      in \<lparr>ak_ID = ci_UUID inp, ak_TenantID = cr_TenantID req, ak_UserID = cr_UserID req, ak_Name = cr_Name req,
          ak_KeyHash = hash, ak_KeyPrefix = ExtractPrefix plaintext (length (kc_Prefix cfg) + 8),
          ak_Scopes = cr_Scopes req,
          ak_ExpiresAt = (if cr_ExpiresIn req > 0 then Some (time_Add now (cr_ExpiresIn req))
                          else if kc_DefaultExpiry cfg > 0 then Some (time_Add now (kc_DefaultExpiry cfg)) else None),
          ak_CreatedAt = now, ak_LastUsedAt = None, ak_RevokedAt = None\<rparr>)"

definition Create :: "(string \<Rightarrow> string) \<Rightarrow> 's Store \<Rightarrow> create_inputs \<Rightarrow> CreateKeyRequest \<Rightarrow> 's DefaultManager \<Rightarrow>
    (key_error, CreateKeyResult) result \<times> 's DefaultManager" where
  "Create sha256 ops inp req m =
     (if \<not> dm_enabled m then (Err ErrDisabled, m)
      else if cr_TenantID req = [] then (Err ErrInvalidRequest, m)
      else if cr_Name req = [] then (Err ErrInvalidRequest, m)
      else (case dm_store m of
              None \<Rightarrow> (Err NilStore, m)
            | Some s \<Rightarrow>
                (case limit_reached ops (dm_cfg m) (ci_CountNow inp) req s of
                   Some er \<Rightarrow> (Err er, m)
                 | None \<Rightarrow>
                     (case GenerateKey sha256 (ci_Random inp) (kc_Prefix (dm_cfg m)) of
                        Inl er \<Rightarrow> (Err (ErrGenerate er), m)
                      | Inr (plaintext, hash) \<Rightarrow>
                          let key = new_key (dm_cfg m) inp req plaintext hash
                          in (case st_Create ops key s of
                                (Inl er, s') \<Rightarrow> (Err er, m\<lparr>dm_store := Some s'\<rparr>)
                              | (Inr _, s') \<Rightarrow>
                                  (Ok \<lparr>kr_Key = key, kr_PlaintextKey = plaintext\<rparr>, m\<lparr>dm_store := Some s'\<rparr>))))))"

definition Get :: "'s Store \<Rightarrow> string \<Rightarrow> 's DefaultManager \<Rightarrow> (key_error, APIKey) result" where
  "Get ops kid m =
     (if \<not> dm_enabled m then Err ErrKeyNotFound
      else (case dm_store m of None \<Rightarrow> Err NilStore | Some s \<Rightarrow> st_Get ops kid s))"

definition List :: "'s Store \<Rightarrow> string \<Rightarrow> string \<Rightarrow> 's DefaultManager \<Rightarrow> (key_error, APIKey list) result" where
  "List ops tenantID userID m =
     (if \<not> dm_enabled m then Ok []
      else (case dm_store m of None \<Rightarrow> Err NilStore | Some s \<Rightarrow> st_List ops tenantID userID s))"

definition hasPrefix :: "string \<Rightarrow> string \<Rightarrow> bool" where
  "hasPrefix s prefix_str \<longleftrightarrow> length s \<ge> length prefix_str \<and> take (length prefix_str) s = prefix_str"

definition Validate :: "(string \<Rightarrow> string) \<Rightarrow> 's Store \<Rightarrow> time \<Rightarrow> string \<Rightarrow> 's DefaultManager \<Rightarrow> (key_error, APIKey) result" where
  "Validate sha256 ops now plaintextKey m =
     (if \<not> dm_enabled m then Err ErrKeyNotFound
      else if \<not> hasPrefix plaintextKey (kc_Prefix (dm_cfg m)) then Err ErrInvalidKey
      else (case dm_store m of
              None \<Rightarrow> Err NilStore
            | Some s \<Rightarrow>
                (case st_GetByHash ops (HashKey sha256 plaintextKey) s of
                   Inl er \<Rightarrow> Err er
                 | Inr key \<Rightarrow>
                     if IsRevoked key then Err ErrKeyRevoked
                     else if IsExpired now key then Err ErrKeyExpired
                     else Ok key)))"

text \<open>A read of a key, a change of it and a write, as \<open>Revoke\<close> and \<open>UpdateLastUsed\<close> do under two
  separate locks of the store.\<close>

definition Revoke :: "'s Store \<Rightarrow> time \<Rightarrow> string \<Rightarrow> 's DefaultManager \<Rightarrow> (key_error, unit) result \<times> 's DefaultManager" where
  "Revoke ops now kid m =
     (if \<not> dm_enabled m then (Err ErrDisabled, m)
      else (case dm_store m of
              None \<Rightarrow> (Err NilStore, m)
            | Some s \<Rightarrow>
                (case st_Get ops kid s of
                   Inl er \<Rightarrow> (Err er, m)
                 | Inr key \<Rightarrow>
                     (case st_Update ops (key\<lparr>ak_RevokedAt := Some now\<rparr>) s of
                        (r, s') \<Rightarrow> (r, m\<lparr>dm_store := Some s'\<rparr>)))))"

definition UpdateLastUsed :: "'s Store \<Rightarrow> time \<Rightarrow> string \<Rightarrow> 's DefaultManager \<Rightarrow> (key_error, unit) result \<times> 's DefaultManager" where
  "UpdateLastUsed ops now kid m =
     (if \<not> dm_enabled m then (Ok (), m)
      else (case dm_store m of
              None \<Rightarrow> (Err NilStore, m)
            | Some s \<Rightarrow>
                (case st_Get ops kid s of
                   Inl er \<Rightarrow> (Err er, m)
                 | Inr key \<Rightarrow>
                     (case st_Update ops (key\<lparr>ak_LastUsedAt := Some now\<rparr>) s of
                        (r, s') \<Rightarrow> (r, m\<lparr>dm_store := Some s'\<rparr>)))))"

text \<open>What \<open>Rotate\<close> draws from outside: the clock of \<open>time.Until\<close>, the inputs of \<open>Create\<close> and the clock of
  \<open>Revoke\<close>.\<close>

record rotate_inputs =
  ri_UntilNow :: time
  ri_Create :: create_inputs
  ri_RevokeNow :: time

definition remaining_expiry :: "time \<Rightarrow> APIKey \<Rightarrow> duration" where
  "remaining_expiry now oldKey =
     (case ak_ExpiresAt oldKey of
        None \<Rightarrow> 0
      | Some e \<Rightarrow> let remaining = time_Sub e now in if remaining > 0 then remaining else 0)"

definition Rotate :: "(string \<Rightarrow> string) \<Rightarrow> 's Store \<Rightarrow> rotate_inputs \<Rightarrow> string \<Rightarrow> 's DefaultManager \<Rightarrow>
    (key_error, CreateKeyResult) result \<times> 's DefaultManager" where
  "Rotate sha256 ops inp kid m =
     (if \<not> dm_enabled m then (Err ErrDisabled, m)
      else (case dm_store m of
              None \<Rightarrow> (Err NilStore, m)
            | Some s \<Rightarrow>
                (case st_Get ops kid s of
                   Inl er \<Rightarrow> (Err er, m)
                 | Inr oldKey \<Rightarrow>
                     (case Create sha256 ops (ri_Create inp)
                             \<lparr>cr_TenantID = ak_TenantID oldKey, cr_UserID = ak_UserID oldKey,
                              cr_Name = ak_Name oldKey @ '' (rotated)'', cr_Scopes = ak_Scopes oldKey,
                              cr_ExpiresIn = remaining_expiry (ri_UntilNow inp) oldKey\<rparr> m of
                        (Inl er, m') \<Rightarrow> (Err (ErrCreateNew er), m')
                      | (Inr result, m') \<Rightarrow> (Ok result, snd (Revoke ops (ri_RevokeNow inp) kid m'))))))"


lemma hasPrefix_iff: "hasPrefix s p \<longleftrightarrow> prefix p s"
  by (auto simp: hasPrefix_def prefix_def) (metis append_take_drop_id)


section \<open>Runs of the manager\<close>

text \<open>The operations that change the store, one after the other.\<close>

datatype manager_op =
    OpCreate create_inputs CreateKeyRequest
  | OpRevoke time string
  | OpRotate rotate_inputs string
  | OpUpdateLastUsed time string

fun run_op :: "(string \<Rightarrow> string) \<Rightarrow> 's Store \<Rightarrow> manager_op \<Rightarrow> 's DefaultManager \<Rightarrow> 's DefaultManager" where
  "run_op sha256 ops (OpCreate inp req) m = snd (Create sha256 ops inp req m)"
| "run_op sha256 ops (OpRevoke now kid) m = snd (Revoke ops now kid m)"
| "run_op sha256 ops (OpRotate inp kid) m = snd (Rotate sha256 ops inp kid m)"
| "run_op sha256 ops (OpUpdateLastUsed now kid) m = snd (UpdateLastUsed ops now kid m)"

fun op_inputs :: "manager_op \<Rightarrow> create_inputs option" where
  "op_inputs (OpCreate inp req) = Some inp"
| "op_inputs (OpRotate inp kid) = Some (ri_Create inp)"
| "op_inputs _ = None"

text \<open>The UUID and the random bytes an operation draws were not drawn before: neither the ID nor the hash
  is in the store yet.\<close>

definition fresh_inputs :: "(string \<Rightarrow> string) \<Rightarrow> ('s \<Rightarrow> string \<Rightarrow> APIKey option) \<Rightarrow> ('s \<Rightarrow> string \<Rightarrow> string option) \<Rightarrow>
    string \<Rightarrow> 's \<Rightarrow> create_inputs \<Rightarrow> bool" where
  "fresh_inputs sha256 key_at index_at prefix_str s inp \<longleftrightarrow>
     key_at s (ci_UUID inp) = None \<and>
     (case GenerateKey sha256 (ci_Random inp) prefix_str of
        Inl _ \<Rightarrow> True | Inr (plaintext, hash) \<Rightarrow> index_at s hash = None)"

fun fresh_run :: "(string \<Rightarrow> string) \<Rightarrow> 's Store \<Rightarrow> ('s \<Rightarrow> string \<Rightarrow> APIKey option) \<Rightarrow> ('s \<Rightarrow> string \<Rightarrow> string option) \<Rightarrow>
    manager_op list \<Rightarrow> 's DefaultManager \<Rightarrow> bool" where
  "fresh_run sha256 ops key_at index_at [] m \<longleftrightarrow> True"
| "fresh_run sha256 ops key_at index_at (op # opl) m \<longleftrightarrow>
     (case (op_inputs op, dm_store m) of
        (Some inp, Some s) \<Rightarrow> fresh_inputs sha256 key_at index_at (kc_Prefix (dm_cfg m)) s inp
      | _ \<Rightarrow> True) \<and>
     fresh_run sha256 ops key_at index_at opl (run_op sha256 ops op m)"

fun run_manager :: "(string \<Rightarrow> string) \<Rightarrow> 's Store \<Rightarrow> manager_op list \<Rightarrow> 's DefaultManager \<Rightarrow> 's DefaultManager" where
  "run_manager sha256 ops [] m = m"
| "run_manager sha256 ops (op # opl) m = run_manager sha256 ops opl (run_op sha256 ops op m)"

text \<open>The clock does not go back between the operations that count keys; \<open>clock_end\<close> is its last reading.\<close>

fun clock_run :: "time \<Rightarrow> manager_op list \<Rightarrow> bool" where
  "clock_run t [] \<longleftrightarrow> True"
| "clock_run t (op # opl) \<longleftrightarrow>
     (case op_inputs op of None \<Rightarrow> clock_run t opl | Some inp \<Rightarrow> t \<le> ci_CountNow inp \<and> clock_run (ci_CountNow inp) opl)"

fun clock_end :: "time \<Rightarrow> manager_op list \<Rightarrow> time" where
  "clock_end t [] = t"
| "clock_end t (op # opl) = clock_end (case op_inputs op of None \<Rightarrow> t | Some inp \<Rightarrow> ci_CountNow inp) opl"

lemma Create_Ok:
  assumes "Create sha256 ops inp req m = (Ok res, m')"
  shows "\<exists>s plaintext hash. dm_enabled m \<and> cr_TenantID req \<noteq> [] \<and> cr_Name req \<noteq> [] \<and> dm_store m = Some s \<and>
    limit_reached ops (dm_cfg m) (ci_CountNow inp) req s = None \<and>
    GenerateKey sha256 (ci_Random inp) (kc_Prefix (dm_cfg m)) = Ok (plaintext, hash) \<and>
    fst (st_Create ops (new_key (dm_cfg m) inp req plaintext hash) s) = Ok () \<and>
    res = \<lparr>kr_Key = new_key (dm_cfg m) inp req plaintext hash, kr_PlaintextKey = plaintext\<rparr> \<and>
    m' = m\<lparr>dm_store := Some (snd (st_Create ops (new_key (dm_cfg m) inp req plaintext hash) s))\<rparr>"
  using assms by (auto simp: Create_def Let_def split: result_splits)

lemma Create_store:
  "snd (Create sha256 ops inp req m) = m \<or>
   (\<exists>s plaintext hash. dm_store m = Some s \<and> GenerateKey sha256 (ci_Random inp) (kc_Prefix (dm_cfg m)) = Ok (plaintext, hash) \<and>
      limit_reached ops (dm_cfg m) (ci_CountNow inp) req s = None \<and>
      snd (Create sha256 ops inp req m) =
        m\<lparr>dm_store := Some (snd (st_Create ops (new_key (dm_cfg m) inp req plaintext hash) s))\<rparr>)"
  by (auto simp: Create_def Let_def split: option.split sum.split prod.split)

lemma Update_store:
  "snd (Revoke ops now kid m) = m \<or>
   (\<exists>s k. dm_store m = Some s \<and> st_Get ops kid s = Ok k \<and>
      snd (Revoke ops now kid m) = m\<lparr>dm_store := Some (snd (st_Update ops (k\<lparr>ak_RevokedAt := Some now\<rparr>) s))\<rparr>)"
  "snd (UpdateLastUsed ops now kid m) = m \<or>
   (\<exists>s k. dm_store m = Some s \<and> st_Get ops kid s = Ok k \<and>
      snd (UpdateLastUsed ops now kid m) = m\<lparr>dm_store := Some (snd (st_Update ops (k\<lparr>ak_LastUsedAt := Some now\<rparr>) s))\<rparr>)"
  by (auto simp: Revoke_def UpdateLastUsed_def split: option.split sum.split prod.split)

text \<open>A rotation either leaves the manager or is a \<open>Create\<close> with the old key's data followed by nothing
  (when it fails) or by a \<open>Revoke\<close>.\<close>

lemma Rotate_state:
  "snd (Rotate sha256 ops inp kid m) = m \<or>
   (\<exists>req. snd (Rotate sha256 ops inp kid m) = snd (Create sha256 ops (ri_Create inp) req m) \<or>
      snd (Rotate sha256 ops inp kid m) = snd (Revoke ops (ri_RevokeNow inp) kid (snd (Create sha256 ops (ri_Create inp) req m))))"
proof (cases "dm_enabled m")
  case False
  then show ?thesis by (simp add: Rotate_def)
next
  case True
  show ?thesis
  proof (cases "dm_store m")
    case None
    then show ?thesis by (simp add: Rotate_def)
  next
    case (Some s)
    show ?thesis
    proof (cases "st_Get ops kid s")
      case (Inl er)
      with Some show ?thesis by (simp add: Rotate_def)
    next
      case (Inr k)
      define req where "req = \<lparr>cr_TenantID = ak_TenantID k, cr_UserID = ak_UserID k, cr_Name = ak_Name k @ '' (rotated)'',
        cr_Scopes = ak_Scopes k, cr_ExpiresIn = remaining_expiry (ri_UntilNow inp) k\<rparr>"
      obtain r m' where c: "Create sha256 ops (ri_Create inp) req m = (r, m')" by force
      with True Some Inr have "snd (Rotate sha256 ops inp kid m) = (case r of Inl _ \<Rightarrow> m' | Inr _ \<Rightarrow> snd (Revoke ops (ri_RevokeNow inp) kid m'))"
        by (auto simp: Rotate_def req_def split: sum.split)
      with c show ?thesis by (cases r) (metis snd_conv sum.simps(5), metis snd_conv sum.simps(6))
    qed
  qed
qed


section \<open>The in-memory store\<close>

record MemoryStore =
  ms_keys :: "(string, APIKey) gomap"
  ms_hashIndex :: "(string, string) gomap"

definition NewMemoryStore :: MemoryStore where "NewMemoryStore = \<lparr>ms_keys = [], ms_hashIndex = []\<rparr>"

definition mem_Create :: "APIKey \<Rightarrow> MemoryStore \<Rightarrow> (key_error, unit) result \<times> MemoryStore" where
  "mem_Create key s =
     (Ok (), s\<lparr>ms_keys := mput (ak_ID key) key (ms_keys s), ms_hashIndex := mput (ak_KeyHash key) (ak_ID key) (ms_hashIndex s)\<rparr>)"

definition mem_Get :: "string \<Rightarrow> MemoryStore \<Rightarrow> (key_error, APIKey) result" where
  "mem_Get kid s = (case mget (ms_keys s) kid of None \<Rightarrow> Err ErrKeyNotFound | Some key \<Rightarrow> Ok key)"

definition mem_GetByHash :: "string \<Rightarrow> MemoryStore \<Rightarrow> (key_error, APIKey) result" where
  "mem_GetByHash keyHash s =
     (case mget (ms_hashIndex s) keyHash of
        None \<Rightarrow> Err ErrKeyNotFound
      | Some kid \<Rightarrow> (case mget (ms_keys s) kid of None \<Rightarrow> Err ErrKeyNotFound | Some key \<Rightarrow> Ok key))"

definition mem_List :: "string \<Rightarrow> string \<Rightarrow> MemoryStore \<Rightarrow> (key_error, APIKey list) result" where
  "mem_List tenantID userID s =
     Ok (filter (\<lambda>key. ak_TenantID key = tenantID \<and> \<not> (userID \<noteq> [] \<and> ak_UserID key \<noteq> userID)) (map snd (ms_keys s)))"

definition mem_Update :: "APIKey \<Rightarrow> MemoryStore \<Rightarrow> (key_error, unit) result \<times> MemoryStore" where
  "mem_Update key s =
     (case mget (ms_keys s) (ak_ID key) of
        None \<Rightarrow> (Err ErrKeyNotFound, s)
      | Some _ \<Rightarrow> (Ok (), s\<lparr>ms_keys := mput (ak_ID key) key (ms_keys s)\<rparr>))"

definition mem_Delete :: "string \<Rightarrow> MemoryStore \<Rightarrow> (key_error, unit) result \<times> MemoryStore" where
  "mem_Delete kid s =
     (case mget (ms_keys s) kid of
        None \<Rightarrow> (Err ErrKeyNotFound, s)
      | Some key \<Rightarrow> (Ok (), s\<lparr>ms_hashIndex := mdel (ak_KeyHash key) (ms_hashIndex s), ms_keys := mdel kid (ms_keys s)\<rparr>))"

definition mem_CountByUser :: "time \<Rightarrow> string \<Rightarrow> string \<Rightarrow> MemoryStore \<Rightarrow> (key_error, int) result" where
  "mem_CountByUser now tenantID userID s =
     Ok (int (mcount (\<lambda>key. ak_TenantID key = tenantID \<and> ak_UserID key = userID \<and> IsValid now key) (ms_keys s)))"

definition memory_ops :: "MemoryStore Store" where
  "memory_ops = \<lparr>st_Create = mem_Create, st_Get = mem_Get, st_GetByHash = mem_GetByHash, st_List = mem_List,
     st_Update = mem_Update, st_Delete = mem_Delete, st_CountByUser = mem_CountByUser\<rparr>"

declare memory_ops_def [store_ops]

lemmas mem_defs = mem_Create_def mem_Get_def mem_GetByHash_def mem_List_def mem_Update_def mem_Delete_def
  mem_CountByUser_def memory_ops_def


section \<open>What the manager relies on\<close>

text \<open>
  A store holds keys by their ID and finds them by their hash. The functions \<open>key_at\<close> and \<open>index_at\<close>
  read its two tables, \<open>wf\<close> is its own invariant. The laws: a lookup returns what is there, creating
  and updating a key change exactly its entries, and the count is the number of the user's valid keys.
\<close>

locale key_store =
  fixes ops :: "'s Store" and wf :: "'s \<Rightarrow> bool"
    and key_at :: "'s \<Rightarrow> string \<Rightarrow> APIKey option" and index_at :: "'s \<Rightarrow> string \<Rightarrow> string option"
  assumes get: "st_Get ops kid s = (case key_at s kid of None \<Rightarrow> Err ErrKeyNotFound | Some k \<Rightarrow> Ok k)"
    and get_by_hash: "st_GetByHash ops h s =
      (case Option.bind (index_at s h) (key_at s) of None \<Rightarrow> Err ErrKeyNotFound | Some k \<Rightarrow> Ok k)"
    and create_ok: "fst (st_Create ops k s) = Ok ()"
    and create_keys: "key_at (snd (st_Create ops k s)) = (key_at s)(ak_ID k \<mapsto> k)"
    and create_index: "index_at (snd (st_Create ops k s)) = (index_at s)(ak_KeyHash k \<mapsto> ak_ID k)"
    and update_ok: "key_at s (ak_ID k) \<noteq> None \<Longrightarrow> fst (st_Update ops k s) = Ok ()"
    and update_keys: "key_at s (ak_ID k) \<noteq> None \<Longrightarrow> key_at (snd (st_Update ops k s)) = (key_at s)(ak_ID k \<mapsto> k)"
    and update_index: "index_at (snd (st_Update ops k s)) = index_at s"
    and count: "wf s \<Longrightarrow> st_CountByUser ops now t u s =
      Ok (int (card {kid. \<exists>k. key_at s kid = Some k \<and> ak_TenantID k = t \<and> ak_UserID k = u \<and> IsValid now k}))"
    and finite_keys: "wf s \<Longrightarrow> finite {kid. key_at s kid \<noteq> None}"
    and create_wf: "wf s \<Longrightarrow> wf (snd (st_Create ops k s))"
    and update_wf: "wf s \<Longrightarrow> wf (snd (st_Update ops k s))"
begin

text \<open>The invariant of the two tables: every key is filed under its own ID, and every hash of the index
  belongs to the key it leads to.\<close>

definition consistent :: "'s \<Rightarrow> bool" where
  "consistent s \<longleftrightarrow> wf s \<and> (\<forall>kid k. key_at s kid = Some k \<longrightarrow> ak_ID k = kid) \<and>
     (\<forall>h kid. index_at s h = Some kid \<longrightarrow> (\<exists>k. key_at s kid = Some k \<and> ak_KeyHash k = h))"

lemma consistent_create:
  "consistent s \<Longrightarrow> key_at s (ak_ID k) = None \<Longrightarrow> consistent (snd (st_Create ops k s))"
  by (fastforce simp: consistent_def create_keys create_index create_wf)

lemma consistent_update:
  assumes "consistent s" "key_at s (ak_ID k) = Some k'" "ak_KeyHash k = ak_KeyHash k'"
  shows "consistent (snd (st_Update ops k s))"
  using assms update_keys [of s k] by (fastforce simp: consistent_def update_index update_wf)

lemma validate_sound:
  assumes "dm_store m = Some s" "consistent s" "Validate sha256 ops now p m = Ok k"
  shows "key_at s (ak_ID k) = Some k \<and> ak_KeyHash k = HashKey sha256 p \<and> ak_RevokedAt k = None \<and>
    (\<forall>e. ak_ExpiresAt k = Some e \<longrightarrow> now \<le> e) \<and> prefix (kc_Prefix (dm_cfg m)) p \<and> dm_enabled m"
proof -
  have v: "dm_enabled m" "hasPrefix p (kc_Prefix (dm_cfg m))" "st_GetByHash ops (HashKey sha256 p) s = Ok k"
    "\<not> IsRevoked k" "\<not> IsExpired now k"
    using assms(1,3) by (auto simp: Validate_def split: result_splits)
  then obtain kid where "index_at s (HashKey sha256 p) = Some kid" "key_at s kid = Some k"
    by (auto simp: get_by_hash Option.bind_eq_Some_conv split: option.splits)
  then have "key_at s (ak_ID k) = Some k" "ak_KeyHash k = HashKey sha256 p"
    using assms(2) by (auto simp: consistent_def) fastforce
  then show ?thesis
    using v by (auto simp: IsRevoked_def IsExpired_def hasPrefix_iff split: option.splits)
qed

end

context key_store
begin

lemma create_validate:
  assumes "Create sha256 ops inp req m = (Ok res, m')" "\<forall>e. ak_ExpiresAt (kr_Key res) = Some e \<longrightarrow> now \<le> e"
  shows "Validate sha256 ops now (kr_PlaintextKey res) m' = Ok (kr_Key res)"
proof -
  obtain s p h where c: "dm_enabled m" "dm_store m = Some s"
    "GenerateKey sha256 (ci_Random inp) (kc_Prefix (dm_cfg m)) = Ok (p, h)"
    "res = \<lparr>kr_Key = new_key (dm_cfg m) inp req p h, kr_PlaintextKey = p\<rparr>"
    "m' = m\<lparr>dm_store := Some (snd (st_Create ops (new_key (dm_cfg m) inp req p h) s))\<rparr>"
    using Create_Ok [OF assms(1)] by blast
  let ?k = "new_key (dm_cfg m) inp req p h"
  have h: "h = HashKey sha256 p" "hasPrefix p (kc_Prefix (dm_cfg m))"
    using c(3) by (auto simp: GenerateKey_def HashKey_def hasPrefix_def Let_def split: sum.splits)
  have k: "ak_KeyHash ?k = h" "ak_RevokedAt ?k = None" by (simp_all add: new_key_def Let_def)
  have "st_GetByHash ops (HashKey sha256 p) (snd (st_Create ops ?k s)) = Ok ?k"
    using h(1) k(1) by (simp add: get_by_hash create_index create_keys)
  moreover have "\<not> IsRevoked ?k" "\<not> IsExpired now ?k"
    using k(2) assms(2) c(4) by (auto simp: IsRevoked_def IsExpired_def not_less split: option.split)
  ultimately show ?thesis using c h(2) by (simp add: Validate_def)
qed

lemma create_index_of:
  assumes "Create sha256 ops inp req m = (Ok res, m')" "dm_store m' = Some s"
  shows "index_at s (HashKey sha256 (kr_PlaintextKey res)) = Some (ak_ID (kr_Key res))"
proof -
  obtain s0 p h where c: "GenerateKey sha256 (ci_Random inp) (kc_Prefix (dm_cfg m)) = Ok (p, h)"
    "res = \<lparr>kr_Key = new_key (dm_cfg m) inp req p h, kr_PlaintextKey = p\<rparr>"
    "m' = m\<lparr>dm_store := Some (snd (st_Create ops (new_key (dm_cfg m) inp req p h) s0))\<rparr>"
    using Create_Ok [OF assms(1)] by blast
  then have "h = HashKey sha256 p" by (auto simp: GenerateKey_def HashKey_def Let_def split: sum.splits)
  with c assms(2) show ?thesis by (auto simp: create_index new_key_def Let_def)
qed

lemma new_key_fields [simp]:
  "ak_ID (new_key cfg inp req p h) = ci_UUID inp" "ak_KeyHash (new_key cfg inp req p h) = h"
  "ak_RevokedAt (new_key cfg inp req p h) = None" "ak_TenantID (new_key cfg inp req p h) = cr_TenantID req"
  "ak_UserID (new_key cfg inp req p h) = cr_UserID req" "ak_Scopes (new_key cfg inp req p h) = cr_Scopes req"
  by (simp_all add: new_key_def Let_def)

text \<open>An invariant of the store that the creation of a fresh key and the two updates of a key keep holds
  after every run.\<close>

definition kept :: "('s \<Rightarrow> bool) \<Rightarrow> bool" where
  "kept P \<longleftrightarrow>
     (\<forall>s k. P s \<longrightarrow> key_at s (ak_ID k) = None \<longrightarrow> index_at s (ak_KeyHash k) = None \<longrightarrow> P (snd (st_Create ops k s))) \<and>
     (\<forall>s kid k k' now. P s \<longrightarrow> st_Get ops kid s = Ok k \<longrightarrow>
        k' = k\<lparr>ak_RevokedAt := Some now\<rparr> \<or> k' = k\<lparr>ak_LastUsedAt := Some now\<rparr> \<longrightarrow> P (snd (st_Update ops k' s)))"

definition managed :: "('s \<Rightarrow> bool) \<Rightarrow> 's DefaultManager \<Rightarrow> bool" where
  "managed P m \<longleftrightarrow> (\<exists>s. dm_store m = Some s \<and> P s)"

lemma kept_Create:
  assumes "kept P" "managed P m"
    "\<forall>s. dm_store m = Some s \<longrightarrow> fresh_inputs sha256 key_at index_at (kc_Prefix (dm_cfg m)) s inp"
  shows "managed P (snd (Create sha256 ops inp req m))"
  using Create_store [of sha256 ops inp req m]
proof (elim disjE exE conjE)
  fix s p h
  assume *: "dm_store m = Some s" "GenerateKey sha256 (ci_Random inp) (kc_Prefix (dm_cfg m)) = Ok (p, h)"
    "snd (Create sha256 ops inp req m) = m\<lparr>dm_store := Some (snd (st_Create ops (new_key (dm_cfg m) inp req p h) s))\<rparr>"
  then show ?thesis using assms by (auto simp: managed_def kept_def fresh_inputs_def)
qed (simp add: assms)

lemma kept_Revoke: "kept P \<Longrightarrow> managed P m \<Longrightarrow> managed P (snd (Revoke ops now kid m))"
  using Update_store(1) [of ops now kid m] by (auto simp: managed_def kept_def)

lemma kept_UpdateLastUsed: "kept P \<Longrightarrow> managed P m \<Longrightarrow> managed P (snd (UpdateLastUsed ops now kid m))"
  using Update_store(2) [of ops now kid m] by (auto simp: managed_def kept_def)

lemma kept_run:
  assumes "kept P" "managed P m" "fresh_run sha256 ops key_at index_at opl m"
  shows "managed P (run_manager sha256 ops opl m)"
  using assms(2,3)
proof (induction opl arbitrary: m)
  case (Cons op opl)
  have "managed P (run_op sha256 ops op m)"
  proof (cases op)
    case (OpCreate inp req)
    with Cons.prems show ?thesis by (auto intro!: kept_Create [OF assms(1)])
  next
    case (OpRevoke now kid')
    with Cons.prems show ?thesis by (simp add: kept_Revoke [OF assms(1)])
  next
    case (OpRotate inp kid')
    then have "managed P (snd (Create sha256 ops (ri_Create inp) req m))" for req
      using Cons.prems by (auto intro!: kept_Create [OF assms(1)])
    with OpRotate Cons.prems(1) Rotate_state [of sha256 ops inp kid' m] show ?thesis
      by (auto simp: kept_Revoke [OF assms(1)])
  next
    case (OpUpdateLastUsed now kid')
    with Cons.prems show ?thesis by (simp add: kept_UpdateLastUsed [OF assms(1)])
  qed
  with Cons show ?case by simp
qed simp

text \<open>Three such invariants: the tables are consistent, a hash leads to its key, and a revoked key stays
  revoked.\<close>

definition filed :: "string \<Rightarrow> string \<Rightarrow> 's \<Rightarrow> bool" where
  "filed kid h s \<longleftrightarrow> consistent s \<and> index_at s h = Some kid"

definition revoked_entry :: "string \<Rightarrow> string \<Rightarrow> 's \<Rightarrow> bool" where
  "revoked_entry kid h s \<longleftrightarrow> filed kid h s \<and> (\<exists>k. key_at s kid = Some k \<and> ak_RevokedAt k \<noteq> None)"

lemma updated_entry:
  assumes "consistent s" "st_Get ops kid s = Ok k" "k' = k\<lparr>ak_RevokedAt := Some now\<rparr> \<or> k' = k\<lparr>ak_LastUsedAt := Some now\<rparr>"
  shows "consistent (snd (st_Update ops k' s))" "key_at s kid = Some k" "key_at (snd (st_Update ops k' s)) = (key_at s)(kid \<mapsto> k')"
    "fst (st_Update ops k' s) = Ok ()"
proof -
  show k: "key_at s kid = Some k" using assms(2) by (simp add: get split: option.splits)
  then have "ak_ID k = kid" using assms(1) by (auto simp: consistent_def)
  then have k': "ak_ID k' = kid" "ak_KeyHash k' = ak_KeyHash k" using assms(3) by auto
  then show "consistent (snd (st_Update ops k' s))" using consistent_update [of s k' k] assms(1) k by simp
  have "key_at s (ak_ID k') \<noteq> None" using k k' by simp
  from update_keys [OF this] update_ok [OF this] k'
  show "key_at (snd (st_Update ops k' s)) = (key_at s)(kid \<mapsto> k')" "fst (st_Update ops k' s) = Ok ()" by simp_all
qed

lemma kept_consistent: "kept consistent"
  unfolding kept_def using consistent_create updated_entry(1) by blast

lemma kept_filed: "kept (filed kid h)"
  unfolding kept_def filed_def
  using consistent_create updated_entry(1) by (auto simp: create_index update_index)

lemma kept_revoked: "kept (revoked_entry kid h)"
  unfolding kept_def revoked_entry_def
proof (intro conjI allI impI; (elim conjE exE)?)
  fix s and k k0 :: APIKey
  assume "filed kid h s" "key_at s (ak_ID k) = None" "index_at s (ak_KeyHash k) = None" "key_at s kid = Some k0"
    "ak_RevokedAt k0 \<noteq> None"
  then show "filed kid h (snd (st_Create ops k s))" "\<exists>k'. key_at (snd (st_Create ops k s)) kid = Some k' \<and> ak_RevokedAt k' \<noteq> None"
    using kept_filed [of kid h] by (auto simp: kept_def create_keys)
next
  fix s kid' now and k k' k0 :: APIKey
  assume *: "filed kid h s" "st_Get ops kid' s = Ok k" "k' = k\<lparr>ak_RevokedAt := Some now\<rparr> \<or> k' = k\<lparr>ak_LastUsedAt := Some now\<rparr>"
    "key_at s kid = Some k0" "ak_RevokedAt k0 \<noteq> None"
  then have c: "consistent s" by (simp add: filed_def)
  note u = updated_entry [OF c *(2,3)]
  show "filed kid h (snd (st_Update ops k' s))" using * u(1) by (simp add: filed_def update_index)
  show "\<exists>k''. key_at (snd (st_Update ops k' s)) kid = Some k'' \<and> ak_RevokedAt k'' \<noteq> None"
    using * u(2,3) by auto
qed

lemma revoked_by_Revoke:
  assumes "dm_enabled m" "managed (filed kid h) m" "\<exists>s k. dm_store m = Some s \<and> key_at s kid = Some k"
  shows "managed (revoked_entry kid h) (snd (Revoke ops now kid m)) \<and> fst (Revoke ops now kid m) = Ok ()"
proof -
  obtain s k where s: "dm_store m = Some s" "key_at s kid = Some k" "filed kid h s" "consistent s"
    using assms(2,3) by (auto simp: managed_def filed_def)
  then have g: "st_Get ops kid s = Ok k" by (simp add: get)
  note u = updated_entry [OF s(4) g, of "k\<lparr>ak_RevokedAt := Some now\<rparr>" now, simplified]
  have "filed kid h (snd (st_Update ops (k\<lparr>ak_RevokedAt := Some now\<rparr>) s))"
    using s u by (simp add: filed_def update_index)
  with s g u assms(1) show ?thesis
    by (auto simp: Revoke_def managed_def revoked_entry_def split: prod.split)
qed

lemma revoked_validate:
  assumes "managed (revoked_entry kid h) m" "HashKey sha256 p = h"
  shows "\<nexists>k. Validate sha256 ops now p m = Ok k"
  using assms by (auto simp: managed_def revoked_entry_def filed_def Validate_def get_by_hash IsRevoked_def split: if_splits)

end

text \<open>The limit of keys per user.\<close>

context key_store
begin

definition active :: "'s \<Rightarrow> time \<Rightarrow> string \<Rightarrow> string \<Rightarrow> string set" where
  "active s now t u = {kid. \<exists>k. key_at s kid = Some k \<and> ak_TenantID k = t \<and> ak_UserID k = u \<and> IsValid now k}"

definition in_limit :: "Config \<Rightarrow> time \<Rightarrow> 's \<Rightarrow> bool" where
  "in_limit cfg now s \<longleftrightarrow> (\<forall>t u. u \<noteq> [] \<longrightarrow> int (card (active s now t u)) \<le> kc_MaxKeysPerUser cfg)"

definition limited :: "time \<Rightarrow> 's DefaultManager \<Rightarrow> bool" where
  "limited now m \<longleftrightarrow> (\<exists>s. dm_store m = Some s \<and> consistent s \<and> in_limit (dm_cfg m) now s)"

lemma active_finite: "wf s \<Longrightarrow> finite (active s now t u)"
  by (rule finite_subset [OF _ finite_keys]) (auto simp: active_def)

lemma IsValid_earlier: "IsValid now' k \<Longrightarrow> now \<le> now' \<Longrightarrow> IsValid now k"
  by (auto simp: IsValid_def split: result_splits)

lemma in_limit_subset:
  assumes "in_limit cfg now s" "wf s" "\<And>t u. active s' now' t u \<subseteq> active s now t u"
  shows "in_limit cfg now' s'"
  unfolding in_limit_def
proof (intro allI impI)
  fix t u :: string
  assume "u \<noteq> []"
  then have "int (card (active s now t u)) \<le> kc_MaxKeysPerUser cfg" using assms(1) by (simp add: in_limit_def)
  moreover have "card (active s' now' t u) \<le> card (active s now t u)"
    using active_finite [OF assms(2)] assms(3) by (rule card_mono)
  ultimately show "int (card (active s' now' t u)) \<le> kc_MaxKeysPerUser cfg" by simp
qed

lemma in_limit_later: "in_limit cfg now s \<Longrightarrow> wf s \<Longrightarrow> now \<le> now' \<Longrightarrow> in_limit cfg now' s"
  by (rule in_limit_subset) (auto simp: active_def intro: IsValid_earlier)

lemma in_limit_create:
  assumes "in_limit cfg now s" "wf s" "limit_reached ops cfg now req s = None" "kc_MaxKeysPerUser cfg > 0"
  shows "in_limit cfg now (snd (st_Create ops (new_key cfg inp req p h) s))"
  unfolding in_limit_def
proof (intro allI impI)
  fix t u :: string
  assume u: "u \<noteq> []"
  let ?k = "new_key cfg inp req p h"
  let ?s' = "snd (st_Create ops ?k s)"
  have sub: "active ?s' now t u \<subseteq> (if t = cr_TenantID req \<and> u = cr_UserID req then insert (ak_ID ?k) (active s now t u) else active s now t u)"
    by (auto simp: active_def create_keys)
  show "int (card (active ?s' now t u)) \<le> kc_MaxKeysPerUser cfg"
  proof (cases "t = cr_TenantID req \<and> u = cr_UserID req")
    case True
    then have "int (card (active s now t u)) < kc_MaxKeysPerUser cfg"
      using assms(2-4) u by (auto simp: limit_reached_def count active_def split: if_splits)
    moreover have "card (active ?s' now t u) \<le> Suc (card (active s now t u))"
    proof -
      have "card (active ?s' now t u) \<le> card (insert (ak_ID ?k) (active s now t u))"
        using sub True active_finite [OF assms(2), of now t u] by (intro card_mono) auto
      also have "\<dots> \<le> Suc (card (active s now t u))"
        using active_finite [OF assms(2), of now t u] by (simp add: card_insert_if)
      finally show ?thesis .
    qed
    ultimately show ?thesis by simp
  next
    case False
    then have "card (active ?s' now t u) \<le> card (active s now t u)"
      using sub active_finite [OF assms(2)] by (intro card_mono) auto
    moreover have "int (card (active s now t u)) \<le> kc_MaxKeysPerUser cfg" using assms(1) u by (simp add: in_limit_def)
    ultimately show ?thesis by simp
  qed
qed

lemma update_entry:
  assumes "consistent s" "st_Get ops kid s = Ok k" "ak_ID k' = ak_ID k" "ak_KeyHash k' = ak_KeyHash k"
    "ak_TenantID k' = ak_TenantID k" "ak_UserID k' = ak_UserID k" "\<And>now. IsValid now k' \<Longrightarrow> IsValid now k"
  shows "consistent (snd (st_Update ops k' s))" "active (snd (st_Update ops k' s)) now t u \<subseteq> active s now t u"
proof -
  have k: "key_at s kid = Some k" using assms(2) by (simp add: get split: option.splits)
  with assms(1) have "ak_ID k = kid" by (auto simp: consistent_def)
  with k assms(3) have e: "key_at s (ak_ID k') = Some k" by simp
  show "consistent (snd (st_Update ops k' s))" using consistent_update [OF assms(1) e assms(4)] .
  show "active (snd (st_Update ops k' s)) now t u \<subseteq> active s now t u"
    using e assms(5-7) update_keys [of s k'] by (auto simp: active_def split: if_splits)
qed

lemma limited_later: "limited now m \<Longrightarrow> now \<le> now' \<Longrightarrow> limited now' m"
  by (auto simp: limited_def consistent_def intro: in_limit_later)

lemma limited_Create:
  assumes "limited (ci_CountNow inp) m" "kc_MaxKeysPerUser (dm_cfg m) > 0"
    "\<forall>s. dm_store m = Some s \<longrightarrow> fresh_inputs sha256 key_at index_at (kc_Prefix (dm_cfg m)) s inp"
  shows "limited (ci_CountNow inp) (snd (Create sha256 ops inp req m))"
  using Create_store [of sha256 ops inp req m]
proof (elim disjE exE conjE)
  fix s p h
  let ?k = "new_key (dm_cfg m) inp req p h"
  assume *: "dm_store m = Some s" "limit_reached ops (dm_cfg m) (ci_CountNow inp) req s = None"
    "snd (Create sha256 ops inp req m) = m\<lparr>dm_store := Some (snd (st_Create ops ?k s))\<rparr>"
  have s: "consistent s" "in_limit (dm_cfg m) (ci_CountNow inp) s" "wf s"
    using assms(1) *(1) by (auto simp: limited_def consistent_def)
  have "consistent (snd (st_Create ops ?k s))"
    using assms(3) *(1) s(1) by (intro consistent_create) (auto simp: fresh_inputs_def)
  moreover have "in_limit (dm_cfg m) (ci_CountNow inp) (snd (st_Create ops ?k s))"
    using s(2,3) *(2) assms(2) by (rule in_limit_create)
  ultimately show ?thesis using *(3) by (simp add: limited_def)
qed (simp add: assms(1))

lemma limited_update:
  assumes "consistent s" "in_limit cfg now s" "st_Get ops kid s = Ok k"
    "k' = k\<lparr>ak_RevokedAt := Some r\<rparr> \<or> k' = k\<lparr>ak_LastUsedAt := Some r\<rparr>"
  shows "consistent (snd (st_Update ops k' s)) \<and> in_limit cfg now (snd (st_Update ops k' s))"
proof -
  have k': "ak_ID k' = ak_ID k" "ak_KeyHash k' = ak_KeyHash k" "ak_TenantID k' = ak_TenantID k" "ak_UserID k' = ak_UserID k"
    "\<And>now. IsValid now k' \<Longrightarrow> IsValid now k"
    using assms(4) by (auto simp: IsValid_def split: if_splits)
  note u = update_entry [OF assms(1,3) k']
  have "wf s" using assms(1) by (simp add: consistent_def)
  with u assms(2) in_limit_subset show ?thesis by metis
qed

lemma limited_Revoke: "limited now m \<Longrightarrow> limited now (snd (Revoke ops r kid m))"
  using Update_store(1) [of ops r kid m] limited_update by (fastforce simp: limited_def)

lemma limited_UpdateLastUsed: "limited now m \<Longrightarrow> limited now (snd (UpdateLastUsed ops r kid m))"
  using Update_store(2) [of ops r kid m] limited_update by (fastforce simp: limited_def)

lemma run_op_cfg [simp]: "dm_cfg (run_op sha256 ops op m) = dm_cfg m"
proof -
  have c: "dm_cfg (snd (Create sha256 ops inp req m)) = dm_cfg m" for inp req m
    using Create_store [of sha256 ops inp req m] by auto
  have r: "dm_cfg (snd (Revoke ops now kid m)) = dm_cfg m" for now kid m
    using Update_store(1) [of ops now kid m] by auto
  show ?thesis
  proof (cases op)
    case (OpRotate inp kid)
    then show ?thesis using Rotate_state [of sha256 ops inp kid m] c r by auto
  next
    case (OpUpdateLastUsed now kid)
    then show ?thesis using Update_store(2) [of ops now kid m] by auto
  qed (simp_all add: c r)
qed

lemma limited_run:
  assumes "limited t m" "kc_MaxKeysPerUser (dm_cfg m) > 0" "fresh_run sha256 ops key_at index_at opl m" "clock_run t opl"
  shows "limited (clock_end t opl) (run_manager sha256 ops opl m)"
  using assms
proof (induction opl arbitrary: t m)
  case (Cons op opl)
  let ?t = "case op_inputs op of None \<Rightarrow> t | Some inp \<Rightarrow> ci_CountNow inp"
  have create: "limited (ci_CountNow inp) (snd (Create sha256 ops inp req m))" if "op_inputs op = Some inp" for inp req
    using Cons.prems that limited_later by (intro limited_Create) (auto split: option.splits)
  have "limited ?t (run_op sha256 ops op m)"
  proof (cases op)
    case (OpRotate inp kid)
    then have "limited ?t m" using Cons.prems by (auto intro: limited_later)
    with OpRotate create Rotate_state [of sha256 ops inp kid m] show ?thesis by (auto simp: limited_Revoke)
  qed (use create Cons.prems in \<open>auto simp: limited_Revoke limited_UpdateLastUsed\<close>)
  with Cons.IH [of ?t "run_op sha256 ops op m"] Cons.prems show ?case by (auto split: option.splits)
qed simp

end

section \<open>The in-memory store keeps the contract\<close>

lemma mcount_card:
  assumes "mwf m"
  shows "mcount P m = card {k. \<exists>v. mget m k = Some v \<and> P v}"
proof -
  have "mcount P m = length (map fst (filter (\<lambda>e. P (snd e)) m))" by (simp add: mcount_def)
  also have "\<dots> = card (set (map fst (filter (\<lambda>e. P (snd e)) m)))"
    using assms by (intro distinct_card [symmetric] distinct_map_filter)
  also have "set (map fst (filter (\<lambda>e. P (snd e)) m)) = {k. \<exists>v. mget m k = Some v \<and> P v}"
    using assms by (force simp: mwf_mget_iff)
  finally show ?thesis .
qed

abbreviation mem_key_at :: "MemoryStore \<Rightarrow> string \<Rightarrow> APIKey option" where "mem_key_at s \<equiv> mget (ms_keys s)"
abbreviation mem_index_at :: "MemoryStore \<Rightarrow> string \<Rightarrow> string option" where "mem_index_at s \<equiv> mget (ms_hashIndex s)"

interpretation mem: key_store memory_ops "\<lambda>s. mwf (ms_keys s)" mem_key_at mem_index_at
proof
  fix s :: MemoryStore and now t u
  assume "mwf (ms_keys s)"
  then show "st_CountByUser memory_ops now t u s =
      Ok (int (card {kid. \<exists>k. mget (ms_keys s) kid = Some k \<and> ak_TenantID k = t \<and> ak_UserID k = u \<and> IsValid now k}))"
    by (simp add: mem_defs mcount_card)
next
  fix s :: MemoryStore
  show "finite {kid. mem_key_at s kid \<noteq> None}" using finite_dom_map_of [of "ms_keys s"] by (simp add: dom_def)
qed (auto simp: mem_defs fun_eq_iff split: option.splits)


section \<open>Properties of the manager with the in-memory store\<close>

abbreviation fresh_manager :: "Config \<Rightarrow> MemoryStore DefaultManager" where
  "fresh_manager cfg \<equiv> \<lparr>dm_store = Some NewMemoryStore, dm_cfg = cfg, dm_enabled = True\<rparr>"

abbreviation mem_fresh_run :: "(string \<Rightarrow> string) \<Rightarrow> manager_op list \<Rightarrow> MemoryStore DefaultManager \<Rightarrow> bool" where
  "mem_fresh_run sha256 \<equiv> fresh_run sha256 memory_ops mem_key_at mem_index_at"

lemma NewMemoryStore_consistent: "mem.consistent NewMemoryStore"
  by (simp add: mem.consistent_def NewMemoryStore_def)

lemma run_consistent:
  "mem_fresh_run sha256 opl (fresh_manager cfg) \<Longrightarrow>
   \<exists>s. dm_store (run_manager sha256 memory_ops opl (fresh_manager cfg)) = Some s \<and> mem.consistent s"
  using mem.kept_run [OF mem.kept_consistent, of "fresh_manager cfg" sha256 opl] NewMemoryStore_consistent
  by (auto simp: mem.managed_def)

lemma run_cfg: "dm_cfg (run_manager sha256 memory_ops opl m) = dm_cfg m"
  by (induction opl arbitrary: m) simp_all

lemma run_op_enabled: "dm_enabled (run_op sha256 ops op m) = dm_enabled m"
proof -
  have c: "dm_enabled (snd (Create sha256 ops inp req m)) = dm_enabled m" for inp req m
    using Create_store [of sha256 ops inp req m] by auto
  have r: "dm_enabled (snd (Revoke ops now kid m)) = dm_enabled m" for now kid m
    using Update_store(1) [of ops now kid m] by auto
  show ?thesis
  proof (cases op)
    case (OpRotate inp kid)
    then show ?thesis using Rotate_state [of sha256 ops inp kid m] c r by auto
  next
    case (OpUpdateLastUsed now kid)
    then show ?thesis using Update_store(2) [of ops now kid m] by auto
  qed (simp_all add: c r)
qed

lemma run_enabled: "dm_enabled (run_manager sha256 ops opl m) = dm_enabled m"
  by (induction opl arbitrary: m) (simp_all add: run_op_enabled)

lemma run_manager_append: "run_manager sha256 ops (xs @ ys) m = run_manager sha256 ops ys (run_manager sha256 ops xs m)"
  by (induction xs arbitrary: m) simp_all

lemma fresh_run_append:
  "fresh_run sha256 ops ka ia (xs @ ys) m \<longleftrightarrow>
   fresh_run sha256 ops ka ia xs m \<and> fresh_run sha256 ops ka ia ys (run_manager sha256 ops xs m)"
  by (induction xs arbitrary: m) (simp_all add: conj_assoc)

text \<open>The inputs of the examples: a hash that returns its argument, short random bytes, and a limit of two keys.\<close>

definition demo_config :: Config where
  "demo_config = \<lparr>kc_Enabled = True, kc_Prefix = ''fmg_'', kc_Store = ''memory'', kc_PostgresURL = [], kc_DefaultExpiry = 0,
     kc_MaxKeysPerUser = 2\<rparr>"

definition demo_hash :: "string \<Rightarrow> string" where "demo_hash p = p"

definition demo_inputs :: "time \<Rightarrow> string \<Rightarrow> create_inputs" where
  "demo_inputs t x = \<lparr>ci_CountNow = t, ci_Random = Ok x, ci_UUID = x, ci_Now = t\<rparr>"

definition demo_request :: CreateKeyRequest where
  "demo_request = \<lparr>cr_TenantID = ''acme'', cr_UserID = ''ada'', cr_Name = ''ci'', cr_Scopes = [''tools''], cr_ExpiresIn = 0\<rparr>"

definition demo_key :: "time \<Rightarrow> string \<Rightarrow> APIKey" where
  "demo_key t x = new_key demo_config (demo_inputs t x) demo_request (''fmg_'' @ EncodeToString x)
     (EncodeToString (''fmg_'' @ EncodeToString x))"

definition demo_result :: "time \<Rightarrow> string \<Rightarrow> CreateKeyResult" where
  "demo_result t x = \<lparr>kr_Key = demo_key t x, kr_PlaintextKey = ''fmg_'' @ EncodeToString x\<rparr>"

lemmas demo_defs = demo_config_def demo_hash_def demo_inputs_def demo_request_def demo_key_def demo_result_def

lemma demo_create: "fst (Create demo_hash memory_ops (demo_inputs 0 ''a'') demo_request (fresh_manager demo_config)) = Ok (demo_result 0 ''a'')"
  by code_simp

lemma demo_fresh:
  "mem_fresh_run demo_hash [OpCreate (demo_inputs 0 ''a'') demo_request, OpRevoke 5 ''a'', OpCreate (demo_inputs 6 ''b'') demo_request]
     (fresh_manager demo_config)"
  by code_simp

text \<open>C39. A created key works: right after \<open>Create\<close> returns a plaintext, \<open>Validate\<close> of it returns the
  created key, as long as the key's expiry has not passed.\<close>

theorem created_key_validates:
  assumes "Create sha256 memory_ops inp req m = (Ok res, m')" "\<forall>e. ak_ExpiresAt (kr_Key res) = Some e \<longrightarrow> now \<le> e"
  shows "Validate sha256 memory_ops now (kr_PlaintextKey res) m' = Ok (kr_Key res)"
  using assms by (rule mem.create_validate)

theorem created_key_validates_witness:
  "Validate demo_hash memory_ops 100 (''fmg_'' @ EncodeToString ''a'')
     (snd (Create demo_hash memory_ops (demo_inputs 0 ''a'') demo_request (fresh_manager demo_config))) = Ok (demo_key 0 ''a'')"
proof -
  have "ak_ExpiresAt (demo_key 0 ''a'') = None" by code_simp
  then show ?thesis
    using created_key_validates [of demo_hash "demo_inputs 0 ''a''" demo_request "fresh_manager demo_config" "demo_result 0 ''a''" _ 100]
      demo_create by (simp add: prod_eq_iff demo_result_def)
qed

text \<open>C19. Only a stored key validates: after any run of the manager that draws fresh IDs and keys, a
  plaintext that passes \<open>Validate\<close> has the configured prefix, and its hash is the hash of a key of the
  store that is neither revoked nor expired, which is the key returned.\<close>

theorem validate_only_stored:
  assumes "mem_fresh_run sha256 opl (fresh_manager cfg)"
    "Validate sha256 memory_ops now p (run_manager sha256 memory_ops opl (fresh_manager cfg)) = Ok k"
  shows "\<exists>s. dm_store (run_manager sha256 memory_ops opl (fresh_manager cfg)) = Some s \<and>
    mget (ms_keys s) (ak_ID k) = Some k \<and> ak_KeyHash k = HashKey sha256 p \<and> ak_RevokedAt k = None \<and>
    (\<forall>e. ak_ExpiresAt k = Some e \<longrightarrow> now \<le> e) \<and> prefix (kc_Prefix cfg) p"
  using run_consistent [OF assms(1)] mem.validate_sound [OF _ _ assms(2)] by (fastforce simp: run_cfg)

theorem validate_only_stored_witness:
  "(let opl = [OpCreate (demo_inputs 0 ''a'') demo_request]; m = run_manager demo_hash memory_ops opl (fresh_manager demo_config)
    in \<exists>s. dm_store m = Some s \<and> mget (ms_keys s) ''a'' = Some (demo_key 0 ''a'') \<and>
       ak_KeyHash (demo_key 0 ''a'') = HashKey demo_hash (''fmg_'' @ EncodeToString ''a''))"
proof -
  let ?opl = "[OpCreate (demo_inputs 0 ''a'') demo_request]"
  have f: "mem_fresh_run demo_hash ?opl (fresh_manager demo_config)" by code_simp
  have v: "Validate demo_hash memory_ops 100 (''fmg_'' @ EncodeToString ''a'')
      (run_manager demo_hash memory_ops ?opl (fresh_manager demo_config)) = Ok (demo_key 0 ''a'')" by code_simp
  have "ak_ID (demo_key 0 ''a'') = ''a''" by code_simp
  with validate_only_stored [OF f v] show ?thesis by (auto simp: Let_def)
qed

text \<open>C20. A revoked key is dead: once a created key is revoked, no later run of the manager, whatever it
  creates, rotates, revokes or touches, makes its plaintext pass \<open>Validate\<close> again.\<close>

theorem revoked_key_never_validates:
  assumes "ops1 = opl @ [OpCreate inp req]" "opsn = ops1 @ opl' @ [OpRevoke now (ak_ID (kr_Key res))] @ opl''"
    "mem_fresh_run sha256 opsn (fresh_manager cfg)"
    "fst (Create sha256 memory_ops inp req (run_manager sha256 memory_ops opl (fresh_manager cfg))) = Ok res"
  shows "\<nexists>k. Validate sha256 memory_ops now' (kr_PlaintextKey res)
    (run_manager sha256 memory_ops opsn (fresh_manager cfg)) = Ok k"
proof -
  define m where "m = run_manager sha256 memory_ops opl (fresh_manager cfg)"
  define m1 where "m1 = snd (Create sha256 memory_ops inp req m)"
  define m2 where "m2 = run_manager sha256 memory_ops opl' m1"
  define kid where "kid = ak_ID (kr_Key res)"
  define h where "h = HashKey sha256 (kr_PlaintextKey res)"
  have fr: "mem_fresh_run sha256 (opl @ [OpCreate inp req]) (fresh_manager cfg)" "mem_fresh_run sha256 opl' m1"
    "mem_fresh_run sha256 opl'' (snd (Revoke memory_ops now kid m2))"
    using assms(1,2,3) by (simp_all add: fresh_run_append run_manager_append m_def m1_def m2_def kid_def)
  have c: "Create sha256 memory_ops inp req m = (Ok res, m1)"
    using assms(4) by (simp add: m_def m1_def prod_eq_iff)
  have "managed_m1": "mem.managed (mem.filed kid h) m1"
  proof -
    obtain s where s: "dm_store m1 = Some s" "mem.consistent s"
      using run_consistent [OF fr(1)] by (auto simp: run_manager_append m1_def m_def)
    then have "mget (ms_hashIndex s) h = Some kid"
      using mem.create_index_of [OF c] by (simp add: h_def kid_def)
    with s show ?thesis by (simp add: mem.managed_def mem.filed_def)
  qed
  then have f2: "mem.managed (mem.filed kid h) m2"
    unfolding m2_def using fr(2) by (intro mem.kept_run [OF mem.kept_filed])
  have "dm_enabled m2"
    using Create_Ok [OF c] by (auto simp: m2_def run_enabled m1_def)
  moreover have "\<exists>s k. dm_store m2 = Some s \<and> mem_key_at s kid = Some k"
    using f2 unfolding mem.managed_def mem.filed_def mem.consistent_def by blast
  ultimately have "mem.managed (mem.revoked_entry kid h) (snd (Revoke memory_ops now kid m2))"
    using mem.revoked_by_Revoke f2 by blast
  then have "mem.managed (mem.revoked_entry kid h) (run_manager sha256 memory_ops opl'' (snd (Revoke memory_ops now kid m2)))"
    using fr(3) by (intro mem.kept_run [OF mem.kept_revoked])
  moreover have "run_manager sha256 memory_ops opl'' (snd (Revoke memory_ops now kid m2)) =
      run_manager sha256 memory_ops opsn (fresh_manager cfg)"
    by (simp add: assms(1,2) run_manager_append m_def m1_def m2_def kid_def)
  ultimately show ?thesis
    using mem.revoked_validate [OF _ h_def [symmetric], of kid] by metis
qed

theorem revoked_key_never_validates_witness:
  "\<nexists>k. Validate demo_hash memory_ops 100 (''fmg_'' @ EncodeToString ''a'')
     (run_manager demo_hash memory_ops
        [OpCreate (demo_inputs 0 ''a'') demo_request, OpRevoke 5 ''a'', OpCreate (demo_inputs 6 ''b'') demo_request]
        (fresh_manager demo_config)) = Ok k"
proof -
  have i: "ak_ID (kr_Key (demo_result 0 ''a'')) = ''a''" by code_simp
  show ?thesis
    using revoked_key_never_validates [where opl = "[]" and opl' = "[]" and inp = "demo_inputs 0 ''a''" and req = demo_request
        and res = "demo_result 0 ''a''" and now = 5 and opl'' = "[OpCreate (demo_inputs 6 ''b'') demo_request]",
        OF refl refl, unfolded i, of demo_hash demo_config 100] demo_fresh demo_create
    by (simp add: demo_result_def del: fresh_run.simps)
qed



text \<open>Rotation replaces a key: it returns a key of the same tenant, user and scopes that validates until
  it expires, and the old key is revoked. Nothing is asked of the old key: one that was revoked or has
  expired is renewed as well.\<close>

theorem Rotate_renews:
  assumes "mem_fresh_run sha256 (opl @ [OpRotate inp kid]) (fresh_manager cfg)"
    "m = run_manager sha256 memory_ops opl (fresh_manager cfg)"
    "Rotate sha256 memory_ops inp kid m = (Ok res, m')" "\<forall>e. ak_ExpiresAt (kr_Key res) = Some e \<longrightarrow> now \<le> e"
  shows "\<exists>s old s'. dm_store m = Some s \<and> mget (ms_keys s) kid = Some old \<and> dm_store m' = Some s' \<and>
    ak_TenantID (kr_Key res) = ak_TenantID old \<and> ak_UserID (kr_Key res) = ak_UserID old \<and>
    ak_Scopes (kr_Key res) = ak_Scopes old \<and>
    mget (ms_keys s') kid = Some (old\<lparr>ak_RevokedAt := Some (ri_RevokeNow inp)\<rparr>) \<and>
    Validate sha256 memory_ops now (kr_PlaintextKey res) m' = Ok (kr_Key res)"
proof -
  obtain s where s: "dm_store m = Some s" "mem.consistent s"
    using run_consistent [of sha256 opl cfg] assms(1,2) by (auto simp: fresh_run_append)
  obtain old m1 where r: "dm_enabled m" "mget (ms_keys s) kid = Some old"
    "Create sha256 memory_ops (ri_Create inp)
       \<lparr>cr_TenantID = ak_TenantID old, cr_UserID = ak_UserID old, cr_Name = ak_Name old @ '' (rotated)'',
        cr_Scopes = ak_Scopes old, cr_ExpiresIn = remaining_expiry (ri_UntilNow inp) old\<rparr> m = (Ok res, m1)"
    "m' = snd (Revoke memory_ops (ri_RevokeNow inp) kid m1)"
    using assms(3) s(1) by (auto simp: Rotate_def mem.get split: result_splits)
  then obtain p h where c: "res = \<lparr>kr_Key = new_key (dm_cfg m) (ri_Create inp)
       \<lparr>cr_TenantID = ak_TenantID old, cr_UserID = ak_UserID old, cr_Name = ak_Name old @ '' (rotated)'',
        cr_Scopes = ak_Scopes old, cr_ExpiresIn = remaining_expiry (ri_UntilNow inp) old\<rparr> p h, kr_PlaintextKey = p\<rparr>"
    "m1 = m\<lparr>dm_store := Some (snd (st_Create memory_ops (kr_Key res) s))\<rparr>"
    using Create_Ok [OF r(3)] s(1) by auto
  define s1 where "s1 = snd (st_Create memory_ops (kr_Key res) s)"
  have new: "ak_ID (kr_Key res) = ci_UUID (ri_Create inp)" using c(1) by simp
  have "mget (ms_keys s) (ci_UUID (ri_Create inp)) = None"
    using assms(1,2) s(1) by (auto simp: fresh_run_append fresh_inputs_def)
  then have ne: "ak_ID (kr_Key res) \<noteq> kid" using new r(2) by auto
  have "ak_ID old = kid" using s(2) r(2) by (auto simp: mem.consistent_def)
  moreover have "mget (ms_keys s1) kid = Some old" using ne r(2) by (simp add: s1_def mem.create_keys)
  ultimately have m': "m' = m\<lparr>dm_store := Some (snd (st_Update memory_ops (old\<lparr>ak_RevokedAt := Some (ri_RevokeNow inp)\<rparr>) s1))\<rparr>"
      "mem_key_at (snd (st_Update memory_ops (old\<lparr>ak_RevokedAt := Some (ri_RevokeNow inp)\<rparr>) s1)) =
       (mem_key_at s1)(kid \<mapsto> old\<lparr>ak_RevokedAt := Some (ri_RevokeNow inp)\<rparr>)"
    using r(1,4) c(2) mem.update_keys [of s1 "old\<lparr>ak_RevokedAt := Some (ri_RevokeNow inp)\<rparr>"]
    by (auto simp: Revoke_def mem.get s1_def split: prod.split)
  have v: "Validate sha256 memory_ops now (kr_PlaintextKey res) m1 = Ok (kr_Key res)"
    using mem.create_validate [OF r(3) assms(4)] .
  have "Validate sha256 memory_ops now (kr_PlaintextKey res) m' = Ok (kr_Key res)"
  proof -
    have ix: "mem_index_at s1 (HashKey sha256 (kr_PlaintextKey res)) = Some (ak_ID (kr_Key res))"
      using mem.create_index_of [OF r(3)] c(2) by (simp add: s1_def)
    have k1: "mem_key_at s1 (ak_ID (kr_Key res)) = Some (kr_Key res)" by (simp add: s1_def mem.create_keys)
    have "hasPrefix (kr_PlaintextKey res) (kc_Prefix (dm_cfg m)) \<and> \<not> IsRevoked (kr_Key res) \<and> \<not> IsExpired now (kr_Key res)"
      using v c(2) by (auto simp: Validate_def mem.get_by_hash ix [unfolded s1_def] k1 [unfolded s1_def] split: if_splits)
    then show ?thesis
      using m' ix k1 ne r(1) by (simp add: Validate_def mem.get_by_hash mem.update_index)
  qed
  with s r(2) m' c(1) show ?thesis by simp
qed

theorem Rotate_renews_witness:
  "(let opl = [OpCreate (demo_inputs 0 ''a'') demo_request, OpRevoke 1 ''a''];
        m = run_manager demo_hash memory_ops opl (fresh_manager demo_config);
        inp = \<lparr>ri_UntilNow = 2, ri_Create = demo_inputs 2 ''b'', ri_RevokeNow = 3\<rparr>;
        (r, m') = Rotate demo_hash memory_ops inp ''a'' m
    in case r of Inl _ \<Rightarrow> False | Inr res \<Rightarrow> Validate demo_hash memory_ops 9 (kr_PlaintextKey res) m' = Ok (kr_Key res))"
proof -
  let ?opl = "[OpCreate (demo_inputs 0 ''a'') demo_request, OpRevoke 1 ''a'']"
  let ?m = "run_manager demo_hash memory_ops ?opl (fresh_manager demo_config)"
  let ?inp = "\<lparr>ri_UntilNow = 2, ri_Create = demo_inputs 2 ''b'', ri_RevokeNow = 3\<rparr>"
  have f: "mem_fresh_run demo_hash (?opl @ [OpRotate ?inp ''a'']) (fresh_manager demo_config)" by code_simp
  have "case fst (Rotate demo_hash memory_ops ?inp ''a'' ?m) of Inl _ \<Rightarrow> False | Inr res \<Rightarrow> ak_ExpiresAt (kr_Key res) = None"
    by code_simp
  then obtain res m' where r: "Rotate demo_hash memory_ops ?inp ''a'' ?m = (Ok res, m')" "ak_ExpiresAt (kr_Key res) = None"
    by (cases "Rotate demo_hash memory_ops ?inp ''a'' ?m") (auto split: sum.splits)
  from Rotate_renews [OF f refl r(1), of 9] r show ?thesis by (auto simp: Let_def simp del: run_manager.simps)
qed

text \<open>\<open>UpdateLastUsed\<close> reads a key and writes it back in two separate critical sections of the store.
  If a \<open>Revoke\<close> of the key falls between them, the write brings the old, unrevoked entry back and the
  key validates again although \<open>Revoke\<close> reported success.\<close>

theorem lost_revocation:
  assumes "dm_enabled m" "dm_store m = Some s" "mget (ms_hashIndex s) (HashKey sha256 p) = Some kid"
    "mget (ms_keys s) kid = Some k" "ak_ID k = kid" "hasPrefix p (kc_Prefix (dm_cfg m))" "IsValid now k"
  shows "\<exists>s1. Revoke memory_ops t1 kid m = (Ok (), m\<lparr>dm_store := Some s1\<rparr>) \<and>
    Validate sha256 memory_ops now p (m\<lparr>dm_store := Some s1\<rparr>) = Err ErrKeyRevoked \<and>
    Validate sha256 memory_ops now p (m\<lparr>dm_store := Some (snd (mem_Update (k\<lparr>ak_LastUsedAt := Some t2\<rparr>) s1))\<rparr>)
      = Ok (k\<lparr>ak_LastUsedAt := Some t2\<rparr>)"
proof -
  have "\<not> IsRevoked (k\<lparr>ak_LastUsedAt := Some t2\<rparr>)" "\<not> IsExpired now (k\<lparr>ak_LastUsedAt := Some t2\<rparr>)"
    using assms(7) by (auto simp: IsValid_def IsRevoked_def IsExpired_def split: result_splits)
  with assms(1-6) show ?thesis
    by (auto simp: Revoke_def Validate_def mem_defs IsRevoked_def)
qed

theorem lost_revocation_witness:
  "(let m = snd (Create demo_hash memory_ops (demo_inputs 0 ''a'') demo_request (fresh_manager demo_config))
    in \<exists>s1. Revoke memory_ops 4 ''a'' m = (Ok (), m\<lparr>dm_store := Some s1\<rparr>) \<and>
       Validate demo_hash memory_ops 9 (''fmg_'' @ EncodeToString ''a'')
         (m\<lparr>dm_store := Some (snd (mem_Update ((demo_key 0 ''a'')\<lparr>ak_LastUsedAt := Some 5\<rparr>) s1))\<rparr>)
         = Ok ((demo_key 0 ''a'')\<lparr>ak_LastUsedAt := Some 5\<rparr>))"
proof -
  let ?p = "''fmg_'' @ EncodeToString ''a''"
  let ?s = "\<lparr>ms_keys = [(''a'', demo_key 0 ''a'')], ms_hashIndex = [(HashKey demo_hash ?p, ''a'')]\<rparr>"
  let ?m = "\<lparr>dm_store = Some ?s, dm_cfg = demo_config, dm_enabled = True\<rparr>"
  have m: "snd (Create demo_hash memory_ops (demo_inputs 0 ''a'') demo_request (fresh_manager demo_config)) = ?m" by code_simp
  have k: "ak_ID (demo_key 0 ''a'') = ''a''" "hasPrefix ?p (kc_Prefix demo_config)" "IsValid 9 (demo_key 0 ''a'')" by code_simp+
  show ?thesis
    unfolding m Let_def
    using lost_revocation [of ?m ?s demo_hash ?p "''a''" "demo_key 0 ''a''" 9 4 5] k by auto
qed

text \<open>The environment variable for the limit of keys per user is never read as a number: whatever is
  set there, unless it is blank, the limit becomes 0 and no request is ever refused for too many keys.\<close>

theorem max_keys_setting_ignored:
  assumes "TrimSpace (getenv ''FI_MCP_APIKEY_MAX_PER_USER'') \<noteq> []"
  shows "kc_MaxKeysPerUser (LoadConfigFromEnv getenv) = 0 \<and>
    limit_reached memory_ops (LoadConfigFromEnv getenv) now req s = None"
  using assms by (simp add: LoadConfigFromEnv_def envIntDefault_def limit_reached_def split: list.split)

theorem max_keys_setting_ignored_witness:
  "kc_MaxKeysPerUser (LoadConfigFromEnv (\<lambda>v. if v = ''FI_MCP_APIKEY_MAX_PER_USER'' then ''3'' else [])) = 0"
proof -
  have "TrimSpace ''3'' \<noteq> []" by code_simp
  then show ?thesis
    using max_keys_setting_ignored [of "\<lambda>v. if v = ''FI_MCP_APIKEY_MAX_PER_USER'' then ''3'' else []"] by simp
qed

end
