(* ===== verification/Auth.thy ===== *)
theory Auth
  imports Apikeys
begin

text \<open>
  The package \<open>internal/auth\<close>: principals (\<open>auth.go\<close>), bearer tokens checked against a key set
  (\<open>jwt.go\<close>), API keys (\<open>apikey.go\<close>) and their combination (\<open>composite.go\<close>). The JWT library with its key
  set is the argument \<open>parse\<close>: from a token to an error or to the validity flag (absent for a nil token)
  and the claims it verified. A request is its \<open>Header.Get\<close>, from header names to values.

  An authenticator is a function from requests to an error, no principal or a principal. The locale
  \<open>strict_authenticator\<close> is what a caller relies on when authentication is required; it is
  interpreted on the token, API key and composite authenticators.

  Shown here: what a token principal proves about the token and its claims, that required
  authenticators never let a request through without a principal, and that the composite returns the
  first principal its parts find.
\<close>

section \<open>Values, principals and requests\<close>

type_synonym claims = "(string, any) gomap"

record Principal =
  p_Subject :: string
  p_Issuer :: string
  p_Audience :: "string list"
  p_Claims :: "claims option"

definition TenantID :: "Principal option \<Rightarrow> string" where
  "TenantID p =
     (case p of
        None \<Rightarrow> []
      | Some pr \<Rightarrow>
          (case p_Claims pr of
             None \<Rightarrow> []
           | Some cl \<Rightarrow> (case mget cl ''tenant_id'' of Some (AString s) \<Rightarrow> s | _ \<Rightarrow> [])))"

datatype auth_error = ErrUnauthorized

type_synonym header = "string \<Rightarrow> string"
type_synonym authenticator = "header \<Rightarrow> (auth_error, Principal option) result"

definition NoAuth_Authenticate :: authenticator where "NoAuth_Authenticate r = Ok None"


section \<open>Bearer tokens\<close>

record Config =
  a_Mode :: string
  a_JWKSURL :: string
  a_Issuer :: string
  a_Audiences :: "string list"
  a_Required :: bool
  a_ClockSkew :: duration

definition envDefault :: "getenv \<Rightarrow> string \<Rightarrow> string \<Rightarrow> string" where
  "envDefault getenv key fallback = (let v = getenv key in if v \<noteq> [] then v else fallback)"

definition splitCSV :: "string \<Rightarrow> string list" where
  "splitCSV s = (if TrimSpace s = [] then [] else filter (\<lambda>p. p \<noteq> []) (map TrimSpace (Split s CHR '','')))"

definition LoadConfigFromEnv :: "getenv \<Rightarrow> Config" where
  "LoadConfigFromEnv getenv =
     \<lparr>a_Mode = ToLower (envDefault getenv ''FI_MCP_AUTH_MODE'' ''none''),
      a_JWKSURL = TrimSpace (getenv ''FI_MCP_AUTH_JWKS_URL''),
      a_Issuer = TrimSpace (getenv ''FI_MCP_AUTH_ISSUER''),
      a_Audiences = splitCSV (TrimSpace (getenv ''FI_MCP_AUTH_AUDIENCE'')),
      a_Required = EqualFold (envDefault getenv ''FI_MCP_AUTH_REQUIRED'' ''true'') ''true'',
      a_ClockSkew =
        (let v = TrimSpace (getenv ''FI_MCP_AUTH_CLOCK_SKEW'')
         in if v \<noteq> [] then (case ParseDuration v of Some d \<Rightarrow> if d \<ge> 0 then d else 30 * Second | None \<Rightarrow> 30 * Second)
            else 30 * Second)\<rparr>"

fun contains :: "string list \<Rightarrow> string \<Rightarrow> bool" where
  "contains [] s = False"
| "contains (it # list) s = (if it = s then True else contains list s)"

text \<open>\<open>asUnixSeconds\<close>: numbers of any kind; a \<open>json.Number\<close> only when it is an integer.\<close>

definition asUnixSeconds :: "any \<Rightarrow> int option" where
  "asUnixSeconds v =
     (case v of
        AFloat q \<Rightarrow> Some (f64_to_int64 (Some q))
      | AInt n \<Rightarrow> Some n
      | ANumber s \<Rightarrow> Atoi s
      | _ \<Rightarrow> None)"

text \<open>\<open>time.Unix(ts, 0)\<close>: the seconds since year 1 are an \<open>int64\<close> that wraps around.\<close>

definition unix_instant :: "int \<Rightarrow> time" where "unix_instant ts = wrap64 (ts + 62135596800) * Second"

definition string_claim :: "claims \<Rightarrow> string \<Rightarrow> string" where
  "string_claim cl key = (case mget cl key of Some (AString s) \<Rightarrow> s | _ \<Rightarrow> [])"

definition audience_ok :: "string list \<Rightarrow> any option \<Rightarrow> bool" where
  "audience_ok audiences v =
     (case v of
        Some (AString s) \<Rightarrow> contains audiences s
      | Some (AList l) \<Rightarrow>
          list_ex (\<lambda>it. let s = (case it of AString x \<Rightarrow> x | _ \<Rightarrow> []) in s \<noteq> [] \<and> contains audiences s) l
      | _ \<Rightarrow> False)"

definition validateRegisteredClaims :: "time \<Rightarrow> claims \<Rightarrow> Config \<Rightarrow> string option" where
  "validateRegisteredClaims now cl cfg =
     (if a_Issuer cfg \<noteq> [] \<and> string_claim cl ''iss'' \<noteq> a_Issuer cfg then Some ''issuer mismatch''
      else if length (a_Audiences cfg) > 0 \<and> \<not> audience_ok (a_Audiences cfg) (mget cl ''aud'') then Some ''audience mismatch''
      else if (case Option.bind (mget cl ''exp'') asUnixSeconds of
                 None \<Rightarrow> False | Some ts \<Rightarrow> now > time_Add (unix_instant ts) (a_ClockSkew cfg)) then Some ''token expired''
      else if (case Option.bind (mget cl ''nbf'') asUnixSeconds of
                 None \<Rightarrow> False | Some ts \<Rightarrow> now < time_Add (unix_instant ts) (- a_ClockSkew cfg)) then Some ''token not yet valid''
      else None)"

definition claims_audience :: "claims \<Rightarrow> string list" where
  "claims_audience cl =
     (case mget cl ''aud'' of
        Some (AString s) \<Rightarrow> [s]
      | Some (AList l) \<Rightarrow> List.map_filter (\<lambda>it. case it of AString s \<Rightarrow> Some s | _ \<Rightarrow> None) l
      | _ \<Rightarrow> [])"

type_synonym jwt_parser = "string \<Rightarrow> (string, bool option \<times> claims) result"

text \<open>What happens to a request that shows no acceptable token.\<close>

definition reject :: "Config \<Rightarrow> (auth_error, Principal option) result" where
  "reject cfg = (if a_Required cfg then Err ErrUnauthorized else Ok None)"

definition JWKS_Authenticate :: "jwt_parser \<Rightarrow> time \<Rightarrow> Config \<Rightarrow> authenticator" where
  "JWKS_Authenticate parse now cfg header =
     (let raw = TrimSpace (header ''Authorization'')
      in if raw = [] then reject cfg
         else let tokenString = TrimSpace (TrimPrefix raw ''Bearer'')
              in if tokenString = raw then reject cfg
                 else let tokenString' = TrimSpace tokenString
                      in if tokenString' = [] then reject cfg
                         else (case parse tokenString' of
                                 Inl er \<Rightarrow> reject cfg
                               | Inr (valid, cl) \<Rightarrow>
                                   if valid \<noteq> Some True then reject cfg
                                   else (case validateRegisteredClaims now cl cfg of
                                           Some er \<Rightarrow> reject cfg
                                         | None \<Rightarrow>
                                             Ok (Some \<lparr>p_Subject = string_claim cl ''sub'', p_Issuer = string_claim cl ''iss'',
                                                       p_Audience = claims_audience cl, p_Claims = Some cl\<rparr>))))"

text \<open>\<open>New\<close>: which authenticator a configuration selects; \<open>jwks\<close> fetches the key set of a URL and gives the
  parser that checks tokens against it. The authenticator reads the clock on each call, so it is a
  function of the current time.\<close>

definition NewJWKSAuthenticator :: "(string \<Rightarrow> (string, jwt_parser) result) \<Rightarrow> Config \<Rightarrow> (string, time \<Rightarrow> authenticator) result" where
  "NewJWKSAuthenticator jwks cfg =
     (if a_JWKSURL cfg = [] then Err ''missing FI_MCP_AUTH_JWKS_URL''
      else (case jwks (a_JWKSURL cfg) of
              Inl er \<Rightarrow> Err (''jwks init: '' @ er)
            | Inr parse \<Rightarrow> Ok (\<lambda>now. JWKS_Authenticate parse now cfg)))"

definition New :: "(string \<Rightarrow> (string, jwt_parser) result) \<Rightarrow> Config \<Rightarrow> (string, time \<Rightarrow> authenticator) result" where
  "New jwks cfg =
     (if a_Mode cfg = [] \<or> a_Mode cfg = ''none'' then Ok (\<lambda>now. NoAuth_Authenticate)
      else if a_Mode cfg = ''jwt'' \<or> a_Mode cfg = ''oidc'' then NewJWKSAuthenticator jwks cfg
      else Err (''unsupported auth mode '' @ a_Mode cfg))"


section \<open>API keys\<close>

text \<open>The credential of a request: the \<open>X-API-Key\<close> header, else a bearer token.\<close>

definition request_key :: "header \<Rightarrow> string" where
  "request_key header =
     (let key = TrimSpace (header ''X-API-Key'')
      in if key = []
         then let auth = TrimSpace (header ''Authorization'')
              in if HasPrefix auth ''Bearer '' then TrimSpace (TrimPrefix auth ''Bearer '') else key
         else key)"

definition key_principal :: "APIKey \<Rightarrow> Principal" where
  "key_principal k =
     \<lparr>p_Subject = ak_UserID k, p_Issuer = ''apikey'', p_Audience = [ak_TenantID k],
      p_Claims = Some [(''tenant_id'', AString (ak_TenantID k)), (''user_id'', AString (ak_UserID k)),
        (''key_id'', AString (ak_ID k)), (''key_name'', AString (ak_Name k)), (''scopes'', AStrings (ak_Scopes k)),
        (''auth_type'', AString ''apikey'')]\<rparr>"

text \<open>\<open>validate\<close> is the manager's \<open>Validate\<close>. The second component is the ID of the key whose last use the
  goroutine started here records.\<close>

definition APIKey_Authenticate :: "(string \<Rightarrow> (key_error, APIKey) result) \<Rightarrow> bool \<Rightarrow> header \<Rightarrow>
    (auth_error, Principal option) result \<times> string option" where
  "APIKey_Authenticate validate required header =
     (let key = request_key header
      in if key = [] then (if required then (Err ErrUnauthorized, None) else (Ok None, None))
         else (case validate key of
                 Inl er \<Rightarrow> (if required then (Err ErrUnauthorized, None) else (Ok None, None))
               | Inr apiKey \<Rightarrow> (Ok (Some (key_principal apiKey)), Some (ak_ID apiKey))))"


section \<open>Combining authenticators\<close>

text \<open>A nil entry of the list is \<open>None\<close>.\<close>

fun composite_loop :: "authenticator option list \<Rightarrow> auth_error option \<Rightarrow> bool \<Rightarrow> authenticator" where
  "composite_loop [] lastErr required r =
     (if required then (case lastErr of Some er \<Rightarrow> Err er | None \<Rightarrow> Err ErrUnauthorized) else Ok None)"
| "composite_loop (None # as) lastErr required r = composite_loop as lastErr required r"
| "composite_loop (Some a # as) lastErr required r =
     (case a r of
        Inl er \<Rightarrow> composite_loop as (Some er) required r
      | Inr (Some p) \<Rightarrow> Ok (Some p)
      | Inr None \<Rightarrow> composite_loop as lastErr required r)"

definition Composite_Authenticate :: "authenticator option list \<Rightarrow> bool \<Rightarrow> authenticator" where
  "Composite_Authenticate as required r = composite_loop as None required r"

record AuthenticatorBuilder =
  ab_authenticators :: "authenticator list"
  ab_required :: bool

definition NewAuthenticatorBuilder :: AuthenticatorBuilder where
  "NewAuthenticatorBuilder = \<lparr>ab_authenticators = [], ab_required = False\<rparr>"

text \<open>\<open>WithJWT\<close>, \<open>WithAPIKey\<close> and \<open>WithAuthenticator\<close> are the same.\<close>

definition WithAuthenticator :: "authenticator option \<Rightarrow> AuthenticatorBuilder \<Rightarrow> AuthenticatorBuilder" where
  "WithAuthenticator a b = (case a of None \<Rightarrow> b | Some f \<Rightarrow> b\<lparr>ab_authenticators := ab_authenticators b @ [f]\<rparr>)"

definition Required :: "bool \<Rightarrow> AuthenticatorBuilder \<Rightarrow> AuthenticatorBuilder" where
  "Required required b = b\<lparr>ab_required := required\<rparr>"

definition Build :: "AuthenticatorBuilder \<Rightarrow> authenticator" where
  "Build b =
     (case ab_authenticators b of
        [] \<Rightarrow> NoAuth_Authenticate
      | [a] \<Rightarrow> a
      | as \<Rightarrow> Composite_Authenticate (map Some as) (ab_required b))"

section \<open>What callers rely on\<close>

text \<open>Where authentication is required a request has a principal or is refused.\<close>

locale strict_authenticator =
  fixes authenticate :: authenticator
  assumes never_anonymous: "authenticate r \<noteq> Ok None"
begin

lemma principal_or_error: "(\<exists>p. authenticate r = Ok (Some p)) \<or> authenticate r = Err ErrUnauthorized"
  using never_anonymous [of r] by (metis auth_error.exhaust not_None_eq obj_sumE)

end

lemma JWKS_required: "a_Required cfg \<Longrightarrow> JWKS_Authenticate parse now cfg r \<noteq> Ok None"
  by (auto simp: JWKS_Authenticate_def reject_def Let_def split: sum.split option.split)

lemma APIKey_required: "fst (APIKey_Authenticate validate True r) \<noteq> Ok None"
  by (auto simp: APIKey_Authenticate_def Let_def split: sum.split)

lemma composite_loop_required: "composite_loop as lastErr True r \<noteq> Ok None"
proof (induction as arbitrary: lastErr)
  case Nil
  show ?case by (simp split: option.split)
next
  case (Cons a as)
  then show ?case by (cases a) (auto split: sum.split option.split)
qed

interpretation strict_jwks: strict_authenticator "JWKS_Authenticate parse now (cfg\<lparr>a_Required := True\<rparr>)" for parse now cfg
  by unfold_locales (simp add: JWKS_required)

interpretation strict_apikey: strict_authenticator "\<lambda>r. fst (APIKey_Authenticate validate True r)" for validate
  by unfold_locales (rule APIKey_required)

interpretation strict_composite: strict_authenticator "Composite_Authenticate as True" for as
  by unfold_locales (simp add: Composite_Authenticate_def composite_loop_required)


section \<open>Tokens\<close>

lemma contains_iff [simp]: "contains l s \<longleftrightarrow> s \<in> set l"
  by (induction l) auto

lemma audience_ok_claims:
  assumes "audience_ok auds (mget cl ''aud'')"
  shows "\<exists>aud\<in>set auds. aud \<in> set (claims_audience cl)"
proof -
  from assms consider (str) s where "mget cl ''aud'' = Some (AString s)" "s \<in> set auds"
    | (list) l where "mget cl ''aud'' = Some (AList l)"
        "\<exists>it\<in>set l. (case it of AString x \<Rightarrow> x | _ \<Rightarrow> []) \<noteq> [] \<and> (case it of AString x \<Rightarrow> x | _ \<Rightarrow> []) \<in> set auds"
    by (auto simp: audience_ok_def list_ex_iff Let_def split: option.splits any.splits)
  then show ?thesis
  proof cases
    case str
    then show ?thesis by (simp add: claims_audience_def)
  next
    case list
    then obtain it where it: "it \<in> set l" "(case it of AString x \<Rightarrow> x | _ \<Rightarrow> []) \<noteq> []"
      "(case it of AString x \<Rightarrow> x | _ \<Rightarrow> []) \<in> set auds" by blast
    from it(2,3) obtain x where "it = AString x" "x \<in> set auds" by (cases it) auto
    with list(1) it(1) have "x \<in> set (claims_audience cl)" by (auto simp: claims_audience_def set_map_filter intro!: bexI)
    with \<open>x \<in> set auds\<close> show ?thesis by blast
  qed
qed

text \<open>C25. What a token principal proves: the request carried a bearer token that the JWT library accepted as
  valid, its issuer and one of its audiences are configured ones where such are configured, a numeric
  expiry has not passed and a numeric start has come, both up to the clock skew, and the principal's
  subject, issuer and claims are those of the token.\<close>

theorem JWKS_principal_sound:
  assumes "JWKS_Authenticate parse now cfg header = Ok (Some p)"
  shows "\<exists>raw token cl. raw = TrimSpace (header ''Authorization'') \<and> token = TrimSpace (TrimPrefix raw ''Bearer'') \<and>
    token \<noteq> [] \<and> token \<noteq> raw \<and> parse token = Ok (Some True, cl) \<and>
    (a_Issuer cfg \<noteq> [] \<longrightarrow> mget cl ''iss'' = Some (AString (a_Issuer cfg))) \<and>
    (a_Audiences cfg \<noteq> [] \<longrightarrow> (\<exists>aud\<in>set (a_Audiences cfg). aud \<in> set (claims_audience cl))) \<and>
    (\<forall>v ts. mget cl ''exp'' = Some v \<and> asUnixSeconds v = Some ts \<longrightarrow> now \<le> unix_instant ts + a_ClockSkew cfg) \<and>
    (\<forall>v ts. mget cl ''nbf'' = Some v \<and> asUnixSeconds v = Some ts \<longrightarrow> unix_instant ts - a_ClockSkew cfg \<le> now) \<and>
    p = \<lparr>p_Subject = string_claim cl ''sub'', p_Issuer = string_claim cl ''iss'', p_Audience = claims_audience cl, p_Claims = Some cl\<rparr>"
proof -
  define raw where "raw = TrimSpace (header ''Authorization'')"
  define token where "token = TrimSpace (TrimPrefix raw ''Bearer'')"
  have r: "reject cfg \<noteq> Ok (Some p)" by (simp add: reject_def)
  from assms r obtain cl where t: "token \<noteq> raw" "token \<noteq> []" "parse token = Ok (Some True, cl)"
    "validateRegisteredClaims now cl cfg = None"
    "p = \<lparr>p_Subject = string_claim cl ''sub'', p_Issuer = string_claim cl ''iss'', p_Audience = claims_audience cl, p_Claims = Some cl\<rparr>"
    by (simp add: JWKS_Authenticate_def raw_def [symmetric] token_def [symmetric] Let_def split: result_splits)
      (auto simp: token_def)
  have iss: "a_Issuer cfg \<noteq> [] \<longrightarrow> mget cl ''iss'' = Some (AString (a_Issuer cfg))"
    using t(4) by (auto simp: validateRegisteredClaims_def string_claim_def split: if_splits option.splits any.splits)
  have "a_Audiences cfg \<noteq> [] \<longrightarrow> audience_ok (a_Audiences cfg) (mget cl ''aud'')"
    using t(4) by (auto simp: validateRegisteredClaims_def split: if_splits)
  then have aud: "a_Audiences cfg \<noteq> [] \<longrightarrow> (\<exists>aud\<in>set (a_Audiences cfg). aud \<in> set (claims_audience cl))"
    using audience_ok_claims by blast
  have ex: "\<forall>v ts. mget cl ''exp'' = Some v \<and> asUnixSeconds v = Some ts \<longrightarrow> now \<le> unix_instant ts + a_ClockSkew cfg"
    "\<forall>v ts. mget cl ''nbf'' = Some v \<and> asUnixSeconds v = Some ts \<longrightarrow> unix_instant ts - a_ClockSkew cfg \<le> now"
    using t(4) by (auto simp: validateRegisteredClaims_def time_Add_def split: if_splits)
  show ?thesis using raw_def token_def t iss aud ex by blast
qed

definition demo_parse :: jwt_parser where
  "demo_parse token =
     (if token = ''good'' then Ok (Some True, [(''iss'', AString ''idp''), (''sub'', AString ''ada''),
        (''aud'', AList [AString ''gateway'', AInt 7]), (''exp'', AFloat 1000)])
      else Err ''bad signature'')"

definition demo_auth :: Config where
  "demo_auth = \<lparr>a_Mode = ''jwt'', a_JWKSURL = ''u'', a_Issuer = ''idp'', a_Audiences = [''gateway''], a_Required = True,
     a_ClockSkew = 30 * Second\<rparr>"

theorem JWKS_principal_sound_witness:
  "(let now = unix_epoch + 900 * Second; p = JWKS_Authenticate demo_parse now demo_auth (\<lambda>h. ''Bearer good'')
    in case p of Inr (Some pr) \<Rightarrow> p_Subject pr = ''ada'' \<and> p_Issuer pr = ''idp'' \<and> p_Audience pr = [''gateway''] | _ \<Rightarrow> False)"
proof -
  let ?cl = "[(''iss'', AString ''idp''), (''sub'', AString ''ada''), (''aud'', AList [AString ''gateway'', AInt 7]), (''exp'', AFloat 1000)]"
  let ?p = "\<lparr>p_Subject = ''ada'', p_Issuer = ''idp'', p_Audience = [''gateway''], p_Claims = Some ?cl\<rparr>"
  have a: "JWKS_Authenticate demo_parse (unix_epoch + 900 * Second) demo_auth (\<lambda>h. ''Bearer good'') = Ok (Some ?p)" by code_simp
  have g: "TrimSpace (TrimPrefix (TrimSpace ''Bearer good'') ''Bearer'') = ''good''" by code_simp
  from JWKS_principal_sound [OF a] a show ?thesis by (auto simp: g Let_def)
qed

definition principals_of :: "authenticator option list \<Rightarrow> header \<Rightarrow> Principal list" where
  "principals_of as r =
     List.map_filter (\<lambda>a. case a of None \<Rightarrow> None | Some f \<Rightarrow> (case f r of Inr (Some p) \<Rightarrow> Some p | _ \<Rightarrow> None)) as"

lemma composite_loop_result:
  "composite_loop as lastErr required r =
     (case principals_of as r of
        p # ps \<Rightarrow> Ok (Some p)
      | [] \<Rightarrow> if required then Err ErrUnauthorized else Ok None)"
proof (induction as arbitrary: lastErr)
  case Nil
  show ?case by (simp add: principals_of_def map_filter_simps split: option.split) (metis auth_error.exhaust)
next
  case (Cons a as)
  then show ?case by (cases a) (auto simp: principals_of_def map_filter_simps split: sum.split option.split)
qed

text \<open>The composite authenticator answers with the principal of the first of its authenticators that
  finds one; when none does it refuses the request if authentication is required and lets it through
  without a principal otherwise.\<close>

theorem Composite_first_principal:
  "Composite_Authenticate as required r =
     (case principals_of as r of
        p # ps \<Rightarrow> Ok (Some p)
      | [] \<Rightarrow> if required then Err ErrUnauthorized else Ok None)"
  by (simp add: Composite_Authenticate_def composite_loop_result)

text \<open>The builder drops its \<open>Required\<close> setting when it holds one authenticator: what it builds is that
  authenticator, which may let requests through without a principal.\<close>

theorem Build_single_ignores_required:
  "Build (Required required (WithAuthenticator (Some a) NewAuthenticatorBuilder)) = a"
  by (simp add: Build_def Required_def WithAuthenticator_def NewAuthenticatorBuilder_def)

text \<open>An API key principal is backed by a live key: with the manager's store in any state a run with
  fresh IDs and keys can reach, a principal comes from a stored key that is neither revoked nor expired
  and whose hash is the hash of the credential; it carries that key's user and tenant.\<close>

theorem APIKey_principal_live:
  assumes "mem_fresh_run sha256 opl (fresh_manager cfg)"
    "m = run_manager sha256 memory_ops opl (fresh_manager cfg)"
    "APIKey_Authenticate (\<lambda>key. Validate sha256 memory_ops now key m) required header = (Ok (Some p), touched)"
  shows "\<exists>s k. dm_store m = Some s \<and> mget (ms_keys s) (ak_ID k) = Some k \<and>
    ak_KeyHash k = HashKey sha256 (request_key header) \<and> IsValid now k \<and>
    p_Subject p = ak_UserID k \<and> TenantID (Some p) = ak_TenantID k \<and> touched = Some (ak_ID k)"
proof -
  obtain k where k: "Validate sha256 memory_ops now (request_key header) m = Ok k" "p = key_principal k" "touched = Some (ak_ID k)"
    using assms(3) by (auto simp: APIKey_Authenticate_def Let_def split: result_splits)
  obtain s where s: "dm_store m = Some s" "mem.consistent s" using run_consistent [OF assms(1)] assms(2) by auto
  from mem.validate_sound [OF s k(1)] s(1) k(2,3) show ?thesis
    by (intro exI [of _ s] exI [of _ k]) (auto simp: IsValid_def key_principal_def TenantID_def not_less split: option.split)
qed

theorem APIKey_principal_live_witness:
  "(let m = run_manager demo_hash memory_ops [OpCreate (demo_inputs 0 ''a'') demo_request] (fresh_manager demo_config);
        (r, touched) = APIKey_Authenticate (\<lambda>key. Validate demo_hash memory_ops 9 key m) True
          (\<lambda>h. if h = ''X-API-Key'' then ''fmg_61'' else [])
    in touched = Some ''a'' \<and> (case r of Inr p \<Rightarrow> TenantID p = ''acme'' | _ \<Rightarrow> False))"
proof -
  let ?opl = "[OpCreate (demo_inputs 0 ''a'') demo_request]"
  let ?m = "run_manager demo_hash memory_ops ?opl (fresh_manager demo_config)"
  let ?h = "\<lambda>h. if h = ''X-API-Key'' then ''fmg_61'' else []"
  have f: "mem_fresh_run demo_hash ?opl (fresh_manager demo_config)" by code_simp
  have r: "request_key ?h = ''fmg_61''" by code_simp
  have v: "Validate demo_hash memory_ops 9 ''fmg_61'' ?m = Ok (demo_key 0 ''a'')" by code_simp
  have k: "ak_ID (demo_key 0 ''a'') = ''a''" "ak_TenantID (demo_key 0 ''a'') = ''acme''" by code_simp+
  have a: "APIKey_Authenticate (\<lambda>key. Validate demo_hash memory_ops 9 key ?m) True ?h =
      (Ok (Some (key_principal (demo_key 0 ''a''))), Some (ak_ID (demo_key 0 ''a'')))"
    unfolding APIKey_Authenticate_def r Let_def v by simp
  from APIKey_principal_live [OF f refl a] show ?thesis
    unfolding Let_def a by (auto simp: k key_principal_def TenantID_def)
qed

end
