(* ===== verification/Tenant.thy ===== *)
theory Tenant
  imports Auth
begin

text \<open>
  The package \<open>internal/tenant\<close>: which tenant a request belongs to (\<open>resolver.go\<close>), its configuration
  (\<open>tenant.go\<close>) and how the tenant travels with the request (\<open>context.go\<close>). A request context is a
  record of the two values this program stores in contexts, the principal and the tenant.

  Shown here: the tenant of a token cannot be changed by a header unless the configuration says so,
  every resolved tenant is named or the configured default, a required tenant is never defaulted, and
  the WebSocket variant agrees with the HTTP one when there is no tenant header.
\<close>

section \<open>Tenants and configuration\<close>

record Tenant =
  t_ID :: string
  t_Name :: string
  t_Plan :: string
  t_Metadata :: "(string, string) gomap"

definition zero_Tenant :: Tenant where
  "zero_Tenant = \<lparr>t_ID = [], t_Name = [], t_Plan = [], t_Metadata = []\<rparr>"

definition IsValid :: "Tenant \<Rightarrow> bool" where "IsValid t = (TrimSpace (t_ID t) \<noteq> [])"

definition DefaultTenant :: Tenant where
  "DefaultTenant = zero_Tenant\<lparr>t_ID := ''default'', t_Plan := ''free''\<rparr>"

record Config =
  tc_Enabled :: bool
  tc_Required :: bool
  tc_DefaultTenantID :: string
  tc_JWTClaim :: string
  tc_JWTNameClaim :: string
  tc_JWTPlanClaim :: string
  tc_HeaderName :: string
  tc_AllowHeaderOverride :: bool

definition envDefault :: "getenv \<Rightarrow> string \<Rightarrow> string \<Rightarrow> string" where
  "envDefault getenv key fallback = (let v = getenv key in if v \<noteq> [] then v else fallback)"

definition envBoolDefault :: "getenv \<Rightarrow> string \<Rightarrow> bool \<Rightarrow> bool" where
  "envBoolDefault getenv key fallback =
     (let v = TrimSpace (ToLower (getenv key))
      in if v = [] then fallback else v = ''true'' \<or> v = ''1'' \<or> v = ''yes'')"

definition LoadConfigFromEnv :: "getenv \<Rightarrow> Config" where
  "LoadConfigFromEnv getenv =
     \<lparr>tc_Enabled = envBoolDefault getenv ''FI_MCP_TENANT_ENABLED'' False,
      tc_Required = envBoolDefault getenv ''FI_MCP_TENANT_REQUIRED'' False,
      tc_DefaultTenantID = envDefault getenv ''FI_MCP_TENANT_DEFAULT_ID'' ''default'',
      tc_JWTClaim = envDefault getenv ''FI_MCP_TENANT_JWT_CLAIM'' ''tenant_id'',
      tc_JWTNameClaim = envDefault getenv ''FI_MCP_TENANT_JWT_NAME_CLAIM'' ''tenant_name'',
      tc_JWTPlanClaim = envDefault getenv ''FI_MCP_TENANT_JWT_PLAN_CLAIM'' ''tenant_plan'',
      tc_HeaderName = envDefault getenv ''FI_MCP_TENANT_HEADER'' ''X-Tenant-ID'',
      tc_AllowHeaderOverride = envBoolDefault getenv ''FI_MCP_TENANT_ALLOW_HEADER_OVERRIDE'' False\<rparr>"


section \<open>Resolution\<close>

datatype tenant_error = ErrTenantRequired

definition getStringClaim :: "claims \<Rightarrow> string \<Rightarrow> string" where
  "getStringClaim cl key =
     (if key = [] then []
      else (case mget cl key of
              None \<Rightarrow> []
            | Some v \<Rightarrow> (case v of AString s \<Rightarrow> TrimSpace s | _ \<Rightarrow> [])))"

definition extractFromClaims :: "Config \<Rightarrow> claims \<Rightarrow> Tenant" where
  "extractFromClaims cfg cl =
     (let tid = getStringClaim cl (tc_JWTClaim cfg);
          name = getStringClaim cl (tc_JWTNameClaim cfg);
          plan = getStringClaim cl (tc_JWTPlanClaim cfg);
          t1 = (if tid \<noteq> [] then zero_Tenant\<lparr>t_ID := tid\<rparr> else zero_Tenant);
          t2 = (if name \<noteq> [] then t1\<lparr>t_Name := name\<rparr> else t1)
      in if plan \<noteq> [] then t2\<lparr>t_Plan := plan\<rparr> else t2)"

definition extractFromHeader :: "Config \<Rightarrow> header option \<Rightarrow> Tenant" where
  "extractFromHeader cfg req =
     (case req of
        None \<Rightarrow> zero_Tenant
      | Some header \<Rightarrow>
          if tc_HeaderName cfg = [] then zero_Tenant
          else let tid = TrimSpace (header (tc_HeaderName cfg))
               in if tid = [] then zero_Tenant else zero_Tenant\<lparr>t_ID := tid\<rparr>)"

definition claims_tenant :: "Config \<Rightarrow> Principal option \<Rightarrow> Tenant" where
  "claims_tenant cfg pr =
     (case pr of
        None \<Rightarrow> zero_Tenant
      | Some p \<Rightarrow> (case p_Claims p of None \<Rightarrow> zero_Tenant | Some cl \<Rightarrow> extractFromClaims cfg cl))"

definition or_default :: "Config \<Rightarrow> Tenant \<Rightarrow> (tenant_error, Tenant) result" where
  "or_default cfg tenant =
     (if \<not> IsValid tenant
      then if tc_Required cfg then Err ErrTenantRequired
           else Ok (zero_Tenant\<lparr>t_ID := tc_DefaultTenantID cfg, t_Plan := ''free''\<rparr>)
      else Ok tenant)"

definition Resolve :: "Config \<Rightarrow> header option \<Rightarrow> Principal option \<Rightarrow> (tenant_error, Tenant) result" where
  "Resolve cfg req pr =
     (if \<not> tc_Enabled cfg then Ok DefaultTenant
      else let tenant = claims_tenant cfg pr;
               headerTenant = extractFromHeader cfg req;
               tenant' = (if IsValid headerTenant
                          then if \<not> IsValid tenant \<or> tc_AllowHeaderOverride cfg then headerTenant else tenant
                          else tenant)
           in or_default cfg tenant')"

definition ResolveFromPrincipal :: "Config \<Rightarrow> Principal option \<Rightarrow> (tenant_error, Tenant) result" where
  "ResolveFromPrincipal cfg pr =
     (if \<not> tc_Enabled cfg then Ok DefaultTenant else or_default cfg (claims_tenant cfg pr))"


section \<open>Contexts and middleware\<close>

record Context =
  x_principal :: "Principal option"
  x_tenant :: "Tenant option"

definition WithPrincipal :: "Context \<Rightarrow> Principal option \<Rightarrow> Context" where "WithPrincipal ctx p = ctx\<lparr>x_principal := p\<rparr>"

definition PrincipalFromContext :: "Context option \<Rightarrow> Principal option" where
  "PrincipalFromContext ctx = (case ctx of None \<Rightarrow> None | Some c \<Rightarrow> x_principal c)"

definition WithTenant :: "Context \<Rightarrow> Tenant \<Rightarrow> Context" where "WithTenant ctx t = ctx\<lparr>x_tenant := Some t\<rparr>"

definition FromContext :: "Context option \<Rightarrow> Tenant" where
  "FromContext ctx =
     (case ctx of None \<Rightarrow> DefaultTenant | Some c \<Rightarrow> (case x_tenant c of None \<Rightarrow> DefaultTenant | Some t \<Rightarrow> t))"

definition FromContextOK :: "Context option \<Rightarrow> Tenant \<times> bool" where
  "FromContextOK ctx =
     (case ctx of None \<Rightarrow> (zero_Tenant, False)
      | Some c \<Rightarrow> (case x_tenant c of None \<Rightarrow> (zero_Tenant, False) | Some t \<Rightarrow> (t, True)))"

definition IDFromContext :: "Context option \<Rightarrow> string" where "IDFromContext ctx = t_ID (FromContext ctx)"

text \<open>The middleware answers 401 with the error, or runs the next handler in the context with the tenant.\<close>

definition Handler :: "Config \<Rightarrow> header \<Rightarrow> Context \<Rightarrow> (Context \<Rightarrow> 'w) \<Rightarrow> (tenant_error \<Rightarrow> 'w) \<Rightarrow> 'w" where
  "Handler cfg header ctx next_handler unauthorized =
     (case Resolve cfg (Some header) (PrincipalFromContext (Some ctx)) of
        Inl er \<Rightarrow> unauthorized er
      | Inr tenant \<Rightarrow> next_handler (WithTenant ctx tenant))"


section \<open>Properties\<close>

lemma extractFromHeader_valid: "IsValid (extractFromHeader cfg req) \<Longrightarrow>
  t_ID (extractFromHeader cfg req) \<noteq> [] \<and> trimmed (t_ID (extractFromHeader cfg req))"
  by (auto simp: extractFromHeader_def IsValid_def zero_Tenant_def Let_def split: result_splits)

lemma claims_tenant_valid:
  "IsValid (claims_tenant cfg pr) \<Longrightarrow> \<exists>p cl. pr = Some p \<and> p_Claims p = Some cl \<and>
     t_ID (claims_tenant cfg pr) = getStringClaim cl (tc_JWTClaim cfg) \<and> getStringClaim cl (tc_JWTClaim cfg) \<noteq> []"
  by (auto simp: claims_tenant_def extractFromClaims_def IsValid_def zero_Tenant_def Let_def split: result_splits)

lemma Resolve_without_header:
  "\<not> IsValid (extractFromHeader cfg req) \<Longrightarrow> Resolve cfg req pr = ResolveFromPrincipal cfg pr"
  by (simp add: Resolve_def ResolveFromPrincipal_def)

text \<open>A caller cannot leave its tenant: when the principal's claims name a tenant and header overrides
  are not allowed, the request is resolved to that tenant, whatever its headers say.\<close>

theorem Resolve_claims_tenant:
  assumes "tc_Enabled cfg" "\<not> tc_AllowHeaderOverride cfg" "p_Claims p = Some cl"
    "getStringClaim cl (tc_JWTClaim cfg) \<noteq> []"
  shows "\<exists>t. Resolve cfg req (Some p) = Ok t \<and> t_ID t = getStringClaim cl (tc_JWTClaim cfg)"
proof -
  have id: "t_ID (claims_tenant cfg (Some p)) = getStringClaim cl (tc_JWTClaim cfg)"
    using assms(3,4) by (simp add: claims_tenant_def extractFromClaims_def zero_Tenant_def Let_def)
  have "TrimSpace (getStringClaim cl k) = getStringClaim cl k" for k
    by (simp add: getStringClaim_def split: option.split any.split)
  with id assms(4) have "IsValid (claims_tenant cfg (Some p))" by (simp add: IsValid_def)
  with assms(1,2) id show ?thesis by (auto simp: Resolve_def or_default_def Let_def)
qed

definition demo_tenants :: Config where
  "demo_tenants = \<lparr>tc_Enabled = True, tc_Required = True, tc_DefaultTenantID = ''default'', tc_JWTClaim = ''tenant_id'',
     tc_JWTNameClaim = [], tc_JWTPlanClaim = [], tc_HeaderName = ''X-Tenant-ID'', tc_AllowHeaderOverride = False\<rparr>"

theorem Resolve_claims_tenant_witness:
  "\<exists>t. Resolve demo_tenants (Some (\<lambda>h. ''evil'')) (Some \<lparr>p_Subject = ''ada'', p_Issuer = [], p_Audience = [],
      p_Claims = Some [(''tenant_id'', AString '' acme '')]\<rparr>) = Ok t \<and> t_ID t = ''acme''"
proof -
  let ?p = "\<lparr>p_Subject = ''ada'', p_Issuer = [], p_Audience = [], p_Claims = Some [(''tenant_id'', AString '' acme '')]\<rparr>"
  have c: "getStringClaim [(''tenant_id'', AString '' acme '')] (tc_JWTClaim demo_tenants) = ''acme''" by code_simp
  show ?thesis
    using Resolve_claims_tenant [of demo_tenants ?p "[(''tenant_id'', AString '' acme '')]"] c
    by (simp add: demo_tenants_def)
qed

text \<open>Where a tenant comes from: an enabled resolver returns the tenant of the claims, the tenant of the
  header, or, unless a tenant is required, the configured default; a required tenant is never defaulted
  but refused with an error.\<close>

theorem Resolve_source:
  assumes "tc_Enabled cfg"
  shows "(\<exists>p cl t. Resolve cfg req pr = Ok t \<and> pr = Some p \<and> p_Claims p = Some cl \<and>
            t_ID t = getStringClaim cl (tc_JWTClaim cfg) \<and> t_ID t \<noteq> []) \<or>
    (\<exists>h t. Resolve cfg req pr = Ok t \<and> req = Some h \<and> t_ID t = TrimSpace (h (tc_HeaderName cfg)) \<and> t_ID t \<noteq> []) \<or>
    Resolve cfg req pr = (if tc_Required cfg then Err ErrTenantRequired
      else Ok (zero_Tenant\<lparr>t_ID := tc_DefaultTenantID cfg, t_Plan := ''free''\<rparr>))"
proof -
  let ?c = "claims_tenant cfg pr" and ?h = "extractFromHeader cfg req"
  consider "IsValid ?h" "\<not> IsValid ?c \<or> tc_AllowHeaderOverride cfg" | "IsValid ?c" "\<not> IsValid ?h \<or> \<not> tc_AllowHeaderOverride cfg"
    | "\<not> IsValid ?c" "\<not> IsValid ?h" by blast
  then show ?thesis
  proof cases
    case 1
    then have "Resolve cfg req pr = Ok ?h" using assms by (simp add: Resolve_def or_default_def)
    moreover have "\<exists>h. req = Some h \<and> t_ID ?h = TrimSpace (h (tc_HeaderName cfg)) \<and> t_ID ?h \<noteq> []"
      using 1(1) by (auto simp: extractFromHeader_def IsValid_def zero_Tenant_def Let_def split: result_splits)
    ultimately show ?thesis by blast
  next
    case 2
    then have "Resolve cfg req pr = Ok ?c" using assms by (auto simp: Resolve_def or_default_def Let_def)
    with claims_tenant_valid [OF 2(1)] show ?thesis by force
  next
    case 3
    then show ?thesis using assms by (simp add: Resolve_def or_default_def)
  qed
qed

theorem Resolve_source_witness: "Resolve demo_tenants (Some (\<lambda>h. [])) None = Err ErrTenantRequired"
  using Resolve_source [of demo_tenants "Some (\<lambda>h. [])" None] by (auto simp: demo_tenants_def)

end

