(* ===== verification/Ratelimit.thy ===== *)
theory Ratelimit
  imports Go_Time
begin

text \<open>
  The package \<open>internal/ratelimit\<close>, file \<open>ratelimit.go\<close>: rate limit keys and their canonical strings,
  limits, results, and the configuration read from the environment. The operating system's
  environment is the argument \<open>getenv\<close>, the empty string for a variable that is not set.

  Shown here: the canonical strings of two keys differ when the keys differ and no component holds a
  colon, and the configuration never holds a negative rate or a window that is not positive.
\<close>

section \<open>Keys\<close>

record Key =
  k_Tenant :: string
  k_User :: string
  k_Team :: string
  k_Tool :: string
  k_Scope :: string

definition empty_Key :: Key where
  "empty_Key = \<lparr>k_Tenant = [], k_User = [], k_Team = [], k_Tool = [], k_Scope = []\<rparr>"

definition key_parts :: "Key \<Rightarrow> string list" where
  "key_parts k =
     (if k_Scope k \<noteq> [] then [''s:'' @ k_Scope k] else []) @
     (if k_Tenant k \<noteq> [] then [''t:'' @ k_Tenant k] else []) @
     (if k_Team k \<noteq> [] then [''tm:'' @ k_Team k] else []) @
     (if k_User k \<noteq> [] then [''u:'' @ k_User k] else []) @
     (if k_Tool k \<noteq> [] then [''tl:'' @ k_Tool k] else [])"

definition Key_String :: "Key \<Rightarrow> string" where
  "Key_String k = (let parts = key_parts k in if parts = [] then ''global'' else Join parts '':'')"


section \<open>Limits and results\<close>

record Limit =
  l_Requests :: int
  l_Window :: duration
  l_Burst :: int

definition RequestsPerSecond :: "Limit \<Rightarrow> rat" where
  "RequestsPerSecond l =
     (if l_Window l = 0 then 0 else fl (f64_of_int (l_Requests l) / Seconds (l_Window l)))"

definition EffectiveBurst :: "Limit \<Rightarrow> int" where
  "EffectiveBurst l = (if l_Burst l > 0 then l_Burst l else l_Requests l)"

record Result =
  r_Allowed :: bool
  r_Remaining :: int
  r_ResetAt :: time
  r_RetryAfter :: duration
  r_Limit :: Limit

text \<open>The zero value of \<open>Result\<close>, and the result \<open>Result{Allowed: true}\<close>.\<close>

definition zero_Limit :: Limit where "zero_Limit = \<lparr>l_Requests = 0, l_Window = 0, l_Burst = 0\<rparr>"

definition zero_Result :: Result where
  "zero_Result = \<lparr>r_Allowed = False, r_Remaining = 0, r_ResetAt = 0, r_RetryAfter = 0, r_Limit = zero_Limit\<rparr>"

definition allowed_Result :: Result where "allowed_Result = zero_Result\<lparr>r_Allowed := True\<rparr>"


section \<open>Configuration\<close>

record Config =
  c_Store :: string
  c_GlobalRPS :: int
  c_GlobalBurst :: int
  c_TenantRPS :: int
  c_TenantBurst :: int
  c_UserRPS :: int
  c_UserBurst :: int
  c_ToolRPS :: int
  c_ToolBurst :: int
  c_Window :: duration
  c_RedisURL :: string
  c_Enabled :: bool



definition envDefault :: "getenv \<Rightarrow> string \<Rightarrow> string \<Rightarrow> string" where
  "envDefault getenv key fallback = (let v = getenv key in if v \<noteq> [] then v else fallback)"

definition envIntDefault :: "getenv \<Rightarrow> string \<Rightarrow> int \<Rightarrow> int" where
  "envIntDefault getenv key fallback =
     (let v = TrimSpace (getenv key)
      in if v = [] then fallback
         else (case Atoi v of None \<Rightarrow> fallback | Some n \<Rightarrow> if n < 0 then fallback else n))"

definition envBoolDefault :: "getenv \<Rightarrow> string \<Rightarrow> bool \<Rightarrow> bool" where
  "envBoolDefault getenv key fallback =
     (let v = TrimSpace (ToLower (getenv key))
      in if v = [] then fallback else v = ''true'' \<or> v = ''1'' \<or> v = ''yes'')"

definition envDurationDefault :: "getenv \<Rightarrow> string \<Rightarrow> duration \<Rightarrow> duration" where
  "envDurationDefault getenv key fallback =
     (let v = TrimSpace (getenv key)
      in if v = [] then fallback
         else (case ParseDuration v of None \<Rightarrow> fallback | Some d \<Rightarrow> if d \<le> 0 then fallback else d))"

definition LoadConfigFromEnv :: "getenv \<Rightarrow> Config" where
  "LoadConfigFromEnv getenv =
     \<lparr>c_Store = envDefault getenv ''FI_MCP_RATELIMIT_STORE'' ''memory'',
      c_GlobalRPS = envIntDefault getenv ''FI_MCP_RATELIMIT_GLOBAL_RPS'' 1000,
      c_GlobalBurst = envIntDefault getenv ''FI_MCP_RATELIMIT_GLOBAL_BURST'' 0,
      c_TenantRPS = envIntDefault getenv ''FI_MCP_RATELIMIT_TENANT_RPS'' 500,
      c_TenantBurst = envIntDefault getenv ''FI_MCP_RATELIMIT_TENANT_BURST'' 0,
      c_UserRPS = envIntDefault getenv ''FI_MCP_RATELIMIT_USER_RPS'' 100,
      c_UserBurst = envIntDefault getenv ''FI_MCP_RATELIMIT_USER_BURST'' 0,
      c_ToolRPS = envIntDefault getenv ''FI_MCP_RATELIMIT_TOOL_RPS'' 50,
      c_ToolBurst = envIntDefault getenv ''FI_MCP_RATELIMIT_TOOL_BURST'' 0,
      c_Window = envDurationDefault getenv ''FI_MCP_RATELIMIT_WINDOW'' Second,
      c_RedisURL = getenv ''FI_MCP_RATELIMIT_REDIS_URL'',
      c_Enabled = envBoolDefault getenv ''FI_MCP_RATELIMIT_ENABLED'' False\<rparr>"

definition GlobalLimit :: "Config \<Rightarrow> Limit" where
  "GlobalLimit c = \<lparr>l_Requests = c_GlobalRPS c, l_Window = c_Window c, l_Burst = c_GlobalBurst c\<rparr>"

definition TenantLimit :: "Config \<Rightarrow> Limit" where
  "TenantLimit c = \<lparr>l_Requests = c_TenantRPS c, l_Window = c_Window c, l_Burst = c_TenantBurst c\<rparr>"

definition UserLimit :: "Config \<Rightarrow> Limit" where
  "UserLimit c = \<lparr>l_Requests = c_UserRPS c, l_Window = c_Window c, l_Burst = c_UserBurst c\<rparr>"

definition ToolLimit :: "Config \<Rightarrow> Limit" where
  "ToolLimit c = \<lparr>l_Requests = c_ToolRPS c, l_Window = c_Window c, l_Burst = c_ToolBurst c\<rparr>"

lemmas limit_defs = GlobalLimit_def TenantLimit_def UserLimit_def ToolLimit_def


section \<open>Well-formed limits\<close>

text \<open>A limit the bucket arithmetic is meant for: some requests in a positive window.\<close>

definition limit_ok :: "Limit \<Rightarrow> bool" where
  "limit_ok l \<longleftrightarrow> 0 \<le> l_Requests l \<and> 0 < l_Window l \<and> l_Window l \<le> max_int64"

definition config_ok :: "Config \<Rightarrow> bool" where
  "config_ok c \<longleftrightarrow> 0 \<le> c_GlobalRPS c \<and> 0 \<le> c_TenantRPS c \<and> 0 \<le> c_UserRPS c \<and> 0 \<le> c_ToolRPS c \<and>
     0 \<le> c_GlobalBurst c \<and> 0 \<le> c_TenantBurst c \<and> 0 \<le> c_UserBurst c \<and> 0 \<le> c_ToolBurst c \<and>
     0 < c_Window c \<and> c_Window c \<le> max_int64"

lemma config_ok_limits:
  "config_ok c \<Longrightarrow> limit_ok (GlobalLimit c) \<and> limit_ok (TenantLimit c) \<and> limit_ok (UserLimit c) \<and> limit_ok (ToolLimit c)"
  by (simp add: config_ok_def limit_ok_def limit_defs)

lemma RequestsPerSecond_nonneg: "limit_ok l \<Longrightarrow> 0 \<le> RequestsPerSecond l"
  by (simp add: limit_ok_def RequestsPerSecond_def Seconds_nonneg)

lemma EffectiveBurst_nonneg: "limit_ok l \<Longrightarrow> 0 \<le> EffectiveBurst l"
  by (simp add: limit_ok_def EffectiveBurst_def)

lemma envIntDefault_nonneg: "0 \<le> d \<Longrightarrow> 0 \<le> envIntDefault getenv k d"
  by (simp add: envIntDefault_def Let_def split: option.splits)

lemma envDurationDefault_bounds:
  "0 < d \<Longrightarrow> d \<le> max_int64 \<Longrightarrow>
   0 < envDurationDefault getenv k d \<and> envDurationDefault getenv k d \<le> max_int64"
  by (auto simp: envDurationDefault_def Let_def dest: ParseDuration_max split: option.splits)

text \<open>Whatever the environment holds, the loaded configuration has no negative rate or burst and
  a positive window that fits a \<open>time.Duration\<close>: a malformed or negative setting falls back to its
  default.\<close>

theorem LoadConfigFromEnv_ok: "config_ok (LoadConfigFromEnv getenv)"
  using envDurationDefault_bounds [of Second getenv "''FI_MCP_RATELIMIT_WINDOW''"]
  by (simp add: config_ok_def LoadConfigFromEnv_def envIntDefault_nonneg duration_units max_int64_def)


section \<open>Keys and their strings\<close>

definition colon_free :: "Key \<Rightarrow> bool" where
  "colon_free k \<longleftrightarrow> (\<forall>f \<in> {k_Scope k, k_Tenant k, k_Team k, k_User k, k_Tool k}. CHR '':'' \<notin> set f)"

text \<open>The tag and value of each non-empty component, in the order of the canonical string.\<close>

definition key_fields :: "Key \<Rightarrow> (string \<times> string) list" where
  "key_fields k = filter (\<lambda>(t, v). v \<noteq> [])
     [(''s'', k_Scope k), (''t'', k_Tenant k), (''tm'', k_Team k), (''u'', k_User k), (''tl'', k_Tool k)]"

lemma key_fields_inj: "key_fields k = key_fields k' \<Longrightarrow> k = k'"
proof -
  assume eq: "key_fields k = key_fields k'"
  define val where "val fs t = (case map_of fs t of None \<Rightarrow> [] | Some v \<Rightarrow> v)" for fs :: "(string \<times> string) list" and t
  have "val (key_fields x) ''s'' = k_Scope x" "val (key_fields x) ''t'' = k_Tenant x"
    "val (key_fields x) ''tm'' = k_Team x" "val (key_fields x) ''u'' = k_User x"
    "val (key_fields x) ''tl'' = k_Tool x" for x :: Key
    by (simp_all add: val_def key_fields_def)
  with eq show ?thesis by (metis Key.equality old.unit.exhaust)
qed

fun tagged :: "(string \<times> string) list \<Rightarrow> string list" where
  "tagged [] = []"
| "tagged ((t, v) # fs) = t # v # tagged fs"

lemma tagged_Nil_iff [simp]: "tagged fs = [] \<longleftrightarrow> fs = []"
  by (cases fs rule: tagged.cases) auto

lemma tagged_length: "length (tagged fs) = 2 * length fs"
  by (induction fs rule: tagged.induct) auto

lemma tagged_inj: "tagged fs = tagged gs \<Longrightarrow> fs = gs"
proof (induction fs arbitrary: gs rule: tagged.induct)
  case 1
  then show ?case by (metis tagged.simps(1) tagged_Nil_iff)
next
  case (2 t v fs)
  then show ?case by (cases gs rule: tagged.cases) auto
qed

lemma Join_tagged: "Join (map (\<lambda>(t, v). t @ '':'' @ v) fs) '':'' = Join (tagged fs) '':''"
  by (induction fs rule: tagged.induct) (auto simp: Join_Cons)

lemma key_parts_fields: "key_parts k = map (\<lambda>(t, v). t @ '':'' @ v) (key_fields k)"
  by (simp add: key_parts_def key_fields_def)

lemma Split_Key_String:
  assumes "colon_free k"
  shows "Split (Key_String k) CHR '':'' = (if key_fields k = [] then [''global''] else tagged (key_fields k))"
proof (cases "key_fields k = []")
  case True
  then show ?thesis by (simp add: Key_String_def key_parts_fields)
next
  case False
  then have "tagged (key_fields k) \<noteq> []" by simp
  moreover have "\<forall>f\<in>set (tagged (key_fields k)). CHR '':'' \<notin> set f"
    using assms by (auto simp: key_fields_def colon_free_def split: if_splits)
  ultimately have "Split (Join (tagged (key_fields k)) '':'') CHR '':'' = tagged (key_fields k)"
    by (rule Split_Join)
  with False show ?thesis
    by (simp only: Key_String_def key_parts_fields Let_def Join_tagged map_is_Nil_conv if_False)
qed

text \<open>Two keys without colons have the same storage string only when they are the same key: no
  tenant, team, user, tool or scope is charged to the bucket of another.\<close>

theorem Key_String_inj:
  assumes "colon_free k" "colon_free k'" "Key_String k = Key_String k'"
  shows "k = k'"
proof -
  have t: "tagged fs \<noteq> [x]" for fs x using tagged_length [of fs] by (cases fs rule: tagged.cases) auto
  have "Split (Key_String k) CHR '':'' = Split (Key_String k') CHR '':''" using assms(3) by simp
  then have "key_fields k = key_fields k'"
    using t t [symmetric]
    by (auto simp: Split_Key_String assms(1,2) dest: tagged_inj split: if_splits)
  then show ?thesis by (rule key_fields_inj)
qed

theorem Key_String_inj_witness:
  "(let k = empty_Key\<lparr>k_Scope := ''ws'', k_Tenant := ''acme'', k_User := ''u:1''\<rparr>;
        k1 = empty_Key\<lparr>k_Scope := ''ws'', k_Tenant := ''acme''\<rparr>;
        k2 = empty_Key\<lparr>k_Scope := ''ws'', k_User := ''acme''\<rparr>
    in \<not> colon_free k \<and> colon_free k1 \<and> colon_free k2 \<and> Key_String k1 \<noteq> Key_String k2)"
proof -
  let ?k1 = "empty_Key\<lparr>k_Scope := ''ws'', k_Tenant := ''acme''\<rparr>"
  let ?k2 = "empty_Key\<lparr>k_Scope := ''ws'', k_User := ''acme''\<rparr>"
  have c: "colon_free ?k1" "colon_free ?k2" by (simp_all add: colon_free_def empty_Key_def)
  have "?k1 \<noteq> ?k2" by (simp add: empty_Key_def)
  then have "Key_String ?k1 \<noteq> Key_String ?k2" using Key_String_inj [OF c] by blast
  with c show ?thesis by (simp add: Let_def colon_free_def empty_Key_def)
qed

end
