(* ===== verification/Ratelimit_Meter.thy ===== *)
theory Ratelimit_Meter
  imports Ratelimit
begin

text \<open>
  What the two token bucket stores of \<open>internal/ratelimit\<close> share. Both keep a number of tokens per key that is
  refilled with the time and capped at the burst, in float64 arithmetic. Here are the arithmetic of one refill and of
  one withdrawal, and the locale \<open>meter\<close>: a store whose operations grant no more than they take from a level that
  rises at a bounded rate. Its lemma \<open>run_bound\<close> bounds what any run of such operations grants. The locale is
  interpreted on the in-memory store (\<open>Ratelimit_Memory\<close>) and on the Redis store (\<open>Ratelimit_Redis\<close>).
\<close>

section \<open>Arithmetic of a bucket\<close>

abbreviation f64_burst :: "Limit \<Rightarrow> rat" where "f64_burst L \<equiv> f64_of_int (EffectiveBurst L)"

lemma f64_burst_nonneg: "limit_ok L \<Longrightarrow> 0 \<le> f64_burst L"
  by (simp add: EffectiveBurst_nonneg)

lemma slack_nonneg: "limit_ok L \<Longrightarrow> 0 \<le> unit_roundoff * f64_burst L"
  using f64_burst_nonneg roundoff_pos by (simp add: less_imp_le)

text \<open>The rounding of the refill and of the withdrawal of one operation.\<close>

abbreviation rounding_slack :: "Limit \<Rightarrow> rat" where "rounding_slack L \<equiv> 2 * unit_roundoff * f64_burst L"

text \<open>\<open>min(a, b)\<close> of \<open>memory.go\<close>, and \<open>math.min\<close> of the scripts.\<close>

definition f64_min :: "rat \<Rightarrow> rat \<Rightarrow> rat" where "f64_min a b = (if a < b then a else b)"

text \<open>A refill by at most \<open>g\<close> leaves at most what an exact refill would, but for one rounding.\<close>

lemma capped_refill:
  assumes "0 \<le> B" "0 \<le> tokens" "0 \<le> new" "new \<le> g"
  shows "f64_min B (fl (tokens + new)) \<le> min B (tokens + g) + unit_roundoff * B"
proof (cases "tokens + new \<le> B")
  case True
  have "fl (tokens + new) \<le> (tokens + new) * (1 + unit_roundoff)" using assms by (intro fl_upper) auto
  also have "\<dots> \<le> tokens + new + unit_roundoff * B"
    using mult_left_mono [OF True, of unit_roundoff] roundoff_pos by (simp add: algebra_simps)
  finally have "f64_min B (fl (tokens + new)) \<le> min B (tokens + new) + unit_roundoff * B"
    using True by (auto simp: f64_min_def)
  also have "min B (tokens + new) \<le> min B (tokens + g)" using assms(4) by (intro min.mono) auto
  finally show ?thesis by simp
next
  case False
  have "0 \<le> unit_roundoff * B" using assms(1) roundoff_pos by simp
  with False assms(4) show ?thesis by (auto simp: f64_min_def)
qed

lemma capped_range: "0 \<le> B \<Longrightarrow> 0 \<le> x \<Longrightarrow> 0 \<le> f64_min B (fl x) \<and> f64_min B (fl x) \<le> B"
  by (auto simp: f64_min_def)

text \<open>The tokens a withdrawal of \<open>n\<close> leaves.\<close>

definition taken :: "int \<Rightarrow> rat \<Rightarrow> rat" where
  "taken n tokens = (if tokens \<ge> f64_of_int n then fl (tokens - f64_of_int n) else tokens)"

lemma taken_bounds:
  assumes "0 \<le> n" "n \<le> 9007199254740992" "0 \<le> x" "x \<le> B"
  shows "0 \<le> taken n x" "of_int (if x \<ge> f64_of_int n then n else 0) + taken n x \<le> x + unit_roundoff * B"
    "fl B = B \<Longrightarrow> taken n x \<le> B"
proof -
  have n: "fl (of_int n) = (of_int n :: rat)" using assms by simp
  show "0 \<le> taken n x" using assms by (simp add: taken_def)
  have "fl (x - of_int n) \<le> (x - of_int n) + unit_roundoff * B" if "of_int n \<le> x"
  proof -
    have "fl (x - of_int n) \<le> (x - of_int n) * (1 + unit_roundoff)" using that by (intro fl_upper) simp
    moreover have "unit_roundoff * (x - of_int n) \<le> unit_roundoff * B"
      using assms roundoff_pos that by (intro mult_left_mono) (auto intro: order_trans [OF _ assms(4)])
    ultimately show ?thesis by (simp add: algebra_simps)
  qed
  then show "of_int (if x \<ge> f64_of_int n then n else 0) + taken n x \<le> x + unit_roundoff * B"
    using assms roundoff_pos n by (auto simp: taken_def)
  show "taken n x \<le> B" if "fl B = B"
    using fl_mono [of "x - of_int n" B] assms n that by (simp add: taken_def)
qed


section \<open>Metered runs\<close>

fun sum_grants :: "('op \<Rightarrow> 's \<Rightarrow> 's) \<Rightarrow> ('op \<Rightarrow> 's \<Rightarrow> int) \<Rightarrow> 'op list \<Rightarrow> 's \<Rightarrow> int" where
  "sum_grants step grant [] s = 0"
| "sum_grants step grant (op # ops) s = grant op s + sum_grants step grant ops (step op s)"

text \<open>A run in which the clock does not go back and every operation is admissible.\<close>

fun in_order :: "('op \<Rightarrow> int) \<Rightarrow> ('op \<Rightarrow> bool) \<Rightarrow> int \<Rightarrow> 'op list \<Rightarrow> bool" where
  "in_order op_time admissible t [] \<longleftrightarrow> True"
| "in_order op_time admissible t (op # ops) \<longleftrightarrow> t \<le> op_time op \<and> admissible op \<and> in_order op_time admissible (op_time op) ops"

definition run_until :: "('op \<Rightarrow> int) \<Rightarrow> int \<Rightarrow> 'op list \<Rightarrow> int" where
  "run_until op_time t ops = last (t # map op_time ops)"

lemma run_until_Cons: "run_until op_time t (op # ops) = run_until op_time (op_time op) ops"
  by (simp add: run_until_def)

locale meter =
  fixes op_time :: "'op \<Rightarrow> int"
    and step :: "'op \<Rightarrow> 's \<Rightarrow> 's"
    and grant :: "'op \<Rightarrow> 's \<Rightarrow> int"
    and cost :: "'op \<Rightarrow> rat"
    and admissible :: "'op \<Rightarrow> bool"
    and ok :: "int \<Rightarrow> 's \<Rightarrow> bool"
    and level :: "int \<Rightarrow> 's \<Rightarrow> rat"
    and rate :: rat
  assumes step_ok: "ok t s \<Longrightarrow> t \<le> op_time op \<Longrightarrow> admissible op \<Longrightarrow> ok (op_time op) (step op s)"
    and step_grant: "ok t s \<Longrightarrow> t \<le> op_time op \<Longrightarrow> admissible op \<Longrightarrow>
      of_int (grant op s) + level (op_time op) (step op s) \<le> level (op_time op) s + cost op"
    and level_rises: "ok t s \<Longrightarrow> t \<le> t' \<Longrightarrow> level t' s \<le> level t s + of_int (t' - t) * rate"
    and level_nonneg: "ok t s \<Longrightarrow> 0 \<le> level t s"
begin

lemma run_bound:
  assumes "ok t s" "in_order op_time admissible t ops"
  shows "of_int (sum_grants step grant ops s)
    \<le> level t s + of_int (run_until op_time t ops - t) * rate + sum_list (map cost ops)"
  using assms
proof (induction ops arbitrary: t s)
  case Nil
  then show ?case using level_nonneg by (simp add: run_until_def)
next
  case (Cons op ops)
  then have t: "t \<le> op_time op" and adm: "admissible op" and run: "in_order op_time admissible (op_time op) ops" by auto
  from Cons.IH [OF step_ok [OF Cons.prems(1) t adm] run] step_grant [OF Cons.prems(1) t adm] level_rises [OF Cons.prems(1) t]
  show ?case by (simp add: run_until_Cons algebra_simps)
qed

end

end
