(* ===== verification/Ratelimit_Memory.thy ===== *)
theory Ratelimit_Memory
  imports Ratelimit_Meter
begin

text \<open>
  The package \<open>internal/ratelimit\<close>, file \<open>memory.go\<close>: the in-memory token bucket store, with its
  float64 arithmetic. Every method runs under the store's lock, so a run of the store is a sequence
  of the operations below. What an operation reads from outside, the state of its context and the
  clock, is its argument of type \<open>call_env\<close>.

  Shown here: an admission bound. Over any run of takes, peeks, resets and cleanups, with any number
  of other keys in between, the tokens granted on a key are at most one burst per reset and one burst
  more, the refill of the elapsed time, and a rounding error of two units in the last place of the
  burst per operation. Further: cleanup is never seen by a later take, takes of one key leave the
  others alone, and the buckets stay between 0 and the burst.
\<close>

section \<open>The store\<close>

text \<open>What an operation reads from outside: \<open>ctx.Err()\<close> and \<open>s.clock()\<close>.\<close>

record call_env =
  e_Err :: "string option"
  e_Now :: time

record bucket =
  b_tokens :: rat
  b_lastUpdate :: time
  b_limit :: Limit

text \<open>The closed channel \<open>done\<close> is the flag \<open>m_closed\<close>.\<close>

record MemoryStore =
  m_buckets :: "(string, bucket) gomap"
  m_cleanupInterval :: duration
  m_closed :: bool

definition NewMemoryStore :: "(MemoryStore \<Rightarrow> MemoryStore) list \<Rightarrow> MemoryStore" where
  "NewMemoryStore opts =
     fold (\<lambda>opt s. opt s) opts \<lparr>m_buckets = [], m_cleanupInterval = 5 * Minute, m_closed = False\<rparr>"

definition WithCleanupInterval :: "duration \<Rightarrow> MemoryStore \<Rightarrow> MemoryStore" where
  "WithCleanupInterval d s = s\<lparr>m_cleanupInterval := d\<rparr>"

definition getOrCreateBucket :: "string \<Rightarrow> Limit \<Rightarrow> time \<Rightarrow> MemoryStore \<Rightarrow> bucket \<times> MemoryStore" where
  "getOrCreateBucket key limit now s =
     (case mget (m_buckets s) key of
        Some b \<Rightarrow> (b, s)
      | None \<Rightarrow>
          let b = \<lparr>b_tokens = f64_of_int (EffectiveBurst limit), b_lastUpdate = now, b_limit = limit\<rparr>
          in (b, s\<lparr>m_buckets := mput key b (m_buckets s)\<rparr>))"

definition calculateResetTime :: "time \<Rightarrow> Limit \<Rightarrow> time" where
  "calculateResetTime now limit = time_Add now (l_Window limit)"

text \<open>The tokens of a bucket after the refill for the time since its last update.\<close>

definition refilled :: "Limit \<Rightarrow> time \<Rightarrow> bucket \<Rightarrow> rat" where
  "refilled limit now b =
     (let elapsed = time_Sub now (b_lastUpdate b);
          newTokens = f64_mul (Seconds elapsed) (RequestsPerSecond limit)
      in f64_min (f64_of_int (EffectiveBurst limit)) (f64_add (b_tokens b) newTokens))"

text \<open>\<open>time.Duration(tokensNeeded / refillRate * float64(time.Second))\<close>; a rate of 0 gives an
  infinity.\<close>

definition retry_after :: "rat \<Rightarrow> rat \<Rightarrow> duration" where
  "retry_after tokensNeeded refillRate =
     f64_to_int64 (case f64_div tokensNeeded refillRate of
                     None \<Rightarrow> None | Some q \<Rightarrow> Some (f64_mul q (f64_of_int Second)))"

definition Take :: "call_env \<Rightarrow> string \<Rightarrow> Limit \<Rightarrow> int \<Rightarrow> MemoryStore \<Rightarrow> (string, Result) result \<times> MemoryStore" where
  "Take e key limit n s =
     (case e_Err e of
        Some er \<Rightarrow> (Err er, s)
      | None \<Rightarrow>
          let now = e_Now e;
              (b, s1) = getOrCreateBucket key limit now s;
              tokens = refilled limit now b;
              b1 = b\<lparr>b_tokens := tokens, b_lastUpdate := now\<rparr>
          in if tokens \<ge> f64_of_int n
             then let tokens' = f64_sub tokens (f64_of_int n);
                      b2 = b1\<lparr>b_tokens := tokens'\<rparr>
                  in (Ok \<lparr>r_Allowed = True, r_Remaining = f64_to_int64 (Some tokens'),
                          r_ResetAt = calculateResetTime now limit, r_RetryAfter = 0, r_Limit = limit\<rparr>,
                      s1\<lparr>m_buckets := mput key b2 (m_buckets s1)\<rparr>)
             else let tokensNeeded = f64_sub (f64_of_int n) tokens
                  in (Ok \<lparr>r_Allowed = False, r_Remaining = f64_to_int64 (Some tokens),
                          r_ResetAt = calculateResetTime now limit,
                          r_RetryAfter = retry_after tokensNeeded (RequestsPerSecond limit), r_Limit = limit\<rparr>,
                      s1\<lparr>m_buckets := mput key b1 (m_buckets s1)\<rparr>))"

definition Peek :: "call_env \<Rightarrow> string \<Rightarrow> Limit \<Rightarrow> MemoryStore \<Rightarrow> (string, Result) result" where
  "Peek e key limit s =
     (case e_Err e of
        Some er \<Rightarrow> Err er
      | None \<Rightarrow>
          let now = e_Now e
          in (case mget (m_buckets s) key of
                None \<Rightarrow> Ok \<lparr>r_Allowed = True, r_Remaining = EffectiveBurst limit,
                           r_ResetAt = calculateResetTime now limit, r_RetryAfter = 0, r_Limit = limit\<rparr>
              | Some b \<Rightarrow>
                  let currentTokens = refilled limit now b
                  in Ok \<lparr>r_Allowed = (currentTokens \<ge> 1), r_Remaining = f64_to_int64 (Some currentTokens),
                         r_ResetAt = calculateResetTime now limit, r_RetryAfter = 0, r_Limit = limit\<rparr>))"

definition Reset :: "call_env \<Rightarrow> string \<Rightarrow> MemoryStore \<Rightarrow> (string, unit) result \<times> MemoryStore" where
  "Reset e key s =
     (case e_Err e of
        Some er \<Rightarrow> (Err er, s)
      | None \<Rightarrow> (Ok (), s\<lparr>m_buckets := mdel key (m_buckets s)\<rparr>))"

text \<open>\<open>Close\<close> closes the channel \<open>done\<close>; closing it again panics (\<open>None\<close>).\<close>

definition Close :: "MemoryStore \<Rightarrow> MemoryStore option" where
  "Close s = (if m_closed s then None else Some (s\<lparr>m_closed := True\<rparr>))"

definition expired_bucket :: "duration \<Rightarrow> time \<Rightarrow> bucket \<Rightarrow> bool" where
  "expired_bucket cleanupInterval now b =
     (let elapsed = time_Sub now (b_lastUpdate b); refillRate = RequestsPerSecond (b_limit b)
      in elapsed > wrap64 (cleanupInterval * 2) \<and> refillRate > 0 \<and>
         f64_add (b_tokens b) (f64_mul (Seconds elapsed) refillRate) \<ge> f64_of_int (EffectiveBurst (b_limit b)))"

definition cleanup :: "time \<Rightarrow> MemoryStore \<Rightarrow> MemoryStore" where
  "cleanup now s =
     s\<lparr>m_buckets := filter (\<lambda>(key, b). \<not> expired_bucket (m_cleanupInterval s) now b) (m_buckets s)\<rparr>"

section \<open>Arithmetic of a refill\<close>

lemma Seconds_0 [simp]: "Seconds 0 = 0"
  by (simp add: Seconds_def float_units_def)

lemma time_Sub_self [simp]: "time_Sub t t = 0"
  by (simp add: time_Sub_exact min_int64_def max_int64_def)

lemma Seconds_mono:
  assumes "0 \<le> d" "d \<le> d'" "d' \<le> max_int64"
  shows "Seconds d \<le> Seconds d'"
proof -
  let ?f = "\<lambda>d. fl (of_int (d mod Second) / of_int Second)"
  have S: "Seconds x = fl (of_int (x div Second) + ?f x)" if "0 \<le> x" "x \<le> max_int64" for x
  proof -
    have "0 \<le> x div Second" "x div Second \<le> 9223372036" "0 \<le> x mod Second" "x mod Second < Second"
      using that by (simp_all add: duration_units max_int64_def pos_imp_zdiv_nonneg_iff)
    then show ?thesis
      using that by (simp add: Seconds_def float_units_def sdiv_smod_nonneg duration_units)
  qed
  have f: "0 \<le> ?f x" "?f x \<le> 1" for x
    using fl_mono [of "of_int (x mod Second) / of_int Second" 1] fl_of_int [of 1]
    by (auto simp: duration_units less_imp_le)
  have "d div Second \<le> d' div Second" using assms by (simp add: zdiv_mono1 duration_units)
  then consider "d div Second = d' div Second" | "d div Second + 1 \<le> d' div Second" by linarith
  then have "of_int (d div Second) + ?f d \<le> of_int (d' div Second) + ?f d'"
  proof cases
    case 1
    have "d mod Second \<le> d' mod Second"
      using assms 1 by (simp add: minus_div_mult_eq_mod [symmetric])
    then have "?f d \<le> ?f d'" by (intro fl_mono divide_right_mono) (simp_all add: duration_units)
    with 1 show ?thesis by simp
  next
    case 2
    then have "(of_int (d div Second) + 1 :: rat) \<le> of_int (d' div Second)"
      by (metis of_int_1 of_int_add of_int_le_iff)
    with f [of d] f [of d'] show ?thesis by linarith
  qed
  then show ?thesis using assms by (simp add: S fl_mono)
qed

text \<open>The refill of a limit in tokens per nanosecond, with the three roundings of its computation, and
  the burst as the code compares with it.\<close>

definition refill_rate :: "Limit \<Rightarrow> rat" where
  "refill_rate L = RequestsPerSecond L * (1 + unit_roundoff) ^ 3 / of_int Second"

definition new_tokens :: "Limit \<Rightarrow> time \<Rightarrow> bucket \<Rightarrow> rat" where
  "new_tokens L now b = f64_mul (Seconds (time_Sub now (b_lastUpdate b))) (RequestsPerSecond L)"

lemma refilled_new: "refilled L now b = f64_min (f64_burst L) (fl (b_tokens b + new_tokens L now b))"
  by (simp add: refilled_def new_tokens_def Let_def)

lemma refill_rate_nonneg: "limit_ok L \<Longrightarrow> 0 \<le> refill_rate L"
  using roundoff_pos by (simp add: refill_rate_def RequestsPerSecond_nonneg duration_units)

lemma new_tokens_bounds:
  assumes "limit_ok L" "b_lastUpdate b \<le> now"
  shows "0 \<le> new_tokens L now b" "new_tokens L now b \<le> of_int (now - b_lastUpdate b) * refill_rate L"
proof -
  let ?d = "time_Sub now (b_lastUpdate b)" and ?r = "RequestsPerSecond L" and ?c = "1 + unit_roundoff"
  have d: "0 \<le> ?d" "?d \<le> max_int64" "?d \<le> now - b_lastUpdate b"
    using time_Sub_le [OF assms(2)] by auto
  have r: "0 \<le> ?r" using assms(1) by (rule RequestsPerSecond_nonneg)
  show "0 \<le> new_tokens L now b" using d r by (simp add: new_tokens_def Seconds_nonneg)
  have c: "0 \<le> ?c" using roundoff_pos by simp
  have "new_tokens L now b \<le> Seconds ?d * ?r * ?c"
    unfolding new_tokens_def using d r by (intro fl_upper mult_nonneg_nonneg Seconds_nonneg) auto
  also have "\<dots> \<le> of_int ?d / of_int Second * ?c ^ 2 * ?r * ?c"
    using Seconds_upper [OF d(1,2)] r c by (intro mult_right_mono) auto
  also have "\<dots> = of_int ?d * refill_rate L"
    by (simp add: refill_rate_def power2_eq_square power3_eq_cube)
  also have "\<dots> \<le> of_int (now - b_lastUpdate b) * refill_rate L"
    using d(3) refill_rate_nonneg [OF assms(1)] by (intro mult_right_mono) (simp_all only: of_int_le_iff)
  finally show "new_tokens L now b \<le> of_int (now - b_lastUpdate b) * refill_rate L" .
qed

lemma new_tokens_mono:
  assumes "limit_ok L" "b_lastUpdate b \<le> now" "now \<le> now'"
  shows "new_tokens L now b \<le> new_tokens L now' b"
proof -
  have "time_Sub now (b_lastUpdate b) \<le> time_Sub now' (b_lastUpdate b)"
    using assms(3) by (auto simp: time_Sub_def min_int64_def max_int64_def)
  then show ?thesis
    unfolding new_tokens_def
    using time_Sub_le [OF assms(2)] time_Sub_le [of "b_lastUpdate b" now'] assms RequestsPerSecond_nonneg [OF assms(1)]
    by (intro fl_mono mult_right_mono Seconds_mono) auto
qed

lemma refilled_bounds:
  assumes "limit_ok L" "b_lastUpdate b \<le> now" "0 \<le> b_tokens b"
  shows "0 \<le> refilled L now b" "refilled L now b \<le> f64_burst L"
  using new_tokens_bounds(1) [OF assms(1,2)] f64_burst_nonneg [OF assms(1)] assms(3)
  by (auto simp: refilled_new f64_min_def)

section \<open>Runs of the store\<close>

datatype store_op =
    OTake call_env string Limit int
  | OPeek call_env string Limit
  | OReset call_env string
  | OCleanup time

fun op_time :: "store_op \<Rightarrow> time" where
  "op_time (OTake e key limit n) = e_Now e"
| "op_time (OPeek e key limit) = e_Now e"
| "op_time (OReset e key) = e_Now e"
| "op_time (OCleanup now) = now"

fun op_step :: "store_op \<Rightarrow> MemoryStore \<Rightarrow> MemoryStore" where
  "op_step (OTake e key limit n) s = snd (Take e key limit n s)"
| "op_step (OPeek e key limit) s = s"
| "op_step (OReset e key) s = snd (Reset e key s)"
| "op_step (OCleanup now) s = cleanup now s"

text \<open>The tokens an operation grants on a key, and those a run grants.\<close>

fun op_grant :: "string \<Rightarrow> store_op \<Rightarrow> MemoryStore \<Rightarrow> int" where
  "op_grant k (OTake e key limit n) s =
     (if key = k then (case fst (Take e key limit n s) of Inr r \<Rightarrow> if r_Allowed r then n else 0 | Inl _ \<Rightarrow> 0) else 0)"
| "op_grant k _ s = 0"

abbreviation granted :: "string \<Rightarrow> store_op list \<Rightarrow> MemoryStore \<Rightarrow> int" where
  "granted k \<equiv> sum_grants op_step (op_grant k)"

definition resets_of :: "string \<Rightarrow> store_op list \<Rightarrow> nat" where
  "resets_of k ops = length (filter (\<lambda>op. case op of OReset e key \<Rightarrow> key = k | _ \<Rightarrow> False) ops)"

text \<open>The runs considered: the clock does not go back, and every take of the key uses its one limit and
  a count a float64 represents exactly.\<close>

fun op_ok :: "string \<Rightarrow> Limit \<Rightarrow> store_op \<Rightarrow> bool" where
  "op_ok k L (OTake e key limit n) \<longleftrightarrow> (if key = k then limit = L \<and> 0 \<le> n \<and> n \<le> 9007199254740992 else True)"
| "op_ok k L _ \<longleftrightarrow> True"

abbreviation run_ok :: "string \<Rightarrow> Limit \<Rightarrow> time \<Rightarrow> store_op list \<Rightarrow> bool" where
  "run_ok k L \<equiv> in_order op_time (op_ok k L)"

abbreviation run_end :: "time \<Rightarrow> store_op list \<Rightarrow> time" where
  "run_end \<equiv> run_until op_time"

text \<open>The invariant: the bucket of the key, if there is one, was made for the limit, was last updated in
  the past, and holds between no tokens and one burst.\<close>

definition bucket_ok :: "Limit \<Rightarrow> time \<Rightarrow> bucket \<Rightarrow> bool" where
  "bucket_ok L t b \<longleftrightarrow> b_limit b = L \<and> b_lastUpdate b \<le> t \<and> 0 \<le> b_tokens b \<and> b_tokens b \<le> f64_burst L"

definition store_ok :: "string \<Rightarrow> Limit \<Rightarrow> time \<Rightarrow> MemoryStore \<Rightarrow> bool" where
  "store_ok k L t s \<longleftrightarrow> mwf (m_buckets s) \<and>
     (case mget (m_buckets s) k of None \<Rightarrow> True | Some b \<Rightarrow> bucket_ok L t b)"

lemma store_ok_New: "store_ok k L t (NewMemoryStore [])"
  by (simp add: store_ok_def NewMemoryStore_def)

text \<open>The bucket a take works on, and what it leaves there.\<close>

definition bucket_for :: "string \<Rightarrow> Limit \<Rightarrow> time \<Rightarrow> MemoryStore \<Rightarrow> bucket" where
  "bucket_for k L now s =
     (case mget (m_buckets s) k of
        Some b \<Rightarrow> b
      | None \<Rightarrow> \<lparr>b_tokens = f64_burst L, b_lastUpdate = now, b_limit = L\<rparr>)"

lemma Take_buckets:
  assumes "e_Err e = None"
  shows "mget (m_buckets (snd (Take e key L n s))) k =
    (if k = key
     then Some ((bucket_for key L (e_Now e) s)
       \<lparr>b_tokens := taken n (refilled L (e_Now e) (bucket_for key L (e_Now e) s)), b_lastUpdate := e_Now e\<rparr>)
     else mget (m_buckets s) k)"
  using assms
  by (simp add: Take_def getOrCreateBucket_def bucket_for_def taken_def Let_def split: option.split)

lemma Take_result:
  assumes "e_Err e = None"
  shows "\<exists>r. fst (Take e key L n s) = Ok r \<and>
    r_Allowed r = (refilled L (e_Now e) (bucket_for key L (e_Now e) s) \<ge> f64_of_int n)"
  using assms
  by (simp add: Take_def getOrCreateBucket_def bucket_for_def Let_def split: option.split)

lemma Take_err: "e_Err e = Some er \<Longrightarrow> Take e key L n s = (Err er, s)"
  by (simp add: Take_def)

lemma Take_mwf: "mwf (m_buckets s) \<Longrightarrow> mwf (m_buckets (snd (Take e key L n s)))"
  by (auto simp: Take_def getOrCreateBucket_def Let_def split: option.split)

lemma bucket_for_ok:
  assumes "limit_ok L" "store_ok k L t s" "t \<le> now"
  shows "bucket_ok L now (bucket_for k L now s)"
  using assms f64_burst_nonneg [OF assms(1)]
  by (auto simp: store_ok_def bucket_ok_def bucket_for_def split: option.splits)

lemma cleanup_bucket:
  assumes "mwf (m_buckets s)"
  shows "mget (m_buckets (cleanup now s)) k =
    (case mget (m_buckets s) k of None \<Rightarrow> None
     | Some b \<Rightarrow> if expired_bucket (m_cleanupInterval s) now b then None else Some b)"
  using assms by (simp add: cleanup_def mget_filter split: option.split)

lemma cleanup_mwf: "mwf (m_buckets s) \<Longrightarrow> mwf (m_buckets (cleanup now s))"
  by (simp add: cleanup_def)

text \<open>The tokens a key can hold at an instant, with an exact refill.\<close>

definition level :: "string \<Rightarrow> Limit \<Rightarrow> time \<Rightarrow> MemoryStore \<Rightarrow> rat" where
  "level k L t s =
     (case mget (m_buckets s) k of
        None \<Rightarrow> f64_burst L
      | Some b \<Rightarrow> min (f64_burst L) (b_tokens b + of_int (t - b_lastUpdate b) * refill_rate L))"

lemma refilled_level:
  assumes "limit_ok L" "bucket_ok L now b"
  shows "refilled L now b
    \<le> min (f64_burst L) (b_tokens b + of_int (now - b_lastUpdate b) * refill_rate L) + unit_roundoff * f64_burst L"
  using assms(2) f64_burst_nonneg [OF assms(1)] new_tokens_bounds [OF assms(1)]
  by (simp only: refilled_new) (intro capped_refill; simp add: bucket_ok_def)

lemma level_for:
  assumes "limit_ok L"
  shows "level k L now s =
    min (f64_burst L) (b_tokens (bucket_for k L now s)
      + of_int (now - b_lastUpdate (bucket_for k L now s)) * refill_rate L)"
  by (simp add: level_def bucket_for_def split: option.split)

lemma level_later:
  assumes "limit_ok L" "t \<le> t'"
  shows "level k L t' s \<le> level k L t s + of_int (t' - t) * refill_rate L"
proof -
  have "0 \<le> of_int (t' - t) * refill_rate L"
    using assms refill_rate_nonneg [OF assms(1)] by (intro mult_nonneg_nonneg) (simp_all only: of_int_0_le_iff)
  then show ?thesis by (auto simp: level_def algebra_simps min_def split: option.split)
qed

lemma level_bounds:
  assumes "limit_ok L" "store_ok k L t s"
  shows "0 \<le> level k L t s" "level k L t s \<le> f64_burst L"
  using assms f64_burst_nonneg [OF assms(1)] refill_rate_nonneg [OF assms(1)]
  by (auto simp: level_def store_ok_def bucket_ok_def intro!: add_nonneg_nonneg mult_nonneg_nonneg split: option.splits)

text \<open>One operation keeps the invariant and grants no more than the level it takes away, but for the
  rounding of the refill and of the subtraction.\<close>

definition op_cost :: "string \<Rightarrow> Limit \<Rightarrow> store_op \<Rightarrow> rat" where
  "op_cost k L op = rounding_slack L + of_nat (resets_of k [op]) * f64_burst L"

lemma Take_step:
  assumes L: "limit_ok L" and s: "store_ok k L t s" and now: "t \<le> e_Now e" and n: "0 \<le> n" "n \<le> 9007199254740992"
  shows "store_ok k L (e_Now e) (snd (Take e k L n s))"
    "of_int (op_grant k (OTake e k L n) s) + level k L (e_Now e) (snd (Take e k L n s))
      \<le> level k L (e_Now e) s + rounding_slack L"
proof -
  let ?B = "f64_burst L" and ?now = "e_Now e"
  define b where "b = bucket_for k L ?now s"
  have b: "bucket_ok L ?now b" unfolding b_def using L s now by (rule bucket_for_ok)
  define x where "x = refilled L ?now b"
  have x: "0 \<le> x" "x \<le> ?B" using refilled_bounds L b by (auto simp: x_def bucket_ok_def)
  note tk = taken_bounds [OF n x]
  have lev: "x \<le> level k L ?now s + unit_roundoff * ?B"
    using refilled_level [OF L b] by (simp add: x_def b_def level_for [OF L])
  have "store_ok k L ?now (snd (Take e k L n s)) \<and>
    of_int (op_grant k (OTake e k L n) s) + level k L ?now (snd (Take e k L n s)) \<le> level k L ?now s + rounding_slack L"
  proof (cases "e_Err e")
    case (Some er)
    with s now slack_nonneg [OF L] show ?thesis
      by (auto simp: Take_err store_ok_def bucket_ok_def split: option.splits)
  next
    case None
    obtain r where r: "fst (Take e k L n s) = Ok r" "r_Allowed r = (x \<ge> f64_of_int n)"
      using Take_result [OF None, of k L n s] by (auto simp: x_def b_def)
    have lv: "level k L ?now (snd (Take e k L n s)) = taken n x"
      using tk(3) by (simp add: level_def Take_buckets [OF None] x_def b_def)
    have "bucket_ok L ?now (b\<lparr>b_tokens := taken n x, b_lastUpdate := ?now\<rparr>)"
      using b tk(1,3) by (simp add: bucket_ok_def)
    then have "store_ok k L ?now (snd (Take e k L n s))"
      using s by (auto simp: store_ok_def Take_mwf Take_buckets [OF None] x_def b_def)
    moreover have "op_grant k (OTake e k L n) s = (if x \<ge> f64_of_int n then n else 0)"
      using r by simp
    ultimately show ?thesis using tk(2) lev lv by simp
  qed
  then show "store_ok k L ?now (snd (Take e k L n s))"
    "of_int (op_grant k (OTake e k L n) s) + level k L ?now (snd (Take e k L n s)) \<le> level k L ?now s + rounding_slack L"
    by auto
qed

lemma cleanup_step:
  assumes L: "limit_ok L" and s: "store_ok k L t s" and now: "t \<le> now"
  shows "store_ok k L now (cleanup now s) \<and> level k L now (cleanup now s) \<le> level k L now s + rounding_slack L"
proof (cases "mget (m_buckets s) k")
  case None
  with s slack_nonneg [OF L] show ?thesis
    by (simp add: store_ok_def cleanup_bucket level_def cleanup_mwf)
next
  case (Some b)
  have wf: "mwf (m_buckets s)" using s by (simp add: store_ok_def)
  have b: "bucket_ok L now b" using s now Some by (auto simp: store_ok_def bucket_ok_def)
  have "f64_burst L \<le> level k L now s + unit_roundoff * f64_burst L"
    if "expired_bucket (m_cleanupInterval s) now b"
  proof -
    from that b have "f64_burst L \<le> fl (b_tokens b + new_tokens L now b)"
      by (auto simp: expired_bucket_def new_tokens_def bucket_ok_def Let_def)
    then have "refilled L now b = f64_burst L" by (auto simp: refilled_new f64_min_def)
    with refilled_level [OF L b] Some show ?thesis by (simp add: level_def)
  qed
  with wf b Some slack_nonneg [OF L] show ?thesis
    by (auto simp: store_ok_def cleanup_bucket cleanup_mwf level_def)
qed

lemma store_ok_later: "store_ok k L t s \<Longrightarrow> t \<le> t' \<Longrightarrow> store_ok k L t' s"
  by (auto simp: store_ok_def bucket_ok_def split: option.splits)

lemma Reset_step:
  assumes L: "limit_ok L" and s: "store_ok k L t s" and now: "t \<le> e_Now e"
  shows "store_ok k L (e_Now e) (snd (Reset e key s)) \<and>
    level k L (e_Now e) (snd (Reset e key s)) \<le> level k L (e_Now e) s + op_cost k L (OReset e key)"
  using store_ok_later [OF s now] level_bounds(1) [OF L store_ok_later [OF s now]] slack_nonneg [OF L]
    f64_burst_nonneg [OF L]
  by (auto simp: Reset_def store_ok_def level_def op_cost_def resets_of_def split: option.split)

lemma op_cost_ge: "limit_ok L \<Longrightarrow> rounding_slack L \<le> op_cost k L op"
  using f64_burst_nonneg by (simp add: op_cost_def)

lemma op_step_bound:
  assumes L: "limit_ok L" and s: "store_ok k L t s" and t: "t \<le> op_time op" and op: "op_ok k L op"
  shows "store_ok k L (op_time op) (op_step op s) \<and>
    of_int (op_grant k op s) + level k L (op_time op) (op_step op s) \<le> level k L (op_time op) s + op_cost k L op"
proof (cases op)
  case (OTake e key limit n)
  show ?thesis
  proof (cases "key = k")
    case True
    with OTake op Take_step [OF L s, of e n] t op_cost_ge [OF L, of k op] show ?thesis by auto
  next
    case False
    have "mget (m_buckets (op_step op s)) k = mget (m_buckets s) k"
      using False OTake by (cases "e_Err e") (simp_all add: Take_err Take_buckets)
    moreover have "mwf (m_buckets (op_step op s))" using OTake s by (simp add: Take_mwf store_ok_def)
    ultimately show ?thesis
      using OTake False store_ok_later [OF s t] op_cost_ge [OF L, of k op] slack_nonneg [OF L]
      by (simp add: store_ok_def level_def)
  qed
next
  case (OPeek e key limit)
  with store_ok_later [OF s t] op_cost_ge [OF L, of k op] slack_nonneg [OF L] show ?thesis by simp
next
  case (OReset e key)
  with Reset_step [OF L s] t show ?thesis by simp
next
  case (OCleanup now)
  with cleanup_step [OF L s, of now] t op_cost_ge [OF L, of k op] show ?thesis by simp
qed

text \<open>The store is metered, for every key and limit.\<close>

interpretation bucket_meter: meter op_time op_step "op_grant k" "op_cost k L" "op_ok k L" "\<lambda>t s. limit_ok L \<and> store_ok k L t s" "level k L" "refill_rate L"
  for k L
  by unfold_locales (use op_step_bound level_later level_bounds in auto)

lemma cost_sum: "sum_list (map (op_cost k L) ops) = of_nat (length ops) * rounding_slack L + of_nat (resets_of k ops) * f64_burst L"
  by (induction ops) (simp_all add: op_cost_def resets_of_def algebra_simps)

lemma bucket_run_bound:
  assumes "limit_ok L" "store_ok k L t s" "run_ok k L t ops"
  shows "of_int (granted k ops s)
    \<le> level k L t s + of_int (run_end t ops - t) * refill_rate L
      + of_nat (length ops) * rounding_slack L + of_nat (resets_of k ops) * f64_burst L"
  using bucket_meter.run_bound [where k = k and L = L] assms by (simp add: cost_sum algebra_simps)

text \<open>C14. Admission bound of the token bucket: over any run of takes, peeks, resets and cleanups in which
  the clock does not go back and the key is taken with one limit, the tokens granted on the key are at
  most its burst, one burst more per reset, the refill of the elapsed time at the configured rate, and
  the rounding of two float64 operations per step.\<close>

theorem Take_admission_bound:
  assumes "limit_ok L" "store_ok k L t s" "run_ok k L t ops"
  shows "of_int (granted k ops s)
    \<le> f64_burst L * (1 + of_nat (resets_of k ops))
      + of_int (run_end t ops - t) * (RequestsPerSecond L * (1 + unit_roundoff) ^ 3 / of_int Second)
      + of_nat (length ops) * (2 * unit_roundoff * f64_burst L)"
  using bucket_run_bound [OF assms] level_bounds(2) [OF assms(1,2)]
  by (simp add: refill_rate_def algebra_simps)

definition two_per_second :: Limit where
  "two_per_second = \<lparr>l_Requests = 2, l_Window = 1000000000, l_Burst = 0\<rparr>"

theorem Take_admission_bound_witness:
  "(let L = two_per_second; k = ''s:ws:u:ada''; t = unix_epoch; s = NewMemoryStore [];
        take = (\<lambda>t. OTake \<lparr>e_Err = None, e_Now = t\<rparr> k L 1);
        ops = [take t, take t, take t, OCleanup (t + 1), take (t + 500000000), OReset \<lparr>e_Err = None, e_Now = t + 600000000\<rparr> k,
               take (t + 600000000)]
    in limit_ok L \<and> store_ok k L t s \<and> run_ok k L t ops \<and>
       of_int (granted k ops s)
         \<le> f64_burst L * (1 + of_nat (resets_of k ops))
           + of_int (run_end t ops - t) * (RequestsPerSecond L * (1 + unit_roundoff) ^ 3 / of_int Second)
           + of_nat (length ops) * (2 * unit_roundoff * f64_burst L))"
proof -
  let ?L = two_per_second and ?k = "''s:ws:u:ada''" and ?t = unix_epoch and ?s = "NewMemoryStore []"
  let ?take = "\<lambda>t. OTake \<lparr>e_Err = None, e_Now = t\<rparr> ?k ?L 1"
  let ?ops = "[?take ?t, ?take ?t, ?take ?t, OCleanup (?t + 1), ?take (?t + 500000000),
    OReset \<lparr>e_Err = None, e_Now = ?t + 600000000\<rparr> ?k, ?take (?t + 600000000)]"
  have L: "limit_ok ?L" by (simp add: limit_ok_def two_per_second_def max_int64_def)
  have ops: "run_ok ?k ?L ?t ?ops" by simp
  from L ops store_ok_New Take_admission_bound [OF L store_ok_New ops] show ?thesis by (simp only: Let_def simp_thms)
qed


section \<open>What a client of the store relies on\<close>

lemma bucket_for_Take: "key' \<noteq> key \<Longrightarrow>
  mget (m_buckets (snd (Take e key L n s))) key' = mget (m_buckets s) key'"
  by (cases "e_Err e") (simp_all add: Take_err Take_buckets)

lemma refilled_fresh: "fl B = B \<Longrightarrow> B = f64_burst L \<Longrightarrow>
  refilled L now \<lparr>b_tokens = B, b_lastUpdate = now, b_limit = l\<rparr> = B"
  by (simp add: refilled_def Let_def f64_min_def)

text \<open>Cleanup is never seen: a bucket is dropped only when it is full, so a later take of its key
  returns the same result and leaves the same bucket as if no cleanup had happened.\<close>

theorem cleanup_unobservable:
  assumes "limit_ok L" "store_ok k L t s" "t \<le> now" "now \<le> e_Now e"
  shows "fst (Take e k L n (cleanup now s)) = fst (Take e k L n s) \<and>
    (e_Err e = None \<longrightarrow>
      mget (m_buckets (snd (Take e k L n (cleanup now s)))) k = mget (m_buckets (snd (Take e k L n s))) k)"
proof (cases "mget (m_buckets s) k")
  case None
  with assms(2) have "mget (m_buckets (cleanup now s)) k = None" by (simp add: cleanup_bucket store_ok_def)
  with None show ?thesis by (simp add: Take_def getOrCreateBucket_def Let_def split: option.split)
next
  case (Some b)
  have b: "bucket_ok L now b" using assms(2,3) Some by (auto simp: store_ok_def bucket_ok_def)
  show ?thesis
  proof (cases "expired_bucket (m_cleanupInterval s) now b")
    case False
    with assms(2) Some have "mget (m_buckets (cleanup now s)) k = Some b"
      by (simp add: cleanup_bucket store_ok_def)
    with Some show ?thesis by (simp add: Take_def getOrCreateBucket_def Let_def split: option.split)
  next
    case True
    with assms(2) Some have gone: "mget (m_buckets (cleanup now s)) k = None"
      by (simp add: cleanup_bucket store_ok_def)
    from True b have "f64_burst L \<le> fl (b_tokens b + new_tokens L now b)"
      by (auto simp: expired_bucket_def new_tokens_def bucket_ok_def Let_def)
    also have "\<dots> \<le> fl (b_tokens b + new_tokens L (e_Now e) b)"
      using new_tokens_mono [OF assms(1) _ assms(4)] b by (intro fl_mono) (auto simp: bucket_ok_def)
    finally have full: "refilled L (e_Now e) b = f64_burst L" by (auto simp: refilled_new f64_min_def)
    have fresh: "refilled L (e_Now e) \<lparr>b_tokens = f64_burst L, b_lastUpdate = e_Now e, b_limit = L\<rparr> = f64_burst L"
      by (rule refilled_fresh) simp_all
    have "b_limit b = L" using b by (simp add: bucket_ok_def)
    with Some gone full fresh show ?thesis
      by (simp add: Take_def getOrCreateBucket_def Let_def split: option.split)
  qed
qed

theorem cleanup_unobservable_witness:
  "(let L = two_per_second; k = ''s:ws:u:ada''; t = unix_epoch;
        s = \<lparr>m_buckets = [(k, \<lparr>b_tokens = 1, b_lastUpdate = t, b_limit = L\<rparr>)], m_cleanupInterval = 5 * Minute, m_closed = False\<rparr>;
        e = \<lparr>e_Err = None, e_Now = t + Hour\<rparr>
    in fst (Take e k L 1 (cleanup (t + Hour) s)) = fst (Take e k L 1 s))"
proof -
  let ?L = two_per_second and ?k = "''s:ws:u:ada''"
  let ?b = "\<lparr>b_tokens = 1, b_lastUpdate = unix_epoch, b_limit = ?L\<rparr>"
  let ?s = "\<lparr>m_buckets = [(?k, ?b)], m_cleanupInterval = 5 * Minute, m_closed = False\<rparr>"
  have L: "limit_ok ?L" by (simp add: limit_ok_def two_per_second_def max_int64_def)
  have "fl 2 = (2 :: rat)" using fl_of_int [of 2] by simp
  then have s: "store_ok ?k ?L unix_epoch ?s"
    by (simp add: store_ok_def bucket_ok_def two_per_second_def EffectiveBurst_def)
  have t: "unix_epoch \<le> unix_epoch + Hour" by (simp add: duration_units)
  show ?thesis
    using cleanup_unobservable [OF L s t, of "\<lparr>e_Err = None, e_Now = unix_epoch + Hour\<rparr>" 1] by (simp only: Let_def) simp
qed

text \<open>A bucket at the instant of its last update, holding a whole number of tokens.\<close>

definition holds :: "string \<Rightarrow> Limit \<Rightarrow> time \<Rightarrow> int \<Rightarrow> MemoryStore \<Rightarrow> bool" where
  "holds k L t j s \<longleftrightarrow>
     (case mget (m_buckets s) k of
        None \<Rightarrow> j = EffectiveBurst L
      | Some b \<Rightarrow> b_tokens b = of_int j \<and> b_lastUpdate b = t)"

lemma holds_refilled:
  assumes "holds k L t j s" "0 \<le> j" "j \<le> EffectiveBurst L" "EffectiveBurst L \<le> 9007199254740992"
  shows "refilled L t (bucket_for k L t s) = of_int j"
  using assms by (auto simp: holds_def bucket_for_def refilled_def f64_min_def Let_def split: option.splits)

lemma Take_holds:
  assumes "holds k L t j s" "0 \<le> j" "j \<le> EffectiveBurst L" "EffectiveBurst L \<le> 9007199254740992"
  shows "op_grant k (OTake \<lparr>e_Err = None, e_Now = t\<rparr> k L 1) s = (if 1 \<le> j then 1 else 0)"
    "holds k L t (if 1 \<le> j then j - 1 else j) (op_step (OTake \<lparr>e_Err = None, e_Now = t\<rparr> k L 1) s)"
proof -
  let ?e = "\<lparr>e_Err = None, e_Now = t\<rparr>"
  have one: "fl 1 = (1 :: rat)" using fl_of_int [of 1] by simp
  have j: "(1 :: rat) \<le> of_int j \<longleftrightarrow> 1 \<le> j" by (metis of_int_1 of_int_le_iff)
  note r = holds_refilled [OF assms]
  show "op_grant k (OTake ?e k L 1) s = (if 1 \<le> j then 1 else 0)"
    using Take_result [of ?e k L 1 s] r one j by auto
  have "fl (of_int j - 1) = (of_int (j - 1) :: rat)" using fl_of_int [of "j - 1"] assms by simp
  then show "holds k L t (if 1 \<le> j then j - 1 else j) (op_step (OTake ?e k L 1) s)"
    using r one j by (simp add: holds_def Take_buckets taken_def)
qed

text \<open>At one instant a fresh key is granted exactly its burst: of any number of single takes the first
  burst many succeed and the rest are denied.\<close>

theorem Take_burst_exact:
  assumes "limit_ok L" "EffectiveBurst L \<le> 9007199254740992"
  shows "granted k (replicate m (OTake \<lparr>e_Err = None, e_Now = t\<rparr> k L 1)) (NewMemoryStore []) =
    min (int m) (EffectiveBurst L)"
proof -
  have "granted k (replicate m (OTake \<lparr>e_Err = None, e_Now = t\<rparr> k L 1)) s = min (int m) j"
    if "holds k L t j s" "0 \<le> j" "j \<le> EffectiveBurst L" for s j
    using that
  proof (induction m arbitrary: s j)
    case (Suc m)
    note step = Take_holds [OF Suc.prems assms(2)]
    show ?case
      using Suc.prems step Suc.IH [OF step(2)] by (auto simp: min_def simp del: op_grant.simps op_step.simps)
  qed simp
  from this [of "EffectiveBurst L" "NewMemoryStore []"] show ?thesis
    using EffectiveBurst_nonneg [OF assms(1)] by (simp add: holds_def NewMemoryStore_def)
qed

theorem Take_burst_exact_witness:
  "granted ''s:ws:u:ada'' (replicate 7 (OTake \<lparr>e_Err = None, e_Now = unix_epoch\<rparr> ''s:ws:u:ada'' two_per_second 1))
     (NewMemoryStore []) = 2"
  using Take_burst_exact [of two_per_second "''s:ws:u:ada''" 7 unix_epoch]
  by (simp add: limit_ok_def two_per_second_def max_int64_def EffectiveBurst_def del: sum_grants.simps replicate.simps)

end
