(* ===== verification/Ratelimit_Limiter.thy ===== *)
theory Ratelimit_Limiter
  imports Ratelimit_Memory
begin

text \<open>
  The package \<open>internal/ratelimit\<close>, files \<open>limiter.go\<close>, \<open>adapter.go\<close> and \<open>middleware.go\<close>: the limiter
  that checks the tool, user, tenant and global limits of a request in this order, its adapter for
  the WebSocket gateway and its HTTP middleware.

  The limiter works on any store: the definitions take the store's operations as arguments, and the
  locale \<open>rate_store\<close> states what the limiter relies on. The locale is interpreted on the in-memory
  store. The environment of a call is a sequence: its element \<open>i\<close> is the context and the clock the
  \<open>i\<close>-th store operation of the call sees.

  Shown here: which requests are admitted and what a denial leaves behind, that the four buckets of
  one request are always different, that admitted requests respect the global bound, that a failing
  store admits every request, and what \<open>Peek\<close> and \<open>Reset\<close> do.
\<close>

section \<open>The hierarchy of limits\<close>

record limitCheck =
  lc_key :: string
  lc_limit :: Limit

definition buildLimitChecks :: "Config \<Rightarrow> Key \<Rightarrow> limitCheck list" where
  "buildLimitChecks cfg key =
     (if k_Tool key \<noteq> [] \<and> c_ToolRPS cfg > 0
      then [\<lparr>lc_key = Key_String (empty_Key\<lparr>k_Scope := k_Scope key, k_Tenant := k_Tenant key, k_User := k_User key, k_Tool := k_Tool key\<rparr>),
             lc_limit = ToolLimit cfg\<rparr>] else []) @
     (if k_User key \<noteq> [] \<and> c_UserRPS cfg > 0
      then [\<lparr>lc_key = Key_String (empty_Key\<lparr>k_Scope := k_Scope key, k_Tenant := k_Tenant key, k_User := k_User key\<rparr>),
             lc_limit = UserLimit cfg\<rparr>] else []) @
     (if k_Tenant key \<noteq> [] \<and> c_TenantRPS cfg > 0
      then [\<lparr>lc_key = Key_String (empty_Key\<lparr>k_Scope := k_Scope key, k_Tenant := k_Tenant key\<rparr>),
             lc_limit = TenantLimit cfg\<rparr>] else []) @
     (if c_GlobalRPS cfg > 0
      then [\<lparr>lc_key = Key_String (empty_Key\<lparr>k_Scope := ''global''\<rparr>), lc_limit = GlobalLimit cfg\<rparr>] else [])"


section \<open>The limiter\<close>

text \<open>The limiter's store is absent when rate limiting is disabled.\<close>

record 's HierarchicalLimiter =
  h_store :: "'s option"
  h_cfg :: Config
  h_enabled :: bool

text \<open>The error \<open>ErrRateLimited\<close>, returned together with the result that caused it.\<close>

datatype limit_error = ErrRateLimited

type_synonym 's take_fn = "call_env \<Rightarrow> string \<Rightarrow> Limit \<Rightarrow> int \<Rightarrow> 's \<Rightarrow> (string, Result) result \<times> 's"
type_synonym 's peek_fn = "call_env \<Rightarrow> string \<Rightarrow> Limit \<Rightarrow> 's \<Rightarrow> (string, Result) result"
type_synonym 's reset_fn = "call_env \<Rightarrow> string \<Rightarrow> 's \<Rightarrow> (string, unit) result \<times> 's"
type_synonym call_envs = "nat \<Rightarrow> call_env"

text \<open>\<open>New\<close>: \<open>newRedisStore\<close> is \<open>newRedisStoreFromConfig\<close>, which connects to the server, and \<open>newMemory\<close>
  the in-memory store as a store of the chosen kind.\<close>

definition New :: "(Config \<Rightarrow> (string, 's) result) \<Rightarrow> 's \<Rightarrow> Config \<Rightarrow> (string, 's HierarchicalLimiter) result" where
  "New newRedisStore newMemory cfg =
     (if \<not> c_Enabled cfg then Ok \<lparr>h_store = None, h_cfg = cfg, h_enabled = False\<rparr>
      else if c_Store cfg = ''redis''
      then (case newRedisStore cfg of
              Inl er \<Rightarrow> Err er
            | Inr st \<Rightarrow> Ok \<lparr>h_store = Some st, h_cfg = cfg, h_enabled = True\<rparr>)
      else if c_Store cfg = ''memory'' \<or> c_Store cfg = []
      then Ok \<lparr>h_store = Some newMemory, h_cfg = cfg, h_enabled = True\<rparr>
      else Err (''unknown rate limit store: '' @ c_Store cfg))"

fun allow_loop :: "'s take_fn \<Rightarrow> call_envs \<Rightarrow> int \<Rightarrow> limitCheck list \<Rightarrow> 's \<Rightarrow> Result \<times> limit_error option \<times> 's" where
  "allow_loop take_op env n [] s = (allowed_Result, None, s)"
| "allow_loop take_op env n (c # cs) s =
     (case take_op (env 0) (lc_key c) (lc_limit c) n s of
        (Inl er, s') \<Rightarrow> allow_loop take_op (\<lambda>i. env (Suc i)) n cs s'
      | (Inr r, s') \<Rightarrow>
          if \<not> r_Allowed r then (r, Some ErrRateLimited, s')
          else allow_loop take_op (\<lambda>i. env (Suc i)) n cs s')"

text \<open>An enabled limiter always has a store: \<open>New\<close> and \<open>NewFromRedisClient\<close> set both together, so the
  case of an enabled limiter without one (a nil dereference) returns \<open>None\<close>.\<close>

definition AllowN :: "'s take_fn \<Rightarrow> call_envs \<Rightarrow> Key \<Rightarrow> int \<Rightarrow> 's HierarchicalLimiter \<Rightarrow>
    (Result \<times> limit_error option \<times> 's HierarchicalLimiter) option" where
  "AllowN take_op env key n l =
     (if \<not> h_enabled l then Some (allowed_Result, None, l)
      else (case h_store l of
              None \<Rightarrow> None
            | Some st \<Rightarrow>
                let (r, er, st') = allow_loop take_op env n (buildLimitChecks (h_cfg l) key) st
                in Some (r, er, l\<lparr>h_store := Some st'\<rparr>)))"

definition Allow :: "'s take_fn \<Rightarrow> call_envs \<Rightarrow> Key \<Rightarrow> 's HierarchicalLimiter \<Rightarrow>
    (Result \<times> limit_error option \<times> 's HierarchicalLimiter) option" where
  "Allow take_op env key l = AllowN take_op env key 1 l"

fun peek_loop :: "'s peek_fn \<Rightarrow> call_envs \<Rightarrow> limitCheck list \<Rightarrow> Result \<Rightarrow> 's \<Rightarrow> Result" where
  "peek_loop peek_op env [] worst s = worst"
| "peek_loop peek_op env (c # cs) worst s =
     (case peek_op (env 0) (lc_key c) (lc_limit c) s of
        Inl er \<Rightarrow> peek_loop peek_op (\<lambda>i. env (Suc i)) cs worst s
      | Inr r \<Rightarrow>
          if \<not> r_Allowed r then r
          else peek_loop peek_op (\<lambda>i. env (Suc i)) cs
                 (if r_Remaining r < r_Remaining worst \<or> \<not> r_Allowed worst then r else worst) s)"

definition Limiter_Peek :: "'s peek_fn \<Rightarrow> call_envs \<Rightarrow> Key \<Rightarrow> 's HierarchicalLimiter \<Rightarrow> Result option" where
  "Limiter_Peek peek_op env key l =
     (if \<not> h_enabled l then Some allowed_Result
      else (case h_store l of
              None \<Rightarrow> None
            | Some st \<Rightarrow> Some (peek_loop peek_op env (buildLimitChecks (h_cfg l) key) allowed_Result st)))"

definition Limiter_Reset :: "'s reset_fn \<Rightarrow> call_env \<Rightarrow> Key \<Rightarrow> 's HierarchicalLimiter \<Rightarrow>
    (string, unit) result \<times> 's HierarchicalLimiter" where
  "Limiter_Reset reset_op e key l =
     (case h_store l of
        None \<Rightarrow> (Ok (), l)
      | Some st \<Rightarrow>
          if \<not> h_enabled l then (Ok (), l)
          else let (r, st') = reset_op e (Key_String key) st in (r, l\<lparr>h_store := Some st'\<rparr>))"

definition Limiter_Close :: "('s \<Rightarrow> 's option) \<Rightarrow> 's HierarchicalLimiter \<Rightarrow> 's HierarchicalLimiter option" where
  "Limiter_Close close_op l =
     (case h_store l of
        None \<Rightarrow> Some l
      | Some st \<Rightarrow> (case close_op st of None \<Rightarrow> None | Some st' \<Rightarrow> Some (l\<lparr>h_store := Some st'\<rparr>)))"

text \<open>The limiter that admits everything.\<close>

definition Noop_AllowN :: "Key \<Rightarrow> int \<Rightarrow> Result \<times> limit_error option" where
  "Noop_AllowN key n = (allowed_Result, None)"


section \<open>The adapter of the WebSocket gateway\<close>

text \<open>\<open>CheckMessage\<close> returns whether the message may pass and how long to wait; a nil adapter or limiter
  is \<open>None\<close>. The metrics it sets are in the theory \<open>Metrics\<close>.\<close>

definition CheckMessage :: "'s take_fn \<Rightarrow> call_envs \<Rightarrow> string \<Rightarrow> string \<Rightarrow> string \<Rightarrow> 's HierarchicalLimiter option \<Rightarrow>
    (bool \<times> duration \<times> 's HierarchicalLimiter option) option" where
  "CheckMessage take_op env tenant user tool a =
     (case a of
        None \<Rightarrow> Some (True, 0, a)
      | Some l \<Rightarrow>
          if \<not> h_enabled l then Some (True, 0, a)
          else (case Allow take_op env (empty_Key\<lparr>k_Scope := ''ws'', k_Tenant := tenant, k_User := user, k_Tool := tool\<rparr>) l of
                  None \<Rightarrow> None
                | Some (r, er, l') \<Rightarrow>
                    if er = Some ErrRateLimited then Some (False, r_RetryAfter r, Some l')
                    else Some (r_Allowed r, r_RetryAfter r, Some l')))"


section \<open>The HTTP middleware\<close>

text \<open>What the middleware writes: the headers set so far, and the status and body of a reply. A header
  is kept under the name it is set with.\<close>

type_synonym headers = "(string, string) gomap"

record http_reply =
  hr_headers :: headers
  hr_status :: int
  hr_body :: string

definition DefaultKeyFunc :: "(string \<Rightarrow> string) \<Rightarrow> Key" where
  "DefaultKeyFunc header =
     empty_Key\<lparr>k_Scope := ''http'', k_Tenant := header ''X-Tenant-ID'', k_User := header ''X-User-ID''\<rparr>"

definition setRateLimitHeaders :: "Result \<Rightarrow> headers \<Rightarrow> headers" where
  "setRateLimitHeaders result h =
     (let h1 = (if l_Requests (r_Limit result) > 0 then mput ''X-RateLimit-Limit'' (Itoa (l_Requests (r_Limit result))) h else h);
          h2 = (if r_Remaining result \<ge> 0 then mput ''X-RateLimit-Remaining'' (Itoa (r_Remaining result)) h1 else h1)
      in if \<not> IsZero (r_ResetAt result) then mput ''X-RateLimit-Reset'' (Itoa (Unix (r_ResetAt result))) h2 else h2)"

definition writeRateLimitedResponse :: "Result \<Rightarrow> headers \<Rightarrow> http_reply" where
  "writeRateLimitedResponse result h =
     (let h1 = setRateLimitHeaders result h;
          h2 = (if r_RetryAfter result > 0
                then mput ''Retry-After'' (Itoa (f64_to_int64 (Some (Seconds (r_RetryAfter result))))) h1 else h1)
      in \<lparr>hr_headers = h2, hr_status = 429,
          hr_body = ''{\"error\":\"rate_limited\",\"message\":\"too many requests\"}''\<rparr>)"

text \<open>The middleware around a handler \<open>next\<close>, which replies from the headers set before it runs.\<close>

definition Handler :: "(Key \<Rightarrow> 'l \<Rightarrow> Result \<times> limit_error option \<times> 'l) \<Rightarrow> Key \<Rightarrow> (headers \<Rightarrow> http_reply) \<Rightarrow> 'l \<Rightarrow>
    http_reply \<times> 'l" where
  "Handler allow key next_handler l =
     (case allow key l of
        (result, er, l') \<Rightarrow>
          if er = Some ErrRateLimited then (writeRateLimitedResponse result [], l')
          else (next_handler (setRateLimitHeaders result []), l'))"

definition CheckRequest :: "(Key \<Rightarrow> 'l \<Rightarrow> Result \<times> limit_error option \<times> 'l) \<Rightarrow> string \<Rightarrow> string \<Rightarrow> string \<Rightarrow> 'l \<Rightarrow>
    Result \<times> limit_error option \<times> 'l" where
  "CheckRequest allow tenant user tool l =
     allow (empty_Key\<lparr>k_Scope := ''ws'', k_Tenant := tenant, k_User := user, k_Tool := tool\<rparr>) l"

definition CheckConnection :: "(Key \<Rightarrow> 'l \<Rightarrow> Result \<times> limit_error option \<times> 'l) \<Rightarrow> string \<Rightarrow> string \<Rightarrow> 'l \<Rightarrow>
    Result \<times> limit_error option \<times> 'l" where
  "CheckConnection allow tenant user l =
     allow (empty_Key\<lparr>k_Scope := ''ws_connect'', k_Tenant := tenant, k_User := user\<rparr>) l"

definition FormatRetryAfter :: "duration \<Rightarrow> string" where
  "FormatRetryAfter d =
     (if d \<le> 0 then ''now''
      else if d < Second then ''less than 1 second''
      else if d < Minute then Itoa (f64_to_int64 (Some (Seconds d))) @ '' seconds''
      else if d < Hour then Itoa (f64_to_int64 (Some (Minutes d))) @ '' minutes''
      else Itoa (f64_to_int64 (Some (Hours d))) @ '' hours'')"


section \<open>What the limiter relies on\<close>

text \<open>What the \<open>i\<close>-th check of a request does to the store as it was before the request, and whether it
  denies.\<close>

definition check_take :: "'s take_fn \<Rightarrow> call_envs \<Rightarrow> int \<Rightarrow> limitCheck list \<Rightarrow> nat \<Rightarrow> 's \<Rightarrow> (string, Result) result \<times> 's" where
  "check_take take_op env n cs i s = take_op (env i) (lc_key (cs ! i)) (lc_limit (cs ! i)) n s"

definition denies :: "'s take_fn \<Rightarrow> call_envs \<Rightarrow> int \<Rightarrow> limitCheck list \<Rightarrow> nat \<Rightarrow> 's \<Rightarrow> bool" where
  "denies take_op env n cs i s \<longleftrightarrow>
     (case fst (check_take take_op env n cs i s) of Inl _ \<Rightarrow> False | Inr r \<Rightarrow> \<not> r_Allowed r)"

text \<open>
  A store keeps one state per key. A take reads and writes the state of its key only, a take with a
  cancelled context fails and changes nothing, a peek tells whether a take of one token would
  succeed, and a reset forgets the key.
\<close>

locale rate_store =
  fixes take_op :: "'s take_fn" and peek_op :: "'s peek_fn" and reset_op :: "'s reset_fn"
    and key_state :: "'s \<Rightarrow> string \<Rightarrow> 'b option"
  assumes take_other: "k' \<noteq> k \<Longrightarrow> key_state (snd (take_op e k l n s)) k' = key_state s k'"
    and take_frame: "key_state s k = key_state s' k \<Longrightarrow> fst (take_op e k l n s) = fst (take_op e k l n s') \<and>
      key_state (snd (take_op e k l n s)) k = key_state (snd (take_op e k l n s')) k"
    and take_cancelled: "e_Err e = Some er \<Longrightarrow> take_op e k l n s = (Err er, s)"
    and peek_take: "e_Err e = None \<Longrightarrow> 1 \<le> EffectiveBurst l \<Longrightarrow>
      \<exists>r r'. peek_op e k l s = Ok r \<and> fst (take_op e k l 1 s) = Ok r' \<and> r_Allowed r = r_Allowed r'"
    and reset_key: "e_Err e = None \<Longrightarrow> key_state (snd (reset_op e k s)) k = None"
    and reset_other: "k' \<noteq> k \<Longrightarrow> key_state (snd (reset_op e k s)) k' = key_state s k'"
begin

lemma allow_loop_other:
  "k \<notin> lc_key ` set cs \<Longrightarrow> key_state (snd (snd (allow_loop take_op env n cs s))) k = key_state s k"
proof (induction cs arbitrary: env s)
  case (Cons c cs)
  obtain x s' where t: "take_op (env 0) (lc_key c) (lc_limit c) n s = (x, s')" by force
  have "key_state s' k = key_state s k"
    using take_other [of k "lc_key c" "env 0" "lc_limit c" n s] Cons.prems t by simp
  with Cons t show ?case by (auto split: sum.split)
qed simp

lemma check_shift:
  assumes "distinct (map lc_key (c # cs))" "i < length cs"
    and t: "take_op (env 0) (lc_key c) (lc_limit c) n s = (x, s')"
  shows "fst (check_take take_op (\<lambda>i. env (Suc i)) n cs i s') = fst (check_take take_op env n (c # cs) (Suc i) s)"
    "key_state (snd (check_take take_op (\<lambda>i. env (Suc i)) n cs i s')) (lc_key (cs ! i)) =
     key_state (snd (check_take take_op env n (c # cs) (Suc i) s)) (lc_key (cs ! i))"
    "denies take_op (\<lambda>i. env (Suc i)) n cs i s' = denies take_op env n (c # cs) (Suc i) s"
    "key_state s' (lc_key (cs ! i)) = key_state s (lc_key (cs ! i))"
proof -
  have "lc_key (cs ! i) \<noteq> lc_key c" using assms by (metis distinct.simps(2) image_eqI list.set_map list.simps(9) nth_mem)
  then show st: "key_state s' (lc_key (cs ! i)) = key_state s (lc_key (cs ! i))"
    using take_other [of "lc_key (cs ! i)" "lc_key c" "env 0" "lc_limit c" n s] t by simp
  show "fst (check_take take_op (\<lambda>i. env (Suc i)) n cs i s') = fst (check_take take_op env n (c # cs) (Suc i) s)"
    "key_state (snd (check_take take_op (\<lambda>i. env (Suc i)) n cs i s')) (lc_key (cs ! i)) =
     key_state (snd (check_take take_op env n (c # cs) (Suc i) s)) (lc_key (cs ! i))"
    using take_frame [OF st] by (auto simp: check_take_def)
  then show "denies take_op (\<lambda>i. env (Suc i)) n cs i s' = denies take_op env n (c # cs) (Suc i) s"
    by (simp add: denies_def)
qed

lemma denies_first:
  assumes "take_op (env 0) (lc_key c) (lc_limit c) n s = (x, s')"
  shows "denies take_op env n (c # cs) 0 s \<longleftrightarrow> (\<exists>r. x = Ok r \<and> \<not> r_Allowed r)"
  by (simp add: denies_def check_take_def assms split: sum.split)

lemma allow_loop_pass:
  assumes "take_op (env 0) (lc_key c) (lc_limit c) n s = (x, s')" "\<not> denies take_op env n (c # cs) 0 s"
  shows "allow_loop take_op env n (c # cs) s = allow_loop take_op (\<lambda>i. env (Suc i)) n cs s'"
  using assms denies_first [where env = env, OF assms(1)] by (auto split: sum.split)

text \<open>A request is denied exactly when one of its checks denies on the store as it was, and then with
  the result of the first that does.\<close>

lemma allow_loop_denied:
  assumes "distinct (map lc_key cs)" "j < length cs" "denies take_op env n cs j s"
    "\<forall>i<j. \<not> denies take_op env n cs i s"
  shows "\<exists>r. fst (check_take take_op env n cs j s) = Ok r \<and>
    fst (allow_loop take_op env n cs s) = r \<and> fst (snd (allow_loop take_op env n cs s)) = Some ErrRateLimited"
  using assms
proof (induction cs arbitrary: env s j)
  case (Cons c cs)
  obtain x s' where t: "take_op (env 0) (lc_key c) (lc_limit c) n s = (x, s')" by force
  show ?case
  proof (cases j)
    case 0
    with Cons.prems(3) t show ?thesis by (auto simp: denies_first [where env = env] check_take_def)
  next
    case (Suc i)
    with Cons.prems have i: "i < length cs" and no: "\<not> denies take_op env n (c # cs) 0 s" by auto
    note sh = check_shift [where env = env, OF Cons.prems(1) _ t]
    have "\<forall>i'<i. \<not> denies take_op (\<lambda>i. env (Suc i)) n cs i' s'" "denies take_op (\<lambda>i. env (Suc i)) n cs i s'"
      using Cons.prems Suc i by (auto simp: sh(3))
    from Cons.IH [OF _ i this(2,1)] Cons.prems(1) show ?thesis
      by (simp only: allow_loop_pass [where env = env, OF t no] sh(1) [OF i] Suc) simp
  qed
qed simp

lemma allow_loop_admitted:
  assumes "distinct (map lc_key cs)" "\<forall>i<length cs. \<not> denies take_op env n cs i s"
  shows "fst (allow_loop take_op env n cs s) = allowed_Result \<and> fst (snd (allow_loop take_op env n cs s)) = None"
  using assms
proof (induction cs arbitrary: env s)
  case (Cons c cs)
  obtain x s' where t: "take_op (env 0) (lc_key c) (lc_limit c) n s = (x, s')" by force
  have no: "\<not> denies take_op env n (c # cs) 0 s" using Cons.prems(2) by auto
  have "\<forall>i<length cs. \<not> denies take_op (\<lambda>i. env (Suc i)) n cs i s'"
    using Cons.prems check_shift(3) [where env = env, OF Cons.prems(1) _ t] by auto
  from Cons.IH [OF _ this] Cons.prems(1) show ?case by (simp only: allow_loop_pass [where env = env, OF t no]) simp
qed simp

text \<open>A check charges its key exactly when no check before it denied.\<close>

lemma allow_loop_charges:
  assumes "distinct (map lc_key cs)" "i < length cs"
  shows "key_state (snd (snd (allow_loop take_op env n cs s))) (lc_key (cs ! i)) =
    (if \<exists>j<i. denies take_op env n cs j s then key_state s (lc_key (cs ! i))
     else key_state (snd (check_take take_op env n cs i s)) (lc_key (cs ! i)))"
  using assms
proof (induction cs arbitrary: env s i)
  case (Cons c cs)
  obtain x s' where t: "take_op (env 0) (lc_key c) (lc_limit c) n s = (x, s')" by force
  note sh = check_shift [where env = env, OF Cons.prems(1) _ t]
  have ck: "check_take take_op env n (c # cs) 0 s = (x, s')" by (simp add: check_take_def t)
  show ?case
  proof (cases "denies take_op env n (c # cs) 0 s")
    case True
    then have "snd (snd (allow_loop take_op env n (c # cs) s)) = s'" using t denies_first [where env = env, OF t] by auto
    then show ?thesis using True Cons.prems ck by (cases i) (auto simp: sh(4) simp del: allow_loop.simps)
  next
    case False
    show ?thesis
    proof (cases i)
      case 0
      have "lc_key c \<notin> lc_key ` set cs" using Cons.prems by simp
      with 0 show ?thesis by (simp add: allow_loop_pass [where env = env, OF t False] allow_loop_other ck del: allow_loop.simps)
    next
      case (Suc i')
      have "(\<exists>j<Suc i'. denies take_op env n (c # cs) j s) \<longleftrightarrow> (\<exists>j<i'. denies take_op (\<lambda>i. env (Suc i)) n cs j s')"
        using False Cons.prems(2) Suc sh(3) less_Suc_eq_0_disj by auto
      moreover have "i' < length cs" "distinct (map lc_key cs)" using Cons.prems Suc by auto
      ultimately show ?thesis
        using Suc sh(2,4) [of i'] Cons.IH [of i' "\<lambda>i. env (Suc i)" s']
        by (simp only: allow_loop_pass [where env = env, OF t False] nth_Cons_Suc)
    qed
  qed
qed simp

lemma allow_loop_cancelled: "\<forall>i. e_Err (env i) \<noteq> None \<Longrightarrow> allow_loop take_op env n cs s = (allowed_Result, None, s)"
proof (induction cs arbitrary: env)
  case (Cons c cs)
  then obtain er where "e_Err (env 0) = Some er" by blast
  with Cons show ?case by (simp add: take_cancelled)
qed simp

end

section \<open>The in-memory store keeps the contract\<close>

lemma bucket_for_cong: "mget (m_buckets s) k = mget (m_buckets s') k \<Longrightarrow> bucket_for k l t s = bucket_for k l t s'"
  by (simp add: bucket_for_def)

lemma Take_frame:
  assumes "mget (m_buckets s) k = mget (m_buckets s') k"
  shows "fst (Take e k l n s) = fst (Take e k l n s') \<and>
    mget (m_buckets (snd (Take e k l n s))) k = mget (m_buckets (snd (Take e k l n s'))) k"
proof (cases "e_Err e")
  case None
  have "fst (Take e k l n s) = fst (Take e k l n s')"
    using assms by (simp add: Take_def getOrCreateBucket_def Let_def split: option.split)
  with None bucket_for_cong [OF assms] show ?thesis by (simp add: Take_buckets)
qed (simp add: Take_err assms)

lemma fl_ge_1: "1 \<le> n \<Longrightarrow> 1 \<le> (fl (of_int n) :: rat)"
  using fl_mono [of 1 "of_int n"] fl_of_int [of 1] by simp

lemma Peek_Take:
  assumes "e_Err e = None" "1 \<le> EffectiveBurst l"
  shows "\<exists>r r'. Peek e k l s = Ok r \<and> fst (Take e k l 1 s) = Ok r' \<and> r_Allowed r = r_Allowed r'"
proof -
  have one: "fl 1 = (1 :: rat)" using fl_of_int [of 1] by simp
  obtain r' where r': "fst (Take e k l 1 s) = Ok r'"
    "r_Allowed r' = (refilled l (e_Now e) (bucket_for k l (e_Now e) s) \<ge> 1)"
    using Take_result [OF assms(1), of k l 1 s] one by auto
  show ?thesis
  proof (cases "mget (m_buckets s) k")
    case None
    then have "refilled l (e_Now e) (bucket_for k l (e_Now e) s) = f64_burst l"
      by (simp add: bucket_for_def refilled_fresh)
    with None r' fl_ge_1 [OF assms(2)] show ?thesis by (simp add: Peek_def assms(1) Let_def)
  next
    case (Some b)
    with r' show ?thesis by (simp add: Peek_def assms(1) Let_def bucket_for_def)
  qed
qed

interpretation mem: rate_store Take Peek Reset "\<lambda>s :: MemoryStore. mget (m_buckets s)"
proof
  fix k e l n and s s' :: MemoryStore
  assume "mget (m_buckets s) k = mget (m_buckets s') k"
  then show "fst (Take e k l n s) = fst (Take e k l n s') \<and>
    mget (m_buckets (snd (Take e k l n s))) k = mget (m_buckets (snd (Take e k l n s'))) k"
    by (rule Take_frame)
next
  fix e :: call_env and l :: Limit and k and s :: MemoryStore
  assume "e_Err e = None" "1 \<le> EffectiveBurst l"
  then show "\<exists>r r'. Peek e k l s = Ok r \<and> fst (Take e k l 1 s) = Ok r' \<and> r_Allowed r = r_Allowed r'"
    by (rule Peek_Take)
qed (simp_all add: bucket_for_Take Take_err Reset_def split: option.split)


section \<open>Decisions of the limiter\<close>

text \<open>The four keys of a request never coincide, whatever its components hold: each lower level extends
  the string of the level above, and the global key has no second colon.\<close>

lemma colon_not_global: "x @ CHR '':'' # y \<noteq> ''global''"
proof
  assume "x @ CHR '':'' # y = ''global''"
  then have "CHR '':'' \<in> set ''global''" by (metis in_set_conv_decomp)
  then show False by simp
qed

lemma Key_String_shorter:
  "t \<noteq> [] \<Longrightarrow> u \<noteq> [] \<Longrightarrow> length (Key_String (empty_Key\<lparr>k_Scope := s, k_Tenant := t\<rparr>))
    < length (Key_String (empty_Key\<lparr>k_Scope := s, k_Tenant := t, k_User := u\<rparr>))"
  "u \<noteq> [] \<or> t \<noteq> [] \<Longrightarrow> l \<noteq> [] \<Longrightarrow> length (Key_String (empty_Key\<lparr>k_Scope := s, k_Tenant := t, k_User := u\<rparr>))
    < length (Key_String (empty_Key\<lparr>k_Scope := s, k_Tenant := t, k_User := u, k_Tool := l\<rparr>))"
  by (simp_all add: Key_String_def key_parts_def empty_Key_def Let_def)

lemma Key_String_not_global:
  "t \<noteq> [] \<or> u \<noteq> [] \<or> l \<noteq> [] \<Longrightarrow>
   Key_String (empty_Key\<lparr>k_Scope := s, k_Tenant := t, k_User := u, k_Tool := l\<rparr>) \<noteq> Key_String (empty_Key\<lparr>k_Scope := ''global''\<rparr>)"
  by (auto simp: Key_String_def key_parts_def empty_Key_def Let_def colon_not_global)

lemma empty_Key_noop:
  "empty_Key\<lparr>k_Scope := s, k_Tenant := t, k_User := []\<rparr> = empty_Key\<lparr>k_Scope := s, k_Tenant := t\<rparr>"
  "empty_Key\<lparr>k_Scope := s, k_Tenant := t, k_Tool := []\<rparr> = empty_Key\<lparr>k_Scope := s, k_Tenant := t\<rparr>"
  "empty_Key\<lparr>k_Scope := s, k_Tenant := t, k_User := u, k_Tool := []\<rparr> = empty_Key\<lparr>k_Scope := s, k_Tenant := t, k_User := u\<rparr>"
  by (simp_all add: empty_Key_def)

lemma check_keys_distinct: "distinct (map lc_key (buildLimitChecks cfg key))"
proof -
  let ?s = "k_Scope key" and ?t = "k_Tenant key" and ?u = "k_User key" and ?l = "k_Tool key"
  define kt where "kt = Key_String (empty_Key\<lparr>k_Scope := ?s, k_Tenant := ?t\<rparr>)"
  define ku where "ku = Key_String (empty_Key\<lparr>k_Scope := ?s, k_Tenant := ?t, k_User := ?u\<rparr>)"
  define kl where "kl = Key_String (empty_Key\<lparr>k_Scope := ?s, k_Tenant := ?t, k_User := ?u, k_Tool := ?l\<rparr>)"
  define g where "g = Key_String (empty_Key\<lparr>k_Scope := ''global''\<rparr>)"
  note defs = kt_def ku_def kl_def g_def
  have "kt \<noteq> ku" if "?t \<noteq> []" "?u \<noteq> []" unfolding defs using Key_String_shorter(1) [OF that, of ?s] by auto
  moreover have "ku \<noteq> kl" if "?u \<noteq> []" "?l \<noteq> []" unfolding defs using Key_String_shorter(2) [of ?u ?t ?l ?s] that by auto
  moreover have "kt \<noteq> kl" if "?t \<noteq> []" "?l \<noteq> []" unfolding defs
    using Key_String_shorter(1) [of ?t ?u ?s] Key_String_shorter(2) [of ?u ?t ?l ?s] that
    by (cases "?u = []") (auto simp: empty_Key_noop)
  moreover have "kt \<noteq> g" if "?t \<noteq> []" unfolding defs
    using Key_String_not_global [of ?t "[]" "[]" ?s] that by (simp only: empty_Key_noop) simp
  moreover have "ku \<noteq> g" if "?u \<noteq> []" unfolding defs
    using Key_String_not_global [of ?t ?u "[]" ?s] that by (simp only: empty_Key_noop) simp
  moreover have "kl \<noteq> g" if "?l \<noteq> []" unfolding defs using Key_String_not_global [of ?t ?u ?l ?s] that by simp
  ultimately show ?thesis
    unfolding buildLimitChecks_def defs [symmetric] by auto
qed

lemma AllowN_outcome:
  assumes "h_enabled l" "h_store l = Some st" "cs = buildLimitChecks (h_cfg l) key"
  shows "\<exists>r er st'. allow_loop Take env n cs st = (r, er, st') \<and>
    AllowN Take env key n l = Some (r, er, l\<lparr>h_store := Some st'\<rparr>) \<and>
    (er = Some ErrRateLimited \<longleftrightarrow> (\<exists>i<length cs. denies Take env n cs i st)) \<and> (er = None \<longrightarrow> r = allowed_Result) \<and>
    (\<forall>j<length cs. denies Take env n cs j st \<and> (\<forall>i<j. \<not> denies Take env n cs i st)
       \<longrightarrow> fst (check_take Take env n cs j st) = Ok r)"
proof -
  obtain r er st' where a: "allow_loop Take env n cs st = (r, er, st')" by (cases "allow_loop Take env n cs st")
  have d: "distinct (map lc_key cs)" unfolding assms(3) by (rule check_keys_distinct)
  have first: "\<exists>j<length cs. denies Take env n cs j st \<and> (\<forall>i<j. \<not> denies Take env n cs i st)"
    if "\<exists>i<length cs. denies Take env n cs i st"
    using that exists_least_iff [of "\<lambda>i. i < length cs \<and> denies Take env n cs i st"] by (meson order.strict_trans)
  have "er = Some ErrRateLimited \<longleftrightarrow> (\<exists>i<length cs. denies Take env n cs i st)"
    using first mem.allow_loop_denied [OF d] mem.allow_loop_admitted [OF d, of env n st] a by fastforce
  moreover from this have "er = None \<longrightarrow> r = allowed_Result"
    using mem.allow_loop_admitted [OF d, of env n st] a by auto
  moreover have "\<forall>j<length cs. denies Take env n cs j st \<and> (\<forall>i<j. \<not> denies Take env n cs i st)
       \<longrightarrow> fst (check_take Take env n cs j st) = Ok r"
    using mem.allow_loop_denied [OF d] a by fastforce
  ultimately show ?thesis using a by (auto simp: AllowN_def assms(1,2) assms(3) [symmetric])
qed

text \<open>What the limiter decides, on the in-memory store and for any key and count: a request is
  denied exactly when one of its checks, asked of the store as it was before the request, denies; the
  result is then the one of the first check that denies. Each bucket is charged exactly when no more
  specific check denied, so a denial charges the buckets checked before it and no later one.\<close>

theorem AllowN_decision:
  assumes "h_enabled l" "h_store l = Some st" "cs = buildLimitChecks (h_cfg l) key"
  shows "\<exists>r er st'. AllowN Take env key n l = Some (r, er, l\<lparr>h_store := Some st'\<rparr>) \<and>
    (er = Some ErrRateLimited \<longleftrightarrow> (\<exists>i<length cs. denies Take env n cs i st)) \<and>
    (er = None \<longrightarrow> r = allowed_Result) \<and>
    (\<forall>j<length cs. denies Take env n cs j st \<and> (\<forall>i<j. \<not> denies Take env n cs i st)
       \<longrightarrow> fst (check_take Take env n cs j st) = Ok r) \<and>
    (\<forall>i<length cs. mget (m_buckets st') (lc_key (cs ! i)) =
       (if \<exists>j<i. denies Take env n cs j st then mget (m_buckets st) (lc_key (cs ! i))
        else mget (m_buckets (snd (check_take Take env n cs i st))) (lc_key (cs ! i)))) \<and>
    (\<forall>k. k \<notin> lc_key ` set cs \<longrightarrow> mget (m_buckets st') k = mget (m_buckets st) k)"
proof -
  obtain r er st' where a: "allow_loop Take env n cs st = (r, er, st')"
    "AllowN Take env key n l = Some (r, er, l\<lparr>h_store := Some st'\<rparr>)"
    "er = Some ErrRateLimited \<longleftrightarrow> (\<exists>i<length cs. denies Take env n cs i st)"
    "er = None \<longrightarrow> r = allowed_Result"
    "\<forall>j<length cs. denies Take env n cs j st \<and> (\<forall>i<j. \<not> denies Take env n cs i st)
       \<longrightarrow> fst (check_take Take env n cs j st) = Ok r"
    using AllowN_outcome [OF assms, of env n] by (elim exE conjE) rule
  have d: "distinct (map lc_key cs)" unfolding assms(3) by (rule check_keys_distinct)
  show ?thesis
    using a mem.allow_loop_charges [OF d, of _ env n st] mem.allow_loop_other [of _ cs env n st]
    by (intro exI [of _ r] exI [of _ er] exI [of _ st']) auto
qed


section \<open>The global bound\<close>

text \<open>The store operations a request performs.\<close>

fun performed :: "call_envs \<Rightarrow> int \<Rightarrow> limitCheck list \<Rightarrow> MemoryStore \<Rightarrow> store_op list" where
  "performed env n [] s = []"
| "performed env n (c # cs) s =
     OTake (env 0) (lc_key c) (lc_limit c) n #
     (case Take (env 0) (lc_key c) (lc_limit c) n s of
        (Inl er, s') \<Rightarrow> performed (\<lambda>i. env (Suc i)) n cs s'
      | (Inr r, s') \<Rightarrow> if \<not> r_Allowed r then [] else performed (\<lambda>i. env (Suc i)) n cs s')"

definition run_ops :: "store_op list \<Rightarrow> MemoryStore \<Rightarrow> MemoryStore" where "run_ops ops s = fold op_step ops s"

lemma granted_append: "granted k (xs @ ys) s = granted k xs s + granted k ys (run_ops xs s)"
  by (induction xs arbitrary: s) (simp_all add: run_ops_def)

lemma performed_state: "snd (snd (allow_loop Take env n cs s)) = run_ops (performed env n cs s) s"
proof (induction env n cs s rule: performed.induct)
  case (2 env n c cs s)
  obtain x s' where t: "Take (env 0) (lc_key c) (lc_limit c) n s = (x, s')" by force
  with 2 show ?case by (auto simp: run_ops_def split: sum.split)
qed (simp add: run_ops_def)

lemma performed_length: "length (performed env n cs s) \<le> length cs"
proof (induction env n cs s rule: performed.induct)
  case (2 env n c cs s)
  obtain x s' where t: "Take (env 0) (lc_key c) (lc_limit c) n s = (x, s')" by force
  with 2 show ?case by (auto split: sum.split)
qed simp

lemma granted_nonneg: "0 \<le> n \<Longrightarrow> 0 \<le> granted k (performed env n cs s) s"
proof (induction env n cs s rule: performed.induct)
  case (2 env n c cs s)
  obtain x s' where t: "Take (env 0) (lc_key c) (lc_limit c) n s = (x, s')" by force
  with 2 show ?case by (auto split: sum.split)
qed simp

text \<open>A request that is admitted without a store error was granted its tokens at every level.\<close>

lemma admitted_granted:
  assumes "0 \<le> n" "\<forall>i<length cs. e_Err (env i) = None" "k \<in> lc_key ` set cs"
    "fst (snd (allow_loop Take env n cs s)) = None"
  shows "n \<le> granted k (performed env n cs s) s"
  using assms
proof (induction env n cs s rule: performed.induct)
  case (2 env n c cs s)
  obtain x s' where t: "Take (env 0) (lc_key c) (lc_limit c) n s = (x, s')" by force
  obtain r where r: "x = Ok r" using 2(4) Take_result [of "env 0" "lc_key c" "lc_limit c" n s] t by auto
  with 2(6) t have al: "r_Allowed r" by (auto split: if_splits)
  have rest: "0 \<le> granted k (performed (\<lambda>i. env (Suc i)) n cs s') s'" using 2(3) by (rule granted_nonneg)
  show ?case
  proof (cases "k \<in> lc_key ` set cs")
    case True
    have "n \<le> granted k (performed (\<lambda>i. env (Suc i)) n cs s') s'"
      using 2(2) [of x s' r] 2(3-6) t r al True by auto
    with t r al 2(3) show ?thesis by (cases "lc_key c = k") auto
  next
    case False
    with 2(5) have "k = lc_key c" by auto
    with t r al rest show ?thesis by simp
  qed
qed simp

lemma run_ok_append: "run_ok k L t (xs @ ys) \<longleftrightarrow> run_ok k L t xs \<and> run_ok k L (run_end t xs) ys"
  by (induction xs arbitrary: t) (auto simp: run_until_def)

lemma run_end_append: "run_end t (xs @ ys) = run_end (run_end t xs) ys"
  by (simp add: run_until_def)

lemma run_ok_earlier: "run_ok k L t ops \<Longrightarrow> t' \<le> t \<Longrightarrow> run_ok k L t' ops"
  by (cases ops) auto

text \<open>Within a request the clock does not go back.\<close>

definition clock_ok :: "time \<Rightarrow> call_envs \<Rightarrow> nat \<Rightarrow> bool" where
  "clock_ok t env m \<longleftrightarrow> t \<le> e_Now (env 0) \<and> (\<forall>i<m. e_Now (env i) \<le> e_Now (env (Suc i)))"

lemma clock_ok_Suc: "clock_ok t env (Suc m) \<Longrightarrow> clock_ok (e_Now (env 0)) (\<lambda>i. env (Suc i)) m"
  by (auto simp: clock_ok_def)

lemma clock_ok_mono: "clock_ok t env m \<Longrightarrow> i \<le> m \<Longrightarrow> e_Now (env 0) \<le> e_Now (env i)"
proof (induction i)
  case (Suc i)
  then have "e_Now (env i) \<le> e_Now (env (Suc i))" by (simp add: clock_ok_def)
  with Suc show ?case by simp
qed simp

lemma performed_run_ok:
  assumes "0 \<le> n" "n \<le> 9007199254740992" "\<forall>c\<in>set cs. lc_key c = k \<longrightarrow> lc_limit c = L"
    "clock_ok t env (length cs)"
  shows "run_ok k L t (performed env n cs s) \<and> t \<le> run_end t (performed env n cs s) \<and>
    run_end t (performed env n cs s) \<le> e_Now (env (length cs))"
  using assms
proof (induction env n cs s arbitrary: t rule: performed.induct)
  case (1 env n s)
  then show ?case by (simp add: clock_ok_def run_until_def)
next
  case (2 env n c cs s)
  obtain x s' where t: "Take (env 0) (lc_key c) (lc_limit c) n s = (x, s')" by force
  have now: "t \<le> e_Now (env 0)" "clock_ok (e_Now (env 0)) (\<lambda>i. env (Suc i)) (length cs)"
    using 2(6) clock_ok_Suc by (auto simp: clock_ok_def)
  have mono: "e_Now (env 0) \<le> e_Now (env (Suc (length cs)))"
    using clock_ok_mono [OF 2(6), of "Suc (length cs)"] by simp
  have rest: "run_ok k L (e_Now (env 0)) (performed (\<lambda>i. env (Suc i)) n cs s') \<and>
      e_Now (env 0) \<le> run_end (e_Now (env 0)) (performed (\<lambda>i. env (Suc i)) n cs s') \<and>
      run_end (e_Now (env 0)) (performed (\<lambda>i. env (Suc i)) n cs s') \<le> e_Now (env (Suc (length cs)))"
    if "x = Inl er \<or> (x = Inr r \<and> r_Allowed r)" for er r
    using 2(1) [of x s' er] 2(2) [of x s' r] 2(3-5) t now(2) that by auto
  have end_Cons: "run_end u (OTake (env 0) key lim m # ops) = run_end (e_Now (env 0)) ops" for u key lim m ops
    by (simp add: run_until_def)
  have op: "op_ok k L (OTake (env 0) (lc_key c) (lc_limit c) n)" using 2(3-5) by simp
  show ?case
  proof (cases x)
    case (Inl er)
    with t rest [of er] now(1) op show ?thesis by (auto simp: end_Cons simp del: op_ok.simps)
  next
    case (Inr r)
    with t rest [of _ r] now(1) op mono show ?thesis
      by (cases "r_Allowed r") (auto simp: end_Cons run_until_def simp del: op_ok.simps)
  qed
qed

text \<open>A sequence of requests to the limiter, and the number of tokens it admits.\<close>

record request =
  rq_envs :: call_envs
  rq_key :: Key
  rq_n :: int

fun admitted :: "request list \<Rightarrow> MemoryStore HierarchicalLimiter \<Rightarrow> int" where
  "admitted [] l = 0"
| "admitted (q # qs) l =
     (case AllowN Take (rq_envs q) (rq_key q) (rq_n q) l of
        None \<Rightarrow> 0
      | Some (r, er, l') \<Rightarrow> (if er = None then rq_n q else 0) + admitted qs l')"

text \<open>Requests whose context is not cancelled while they are checked, on a clock that does not go back.\<close>

fun requests_ok :: "time \<Rightarrow> request list \<Rightarrow> bool" where
  "requests_ok t [] \<longleftrightarrow> True"
| "requests_ok t (q # qs) \<longleftrightarrow>
     clock_ok t (rq_envs q) 4 \<and> (\<forall>i<4. e_Err (rq_envs q i) = None) \<and> 0 \<le> rq_n q \<and> rq_n q \<le> 9007199254740992 \<and>
     requests_ok (e_Now (rq_envs q 4)) qs"

definition requests_end :: "time \<Rightarrow> request list \<Rightarrow> time" where
  "requests_end t qs = last (t # map (\<lambda>q. e_Now (rq_envs q 4)) qs)"

abbreviation global_key :: string where "global_key \<equiv> Key_String (empty_Key\<lparr>k_Scope := ''global''\<rparr>)"

fun request_ops :: "request list \<Rightarrow> Config \<Rightarrow> MemoryStore \<Rightarrow> store_op list" where
  "request_ops [] cfg s = []"
| "request_ops (q # qs) cfg s =
     (let ops = performed (rq_envs q) (rq_n q) (buildLimitChecks cfg (rq_key q)) s
      in ops @ request_ops qs cfg (run_ops ops s))"

lemma checks_length: "length (buildLimitChecks cfg key) \<le> 4"
  by (simp add: buildLimitChecks_def)

lemma checks_global:
  "\<forall>c\<in>set (buildLimitChecks cfg key). lc_key c = global_key \<longrightarrow> lc_limit c = GlobalLimit cfg"
  "c_GlobalRPS cfg > 0 \<Longrightarrow> global_key \<in> lc_key ` set (buildLimitChecks cfg key)"
proof -
  show "\<forall>c\<in>set (buildLimitChecks cfg key). lc_key c = global_key \<longrightarrow> lc_limit c = GlobalLimit cfg"
    using Key_String_not_global [of "k_Tenant key" "k_User key" "k_Tool key" "k_Scope key"]
      Key_String_not_global [of "k_Tenant key" "k_User key" "[]" "k_Scope key"]
      Key_String_not_global [of "k_Tenant key" "[]" "[]" "k_Scope key"]
    by (auto simp: buildLimitChecks_def empty_Key_noop)
qed (simp add: buildLimitChecks_def)

lemma clock_ok_less: "clock_ok t env m \<Longrightarrow> j \<le> m \<Longrightarrow> clock_ok t env j"
  by (simp add: clock_ok_def)

lemma clock_ok_between: "clock_ok t env m \<Longrightarrow> j \<le> m \<Longrightarrow> e_Now (env j) \<le> e_Now (env m)"
  by (induction m) (auto simp: clock_ok_def le_Suc_eq intro: order_trans)

lemma request_ops_run:
  assumes "requests_ok t qs" "t' \<le> t"
  shows "run_ok global_key (GlobalLimit cfg) t' (request_ops qs cfg s) \<and>
    t' \<le> run_end t' (request_ops qs cfg s) \<and> run_end t' (request_ops qs cfg s) \<le> requests_end t qs \<and>
    length (request_ops qs cfg s) \<le> 4 * length qs"
  using assms
proof (induction qs arbitrary: t t' s)
  case (Cons q qs)
  let ?cs = "buildLimitChecks cfg (rq_key q)" and ?env = "rq_envs q"
  define ops where "ops = performed ?env (rq_n q) ?cs s"
  have clock: "clock_ok t' ?env 4" using Cons.prems by (auto simp: clock_ok_def)
  have n: "0 \<le> rq_n q" "rq_n q \<le> 9007199254740992" using Cons.prems by auto
  note p = performed_run_ok [OF n checks_global(1) [of cfg "rq_key q"] clock_ok_less [OF clock checks_length],
      where s = s, folded ops_def]
  have "run_end t' ops \<le> e_Now (?env 4)"
    using p clock_ok_between [OF clock checks_length [of cfg "rq_key q"]] by (meson order_trans)
  then have "run_ok global_key (GlobalLimit cfg) (run_end t' ops) (request_ops qs cfg (run_ops ops s)) \<and>
    run_end t' ops \<le> run_end (run_end t' ops) (request_ops qs cfg (run_ops ops s)) \<and>
    run_end (run_end t' ops) (request_ops qs cfg (run_ops ops s)) \<le> requests_end (e_Now (?env 4)) qs \<and>
    length (request_ops qs cfg (run_ops ops s)) \<le> 4 * length qs"
    using Cons.IH Cons.prems by auto
  moreover have "length ops \<le> 4"
    using performed_length checks_length unfolding ops_def by (rule order_trans)
  moreover have "requests_end t (q # qs) = requests_end (e_Now (?env 4)) qs" by (simp add: requests_end_def)
  ultimately show ?case
    using p by (simp add: ops_def [symmetric] run_ok_append run_end_append Let_def)
qed (simp add: requests_end_def run_until_def)

lemma performed_no_reset: "resets_of k (performed env n cs s) = 0"
proof (induction env n cs s rule: performed.induct)
  case (2 env n c cs s)
  obtain x s' where t: "Take (env 0) (lc_key c) (lc_limit c) n s = (x, s')" by force
  with 2 show ?case by (auto simp: resets_of_def split: sum.split)
qed (simp add: resets_of_def)

lemma request_ops_no_reset: "resets_of k (request_ops qs cfg s) = 0"
proof (induction qs arbitrary: s)
  case (Cons q qs)
  show ?case
    using Cons performed_no_reset [of k "rq_envs q" "rq_n q" "buildLimitChecks cfg (rq_key q)" s]
    by (simp add: resets_of_def Let_def)
qed (simp add: resets_of_def)

lemma admitted_le_granted:
  assumes "requests_ok t qs" "h_enabled l" "h_store l = Some s" "c_GlobalRPS (h_cfg l) > 0"
  shows "admitted qs l \<le> granted global_key (request_ops qs (h_cfg l) s) s"
  using assms
proof (induction qs arbitrary: t l s)
  case (Cons q qs)
  let ?cs = "buildLimitChecks (h_cfg l) (rq_key q)" and ?env = "rq_envs q"
  define ops where "ops = performed ?env (rq_n q) ?cs s"
  obtain r er s' where a: "allow_loop Take ?env (rq_n q) ?cs s = (r, er, s')"
    by (cases "allow_loop Take ?env (rq_n q) ?cs s")
  have s': "s' = run_ops ops s" using performed_state [of ?env "rq_n q" ?cs s] a by (simp add: ops_def)
  have n: "0 \<le> rq_n q" using Cons.prems by auto
  have er: "\<forall>i<length ?cs. e_Err (?env i) = None"
    using Cons.prems(1) checks_length [of "h_cfg l" "rq_key q"] by auto
  have "(if er = None then rq_n q else 0) \<le> granted global_key ops s"
    using admitted_granted [OF n er checks_global(2) [OF Cons.prems(4)], of s] a granted_nonneg [OF n]
    by (simp add: ops_def)
  moreover have "admitted qs (l\<lparr>h_store := Some s'\<rparr>) \<le> granted global_key (request_ops qs (h_cfg l) s') s'"
    using Cons.IH [of "e_Now (?env 4)" "l\<lparr>h_store := Some s'\<rparr>" s'] Cons.prems by simp
  ultimately show ?case
    using a s' Cons.prems by (simp add: AllowN_def ops_def [symmetric] Let_def granted_append)
qed simp

lemma admitted_bound:
  assumes "config_ok (h_cfg l)" "c_GlobalRPS (h_cfg l) > 0" "h_enabled l" "h_store l = Some (NewMemoryStore [])"
    "requests_ok t qs"
  shows "of_int (admitted qs l)
    \<le> f64_burst (GlobalLimit (h_cfg l))
      + of_int (requests_end t qs - t)
          * (RequestsPerSecond (GlobalLimit (h_cfg l)) * (1 + unit_roundoff) ^ 3 / of_int Second)
      + of_nat (4 * length qs) * (2 * unit_roundoff * f64_burst (GlobalLimit (h_cfg l)))"
proof -
  let ?L = "GlobalLimit (h_cfg l)" and ?s = "NewMemoryStore []"
  let ?ops = "request_ops qs (h_cfg l) ?s"
  have L: "limit_ok ?L" using config_ok_limits assms(1) by blast
  note r = request_ops_run [OF assms(5) order_refl, of "h_cfg l" ?s]
  have "resets_of global_key ?ops = 0" by (rule request_ops_no_reset)
  then have "of_int (granted global_key ?ops ?s)
    \<le> level global_key ?L t ?s + of_int (run_end t ?ops - t) * refill_rate ?L + of_nat (length ?ops) * rounding_slack ?L"
    using bucket_run_bound [OF L store_ok_New conjunct1 [OF r]] by simp
  also have "level global_key ?L t ?s = f64_burst ?L" by (simp add: level_def NewMemoryStore_def)
  also have "f64_burst ?L + of_int (run_end t ?ops - t) * refill_rate ?L + of_nat (length ?ops) * rounding_slack ?L
    \<le> f64_burst ?L + of_int (requests_end t qs - t) * refill_rate ?L + of_nat (4 * length qs) * rounding_slack ?L"
    using r refill_rate_nonneg [OF L] slack_nonneg [OF L]
    by (intro add_mono mult_right_mono) (simp_all only: of_int_le_iff of_nat_le_iff, auto)
  finally have "of_int (granted global_key ?ops ?s)
    \<le> f64_burst ?L + of_int (requests_end t qs - t) * refill_rate ?L + of_nat (4 * length qs) * rounding_slack ?L" .
  moreover have "(of_int (admitted qs l) :: rat) \<le> of_int (granted global_key ?ops ?s)"
    using admitted_le_granted [OF assms(5,3,4,2)] by (simp only: of_int_le_iff)
  ultimately show ?thesis by (simp only: refill_rate_def)
qed

text \<open>The global limit holds: whatever keys the requests carry and however they interleave, the
  tokens the limiter admits with the in-memory store are at most the global burst, the refill of the
  elapsed time at the global rate, and the rounding of the at most four store operations of a request.\<close>

theorem global_admission_bound:
  assumes "config_ok (h_cfg l)" "c_GlobalRPS (h_cfg l) > 0" "h_enabled l" "h_store l = Some (NewMemoryStore [])"
    "requests_ok t qs"
  shows "of_int (admitted qs l)
    \<le> f64_burst (GlobalLimit (h_cfg l))
      + of_int (requests_end t qs - t)
          * (RequestsPerSecond (GlobalLimit (h_cfg l)) * (1 + unit_roundoff) ^ 3 / of_int Second)
      + of_nat (4 * length qs) * (2 * unit_roundoff * f64_burst (GlobalLimit (h_cfg l)))"
  using assms by (rule admitted_bound)

definition small_config :: Config where
  "small_config = \<lparr>c_Store = ''memory'', c_GlobalRPS = 2, c_GlobalBurst = 0, c_TenantRPS = 0, c_TenantBurst = 0,
     c_UserRPS = 1, c_UserBurst = 0, c_ToolRPS = 0, c_ToolBurst = 0, c_Window = Second, c_RedisURL = [], c_Enabled = True\<rparr>"

definition small_limiter :: "MemoryStore HierarchicalLimiter" where
  "small_limiter = \<lparr>h_store = Some (NewMemoryStore []), h_cfg = small_config, h_enabled = True\<rparr>"

definition at_time :: "time \<Rightarrow> call_envs" where "at_time t = (\<lambda>_. \<lparr>e_Err = None, e_Now = t\<rparr>)"

abbreviation user_request :: "string \<Rightarrow> time \<Rightarrow> request" where
  "user_request u t \<equiv> \<lparr>rq_envs = at_time t, rq_key = empty_Key\<lparr>k_Scope := ''ws'', k_User := u\<rparr>, rq_n = 1\<rparr>"

lemma small_config_ok: "config_ok small_config"
  by (simp add: config_ok_def small_config_def duration_units max_int64_def)

theorem global_admission_bound_witness:
  "(let qs = [user_request ''ada'' unix_epoch, user_request ''bob'' unix_epoch, user_request ''eve'' (unix_epoch + 10)];
        L = GlobalLimit small_config
    in of_int (admitted qs small_limiter)
      \<le> f64_burst L + of_int (requests_end unix_epoch qs - unix_epoch)
          * (RequestsPerSecond L * (1 + unit_roundoff) ^ 3 / of_int Second)
        + of_nat (4 * length qs) * (2 * unit_roundoff * f64_burst L))"
proof -
  let ?qs = "[user_request ''ada'' unix_epoch, user_request ''bob'' unix_epoch, user_request ''eve'' (unix_epoch + 10)]"
  have "requests_ok unix_epoch ?qs" by (simp add: clock_ok_def at_time_def)
  from global_admission_bound [of small_limiter, OF _ _ _ _ this] small_config_ok show ?thesis
    unfolding Let_def by (simp add: small_limiter_def small_config_def del: admitted.simps)
qed


section \<open>Failing stores, Peek and Reset\<close>

text \<open>A store that cannot answer denies nobody: with every context cancelled the limiter admits the
  request, whatever the buckets hold, and charges no bucket.\<close>

theorem AllowN_fails_open:
  assumes "h_store l = Some st" "\<forall>i. e_Err (env i) \<noteq> None"
  shows "AllowN Take env key n l = Some (allowed_Result, None, l)"
  using assms mem.allow_loop_cancelled [OF assms(2), of n "buildLimitChecks (h_cfg l) key" st]
  by (cases l) (auto simp: AllowN_def)

theorem AllowN_fails_open_witness:
  "AllowN Take (\<lambda>_. \<lparr>e_Err = Some ''context deadline exceeded'', e_Now = 0\<rparr>)
     (empty_Key\<lparr>k_User := ''ada''\<rparr>) 1000 small_limiter = Some (allowed_Result, None, small_limiter)"
  using AllowN_fails_open [of small_limiter "NewMemoryStore []" "\<lambda>_. \<lparr>e_Err = Some ''context deadline exceeded'', e_Now = 0\<rparr>"]
  by (simp add: small_limiter_def)

lemma peek_loop_allowed:
  assumes "\<forall>c\<in>set cs. \<forall>e r. peek_op e (lc_key c) (lc_limit c) s = Ok r \<and> r_Allowed r \<longrightarrow> 0 \<le> r_Remaining r"
    "r_Allowed (peek_loop peek_op env cs allowed_Result s)"
  shows "peek_loop peek_op env cs allowed_Result s = allowed_Result"
  using assms
proof (induction cs arbitrary: env)
  case (Cons c cs)
  show ?case
  proof (cases "peek_op (env 0) (lc_key c) (lc_limit c) s")
    case (Inl er)
    with Cons show ?thesis by auto
  next
    case (Inr r)
    with Cons.prems have r: "r_Allowed r" "0 \<le> r_Remaining r" by (auto split: if_splits)
    then have "\<not> (r_Remaining r < r_Remaining allowed_Result \<or> \<not> r_Allowed allowed_Result)"
      by (simp add: allowed_Result_def zero_Result_def)
    with r Inr Cons show ?thesis by auto
  qed
qed simp

text \<open>\<open>Peek\<close> of the limiter does not report the most restrictive limit: when it reports that a
  request would be allowed, its result is the constant with no remaining requests and no limit, whatever
  the buckets hold.\<close>

theorem Limiter_Peek_allowed_constant:
  assumes "h_enabled l" "h_store l = Some st"
    "\<forall>c\<in>set (buildLimitChecks (h_cfg l) key). \<forall>e r. Peek e (lc_key c) (lc_limit c) st = Ok r \<and> r_Allowed r
       \<longrightarrow> 0 \<le> r_Remaining r"
    "Limiter_Peek Peek env key l = Some r" "r_Allowed r"
  shows "r = allowed_Result"
  using assms peek_loop_allowed [where peek_op = Peek and s = st, OF assms(3), of env] by (auto simp: Limiter_Peek_def)

theorem Limiter_Peek_allowed_constant_witness:
  "Limiter_Peek Peek (at_time 0) (empty_Key\<lparr>k_User := ''ada''\<rparr>) small_limiter = Some allowed_Result \<and>
   Peek (at_time 0 0) global_key (GlobalLimit small_config) (NewMemoryStore []) \<noteq> Ok allowed_Result"
proof -
  let ?key = "empty_Key\<lparr>k_User := ''ada''\<rparr>" and ?s = "NewMemoryStore []"
  have p: "Peek \<lparr>e_Err = None, e_Now = 0\<rparr> k l ?s =
    Ok \<lparr>r_Allowed = True, r_Remaining = EffectiveBurst l, r_ResetAt = l_Window l, r_RetryAfter = 0, r_Limit = l\<rparr>" for k l
    by (simp add: Peek_def NewMemoryStore_def Let_def calculateResetTime_def time_Add_def)
  have b: "\<forall>c\<in>set (buildLimitChecks small_config ?key). \<forall>e r. Peek e (lc_key c) (lc_limit c) ?s = Ok r \<and> r_Allowed r
       \<longrightarrow> 0 \<le> r_Remaining r"
    by (auto simp: buildLimitChecks_def small_config_def Peek_def NewMemoryStore_def EffectiveBurst_def limit_defs
        empty_Key_def Let_def split: option.splits)
  obtain r where r: "Limiter_Peek Peek (at_time 0) ?key small_limiter = Some r" "r_Allowed r"
    by (simp add: Limiter_Peek_def small_limiter_def buildLimitChecks_def small_config_def empty_Key_def at_time_def p
        allowed_Result_def)
  have "r = allowed_Result"
    by (rule Limiter_Peek_allowed_constant [OF _ _ _ r, where st = ?s]) (use b in \<open>simp_all add: small_limiter_def\<close>)
  moreover have "Peek (at_time 0 0) global_key (GlobalLimit small_config) ?s \<noteq> Ok allowed_Result"
    by (simp add: at_time_def p allowed_Result_def zero_Result_def small_config_def EffectiveBurst_def limit_defs)
  ultimately show ?thesis using r by simp
qed

text \<open>A limiter whose user ''ada'' has used up her one token at the instant 0.\<close>

definition drained_store :: MemoryStore where
  "drained_store = (NewMemoryStore [])\<lparr>m_buckets := [(''s:ws:u:ada'', \<lparr>b_tokens = 0, b_lastUpdate = 0, b_limit = UserLimit small_config\<rparr>)]\<rparr>"

abbreviation ada_key :: Key where "ada_key \<equiv> empty_Key\<lparr>k_Scope := ''ws'', k_User := ''ada''\<rparr>"

lemma ada_checks:
  "buildLimitChecks small_config ada_key =
     [\<lparr>lc_key = ''s:ws:u:ada'', lc_limit = UserLimit small_config\<rparr>,
      \<lparr>lc_key = ''s:global'', lc_limit = GlobalLimit small_config\<rparr>]"
  by (simp add: buildLimitChecks_def small_config_def empty_Key_def Key_String_def key_parts_def Let_def)

lemma ada_denied:
  "denies Take (at_time 0) 1 (buildLimitChecks small_config ada_key) 0 drained_store"
proof -
  have "holds ''s:ws:u:ada'' (UserLimit small_config) 0 0 drained_store"
    by (simp add: holds_def drained_store_def)
  then have "refilled (UserLimit small_config) 0 (bucket_for ''s:ws:u:ada'' (UserLimit small_config) 0 drained_store) = 0"
    using holds_refilled [of "''s:ws:u:ada''" "UserLimit small_config" 0 0 drained_store]
    by (simp add: small_config_def limit_defs EffectiveBurst_def)
  moreover have "fl 1 = (1 :: rat)" using fl_of_int [of 1] by simp
  ultimately show ?thesis
    using Take_result [of "\<lparr>e_Err = None, e_Now = 0\<rparr>" "''s:ws:u:ada''" "UserLimit small_config" 1 drained_store]
    by (auto simp: denies_def check_take_def at_time_def ada_checks)
qed

theorem AllowN_decision_witness:
  "\<exists>r st'. AllowN Take (at_time 0) ada_key 1 (small_limiter\<lparr>h_store := Some drained_store\<rparr>) =
     Some (r, Some ErrRateLimited, small_limiter\<lparr>h_store := Some st'\<rparr>) \<and>
   mget (m_buckets st') ''s:global'' = mget (m_buckets drained_store) ''s:global''"
proof -
  let ?l = "small_limiter\<lparr>h_store := Some drained_store\<rparr>"
  let ?cs = "buildLimitChecks small_config ada_key"
  have cs: "?cs = buildLimitChecks (h_cfg ?l) ada_key" by (simp add: small_limiter_def)
  have len: "length ?cs = 2" by (simp add: ada_checks)
  obtain r er st' where a: "AllowN Take (at_time 0) ada_key 1 ?l = Some (r, er, ?l\<lparr>h_store := Some st'\<rparr>)"
    "er = Some ErrRateLimited \<longleftrightarrow> (\<exists>i<length ?cs. denies Take (at_time 0) 1 ?cs i drained_store)"
    "\<forall>i<length ?cs. mget (m_buckets st') (lc_key (?cs ! i)) =
       (if \<exists>j<i. denies Take (at_time 0) 1 ?cs j drained_store then mget (m_buckets drained_store) (lc_key (?cs ! i))
        else mget (m_buckets (snd (check_take Take (at_time 0) 1 ?cs i drained_store))) (lc_key (?cs ! i)))"
    using AllowN_decision [OF _ _ cs, of drained_store "at_time 0" 1] by (auto simp: small_limiter_def)
  have "er = Some ErrRateLimited" using a(2) ada_denied len by (metis zero_less_numeral)
  moreover have "mget (m_buckets st') (lc_key (?cs ! 1)) = mget (m_buckets drained_store) (lc_key (?cs ! 1))"
    using a(3) ada_denied len by (metis one_less_numeral_iff semiring_norm(76) zero_less_one)
  ultimately show ?thesis using a(1) by (intro exI [of _ r] exI [of _ st']) (simp add: ada_checks)
qed

text \<open>\<open>Reset\<close> of the limiter clears the bucket of the full key only: every other bucket of the key's
  hierarchy, the ones of its user, its tenant and the global one, keeps its state.\<close>

theorem Limiter_Reset_one_bucket:
  assumes "h_enabled l" "h_store l = Some st" "e_Err e = None"
  shows "\<exists>st'. Limiter_Reset Reset e key l = (Ok (), l\<lparr>h_store := Some st'\<rparr>) \<and>
    (\<forall>k. mget (m_buckets st') k = (if k = Key_String key then None else mget (m_buckets st) k))"
  using assms by (auto simp: Limiter_Reset_def Reset_def)

theorem Limiter_Reset_one_bucket_witness:
  "\<exists>st'. Limiter_Reset Reset \<lparr>e_Err = None, e_Now = 0\<rparr> (ada_key\<lparr>k_Tool := ''search''\<rparr>)
       (small_limiter\<lparr>h_store := Some drained_store\<rparr>) = (Ok (), small_limiter\<lparr>h_store := Some st'\<rparr>) \<and>
     mget (m_buckets st') ''s:ws:u:ada'' \<noteq> None"
proof -
  let ?key = "ada_key\<lparr>k_Tool := ''search''\<rparr>"
  have k: "Key_String ?key = ''s:ws:u:ada:tl:search''"
    by (simp add: empty_Key_def Key_String_def key_parts_def Let_def)
  show ?thesis
    using Limiter_Reset_one_bucket [of "small_limiter\<lparr>h_store := Some drained_store\<rparr>" drained_store "\<lparr>e_Err = None, e_Now = 0\<rparr>" ?key]
    by (auto simp: small_limiter_def k drained_store_def)
qed

text \<open>What the WebSocket gateway sees of an enabled limiter: a message passes exactly when no level of
  its hierarchy denies it, with no delay to wait; one that does not pass carries the retry delay of the
  first level that denied it.\<close>

theorem CheckMessage_decision:
  assumes "h_enabled l" "h_store l = Some st"
    "cs = buildLimitChecks (h_cfg l) (empty_Key\<lparr>k_Scope := ''ws'', k_Tenant := tenant, k_User := user, k_Tool := tool\<rparr>)"
  shows "\<exists>ok wait l'. CheckMessage Take env tenant user tool (Some l) = Some (ok, wait, Some l') \<and>
    (ok \<longleftrightarrow> \<not> (\<exists>j<length cs. denies Take env 1 cs j st)) \<and> (ok \<longrightarrow> wait = 0) \<and>
    (\<forall>j<length cs. denies Take env 1 cs j st \<and> (\<forall>i<j. \<not> denies Take env 1 cs i st)
       \<longrightarrow> (\<exists>r. fst (check_take Take env 1 cs j st) = Ok r \<and> wait = r_RetryAfter r))"
proof -
  let ?key = "empty_Key\<lparr>k_Scope := ''ws'', k_Tenant := tenant, k_User := user, k_Tool := tool\<rparr>"
  obtain r er st' where r: "AllowN Take env ?key 1 l = Some (r, er, l\<lparr>h_store := Some st'\<rparr>)"
    "er = Some ErrRateLimited \<longleftrightarrow> (\<exists>i<length cs. denies Take env 1 cs i st)" "er = None \<longrightarrow> r = allowed_Result"
    "\<forall>j<length cs. denies Take env 1 cs j st \<and> (\<forall>i<j. \<not> denies Take env 1 cs i st)
       \<longrightarrow> fst (check_take Take env 1 cs j st) = Ok r"
    using AllowN_outcome [OF assms, of env 1] by (elim exE conjE) rule
  have "er = Some ErrRateLimited \<or> er = None" by (metis limit_error.exhaust not_None_eq)
  then show ?thesis
    using r assms(1) by (auto simp: CheckMessage_def Allow_def allowed_Result_def zero_Result_def)
qed

theorem CheckMessage_decision_witness:
  "\<exists>wait l'. CheckMessage Take (at_time 0) [] ''ada'' [] (Some (small_limiter\<lparr>h_store := Some drained_store\<rparr>)) =
     Some (False, wait, Some l')"
proof -
  let ?l = "small_limiter\<lparr>h_store := Some drained_store\<rparr>"
  have k: "empty_Key\<lparr>k_Scope := ''ws'', k_Tenant := [], k_User := ''ada'', k_Tool := []\<rparr> = ada_key"
    by (simp add: empty_Key_def)
  have cs: "buildLimitChecks small_config ada_key =
    buildLimitChecks (h_cfg ?l) (empty_Key\<lparr>k_Scope := ''ws'', k_Tenant := [], k_User := ''ada'', k_Tool := []\<rparr>)"
    by (simp only: k) (simp add: small_limiter_def)
  have "\<exists>j<length (buildLimitChecks small_config ada_key).
      denies Take (at_time 0) 1 (buildLimitChecks small_config ada_key) j drained_store"
    using ada_denied by (intro exI [of _ 0]) (simp add: ada_checks)
  with CheckMessage_decision [OF _ _ cs, of drained_store "at_time 0"] show ?thesis
    by (fastforce simp: small_limiter_def)
qed

end
