(* ===== verification/Billing.thy ===== *)
theory Billing
  imports Go_Values
begin

text \<open>
  The package \<open>internal/billing\<close> (\<open>webhook.go\<close>): billing events sent to a webhook with retries, and the
  queue of 100 events with its background worker. JSON encoding, HMAC, the construction of the HTTP
  request and the HTTP client are arguments.

  Shown here: how often and with what a send is attempted and when it succeeds, and that the queue and
  its worker hand every accepted event to \<open>Send\<close> once and in order, dropping events only when 100 are
  waiting.
\<close>

section \<open>Events and configuration\<close>

record Event =
  ev_ID :: string
  ev_Type :: string
  ev_Timestamp :: time
  ev_TenantID :: string
  ev_UserID :: string
  ev_Data :: "(string \<times> any) list"

definition EventQuotaWarning :: string where "EventQuotaWarning = ''quota.warning''"
definition EventQuotaExceeded :: string where "EventQuotaExceeded = ''quota.exceeded''"

record Config =
  bc_Enabled :: bool
  bc_URL :: string
  bc_Secret :: string
  bc_Timeout :: duration
  bc_MaxRetries :: int
  bc_RetryDelay :: duration

definition envBoolDefault :: "getenv \<Rightarrow> string \<Rightarrow> bool \<Rightarrow> bool" where
  "envBoolDefault getenv key fallback =
     (let v = TrimSpace (ToLower (getenv key))
      in if v = [] then fallback else v = ''true'' \<or> v = ''1'' \<or> v = ''yes'')"

definition envIntDefault :: "getenv \<Rightarrow> string \<Rightarrow> int \<Rightarrow> int" where
  "envIntDefault getenv key fallback =
     (let v = TrimSpace (getenv key) in if v = [] then fallback else digits_loop fallback 0 v)"

definition envDurationDefault :: "getenv \<Rightarrow> string \<Rightarrow> duration \<Rightarrow> duration" where
  "envDurationDefault getenv key fallback =
     (let v = TrimSpace (getenv key)
      in if v = [] then fallback
         else (case ParseDuration v of None \<Rightarrow> fallback | Some d \<Rightarrow> if d < 0 then fallback else d))"

definition LoadConfigFromEnv :: "getenv \<Rightarrow> Config" where
  "LoadConfigFromEnv getenv =
     \<lparr>bc_Enabled = envBoolDefault getenv ''FI_MCP_BILLING_ENABLED'' False,
      bc_URL = getenv ''FI_MCP_BILLING_WEBHOOK_URL'',
      bc_Secret = getenv ''FI_MCP_BILLING_WEBHOOK_SECRET'',
      bc_Timeout = envDurationDefault getenv ''FI_MCP_BILLING_WEBHOOK_TIMEOUT'' (10 * Second),
      bc_MaxRetries = envIntDefault getenv ''FI_MCP_BILLING_WEBHOOK_MAX_RETRIES'' 3,
      bc_RetryDelay = envDurationDefault getenv ''FI_MCP_BILLING_WEBHOOK_RETRY_DELAY'' (1 * Second)\<rparr>"


section \<open>Sending one event\<close>

record http_request =
  q_Method :: string
  q_URL :: string
  q_Headers :: "(string, string) gomap"
  q_Body :: string

text \<open>What the sender calls outside this package: \<open>json.Marshal\<close> of an event, the error of
  \<open>http.NewRequestWithContext\<close> for a URL, and HMAC-SHA-256 of a secret and a payload.\<close>

record platform =
  pf_Marshal :: "Event \<Rightarrow> (string, string) result"
  pf_NewRequest :: "string \<Rightarrow> string option"
  pf_HMAC :: "string \<Rightarrow> string \<Rightarrow> string"

definition sign :: "platform \<Rightarrow> Config \<Rightarrow> string \<Rightarrow> string" where
  "sign pf cfg payload = ''sha256='' @ EncodeToString (pf_HMAC pf (bc_Secret cfg) payload)"

definition build_request :: "platform \<Rightarrow> Config \<Rightarrow> Event \<Rightarrow> (string, http_request) result" where
  "build_request pf cfg event =
     (case pf_Marshal pf event of
        Inl er \<Rightarrow> Err (''marshal event: '' @ er)
      | Inr payload \<Rightarrow>
          (case pf_NewRequest pf (bc_URL cfg) of
             Some er \<Rightarrow> Err (''create request: '' @ er)
           | None \<Rightarrow>
               let h = [(''Content-Type'', ''application/json''), (''X-Webhook-Event'', ev_Type event),
                        (''X-Webhook-ID'', ev_ID event), (''X-Webhook-Timestamp'', FormatRFC3339 (ev_Timestamp event))];
                   h' = (if bc_Secret cfg \<noteq> [] then mput ''X-Webhook-Signature'' (sign pf cfg payload) h else h)
               in Ok \<lparr>q_Method = ''POST'', q_URL = bc_URL cfg, q_Headers = h', q_Body = payload\<rparr>))"

text \<open>\<open>sendOnce\<close>: \<open>client\<close> is \<open>client.Do\<close>, an error or the status code of the response. The second component
  is the request that was sent, if one was.\<close>

definition sendOnce :: "platform \<Rightarrow> Config \<Rightarrow> (http_request \<Rightarrow> (string, int) result) \<Rightarrow> Event \<Rightarrow>
    (string, unit) result \<times> http_request list" where
  "sendOnce pf cfg client event =
     (case build_request pf cfg event of
        Inl er \<Rightarrow> (Err er, [])
      | Inr req \<Rightarrow>
          (case client req of
             Inl er \<Rightarrow> (Err (''send request: '' @ er), [req])
           | Inr status \<Rightarrow>
               if status < 200 \<or> status \<ge> 300 then (Err (''webhook returned status '' @ Itoa status), [req])
               else (Ok (), [req])))"

text \<open>The environment of a \<open>Send\<close>: the clock, the client at each attempt, and the context's error if the
  context is done while the sender waits before an attempt.\<close>

record send_env =
  se_Now :: time
  se_Client :: "nat \<Rightarrow> http_request \<Rightarrow> (string, int) result"
  se_Done :: "nat \<Rightarrow> string option"

definition stamped :: "time \<Rightarrow> Event \<Rightarrow> Event" where
  "stamped now event =
     (let e1 = (if ev_ID event = [] then event\<lparr>ev_ID := Itoa (UnixNano now)\<rparr> else event)
      in if IsZero (ev_Timestamp e1) then e1\<lparr>ev_Timestamp := now\<rparr> else e1)"

text \<open>The retry loop over the attempt numbers. It returns the outcome, the requests sent and the delays
  waited. The delay doubles as an \<open>int64\<close>.\<close>

fun send_loop :: "platform \<Rightarrow> Config \<Rightarrow> send_env \<Rightarrow> Event \<Rightarrow> duration \<Rightarrow> string \<Rightarrow> nat list \<Rightarrow>
    (string, unit) result \<times> http_request list \<times> duration list" where
  "send_loop pf cfg env event delay lastErr [] =
     (Err (''webhook failed after '' @ Itoa (wrap64 (bc_MaxRetries cfg + 1)) @ '' attempts: '' @ lastErr), [], [])"
| "send_loop pf cfg env event delay lastErr (attempt # rest) =
     (case (if attempt > 0 then se_Done env attempt else None) of
        Some er \<Rightarrow> (Err er, [], [])
      | None \<Rightarrow>
          let waited = (if attempt > 0 then [delay] else []);
              delay' = (if attempt > 0 then wrap64 (delay * 2) else delay)
          in (case sendOnce pf cfg (se_Client env attempt) event of
                (Inr _, reqs) \<Rightarrow> (Ok (), reqs, waited)
              | (Inl er, reqs) \<Rightarrow>
                  (case send_loop pf cfg env event delay' er rest of
                     (r, reqs', waits) \<Rightarrow> (r, reqs @ reqs', waited @ waits))))"

definition Send :: "platform \<Rightarrow> Config \<Rightarrow> send_env \<Rightarrow> Event \<Rightarrow> (string, unit) result \<times> http_request list \<times> duration list" where
  "Send pf cfg env event =
     (if \<not> bc_Enabled cfg \<or> bc_URL cfg = [] then (Ok (), [], [])
      else send_loop pf cfg env (stamped (se_Now env) event) (bc_RetryDelay cfg) [] [0..<nat (bc_MaxRetries cfg + 1)])"


section \<open>The queue and its worker\<close>

datatype worker_state = Waiting | Draining | Stopped

text \<open>The state of an asynchronous sender: the channel \<open>eventsCh\<close> of capacity 100, whether \<open>done\<close> is closed,
  and where the worker is. The histories record the events the channel accepted, those dropped and those
  the worker took out to \<open>Send\<close>.\<close>

record sender =
  sn_cfg :: Config
  sn_queue :: "Event list"
  sn_closed :: bool
  sn_worker :: worker_state
  sn_accepted :: "Event list"
  sn_dropped :: "Event list"
  sn_taken :: "Event list"

definition queue_capacity :: nat where "queue_capacity = 100"

definition NewWebhookSender :: "Config \<Rightarrow> sender" where
  "NewWebhookSender cfg =
     \<lparr>sn_cfg = cfg, sn_queue = [], sn_closed = False,
      sn_worker = (if \<not> bc_Enabled cfg \<or> bc_URL cfg = [] then Stopped else Waiting),
      sn_accepted = [], sn_dropped = [], sn_taken = []\<rparr>"

definition SendAsync :: "Event \<Rightarrow> sender \<Rightarrow> sender" where
  "SendAsync event s =
     (if \<not> bc_Enabled (sn_cfg s) \<or> bc_URL (sn_cfg s) = [] then s
      else if length (sn_queue s) < queue_capacity
      then s\<lparr>sn_queue := sn_queue s @ [event], sn_accepted := sn_accepted s @ [event]\<rparr>
      else s\<lparr>sn_dropped := sn_dropped s @ [event]\<rparr>)"

text \<open>The worker receives the next event, in either of its two loops, or sees that \<open>done\<close> is closed, or
  finds the queue empty while draining and returns.\<close>

inductive worker_step :: "sender \<Rightarrow> sender \<Rightarrow> bool" where
  receive: "sn_worker s \<noteq> Stopped \<Longrightarrow> sn_queue s = event # rest \<Longrightarrow>
    worker_step s (s\<lparr>sn_queue := rest, sn_taken := sn_taken s @ [event]\<rparr>)"
| see_done: "sn_worker s = Waiting \<Longrightarrow> sn_closed s \<Longrightarrow> worker_step s (s\<lparr>sn_worker := Draining\<rparr>)"
| drained: "sn_worker s = Draining \<Longrightarrow> sn_queue s = [] \<Longrightarrow> worker_step s (s\<lparr>sn_worker := Stopped\<rparr>)"

inductive sender_step :: "sender \<Rightarrow> sender \<Rightarrow> bool" where
  send_async: "sender_step s (SendAsync event s)"
| close: "\<not> sn_closed s \<Longrightarrow> sender_step s (s\<lparr>sn_closed := True\<rparr>)"
| worker: "worker_step s s' \<Longrightarrow> sender_step s s'"

inductive_cases worker_stepE: "worker_step s s'"
inductive_cases sender_stepE: "sender_step s s'"

inductive sender_reach :: "Config \<Rightarrow> sender \<Rightarrow> bool" for cfg where
  start: "sender_reach cfg (NewWebhookSender cfg)"
| step: "sender_reach cfg s \<Longrightarrow> sender_step s s' \<Longrightarrow> sender_reach cfg s'"

text \<open>The invariant of the queue: what was taken out, followed by what still waits, is what was accepted.\<close>

definition queue_inv :: "sender \<Rightarrow> bool" where
  "queue_inv s \<longleftrightarrow> sn_taken s @ sn_queue s = sn_accepted s \<and> length (sn_queue s) \<le> queue_capacity"

lemma queue_inv_step: "queue_inv s \<Longrightarrow> sender_step s s' \<Longrightarrow> queue_inv s'"
  by (elim sender_stepE worker_stepE) (auto simp: queue_inv_def SendAsync_def)

lemma reach_queue_inv: "sender_reach cfg s \<Longrightarrow> queue_inv s"
proof (induction rule: sender_reach.induct)
  case start
  show ?case by (simp add: queue_inv_def NewWebhookSender_def)
next
  case (step s s')
  then show ?case by (blast intro: queue_inv_step)
qed

text \<open>The webhook queue loses and repeats nothing: in every reachable state the events the worker has
  taken, followed by those still queued, are exactly the accepted events in the order of \<open>SendAsync\<close>,
  and at most 100 are queued.\<close>

theorem webhook_queue_fifo:
  assumes "sender_reach cfg s"
  shows "sn_taken s @ sn_queue s = sn_accepted s \<and> length (sn_queue s) \<le> 100"
  using reach_queue_inv [OF assms] by (simp add: queue_inv_def queue_capacity_def)

text \<open>When the worker returns it leaves nothing behind.\<close>

lemma worker_return_empties:
  "queue_inv s \<Longrightarrow> worker_step s s' \<Longrightarrow> sn_worker s \<noteq> Stopped \<Longrightarrow> sn_worker s' = Stopped \<Longrightarrow>
   sn_taken s' = sn_accepted s'"
  by (elim worker_stepE) (auto simp: queue_inv_def)

theorem webhook_queue_fifo_witness:
  "(let cfg = \<lparr>bc_Enabled = True, bc_URL = ''http://b'', bc_Secret = [], bc_Timeout = Second, bc_MaxRetries = 1, bc_RetryDelay = 5\<rparr>;
        e = \<lparr>ev_ID = ''1'', ev_Type = EventQuotaWarning, ev_Timestamp = 1, ev_TenantID = ''acme'', ev_UserID = [], ev_Data = []\<rparr>;
        s = SendAsync (e\<lparr>ev_ID := ''2''\<rparr>) (SendAsync e (NewWebhookSender cfg))
    in sn_taken s @ sn_queue s = sn_accepted s \<and> length (sn_queue s) \<le> 100 \<and> length (sn_accepted s) = 2)"
proof -
  let ?cfg = "\<lparr>bc_Enabled = True, bc_URL = ''http://b'', bc_Secret = [], bc_Timeout = Second, bc_MaxRetries = 1, bc_RetryDelay = 5\<rparr>"
  let ?e = "\<lparr>ev_ID = ''1'', ev_Type = EventQuotaWarning, ev_Timestamp = 1, ev_TenantID = ''acme'', ev_UserID = [], ev_Data = []\<rparr>"
  let ?s = "SendAsync (?e\<lparr>ev_ID := ''2''\<rparr>) (SendAsync ?e (NewWebhookSender ?cfg))"
  have "sender_reach ?cfg ?s" 
    by (rule sender_reach.step [OF sender_reach.step [OF sender_reach.start sender_step.send_async] sender_step.send_async])
  from webhook_queue_fifo [OF this] show ?thesis
    unfolding Let_def by (simp add: SendAsync_def NewWebhookSender_def queue_capacity_def)
qed


section \<open>Closing\<close>

text \<open>Every turn of the worker of a closed sender brings it closer to its return.\<close>

definition turns_left :: "sender \<Rightarrow> nat" where
  "turns_left s = length (sn_queue s) + (case sn_worker s of Waiting \<Rightarrow> 2 | Draining \<Rightarrow> 1 | Stopped \<Rightarrow> 0)"

definition closing :: "sender \<Rightarrow> bool" where
  "closing s \<longleftrightarrow> queue_inv s \<and> sn_closed s \<and> (sn_worker s = Stopped \<longrightarrow> sn_queue s = [])"

lemma closing_turn:
  assumes "worker_step s s'" "closing s"
  shows "closing s' \<and> Suc (turns_left s') = turns_left s"
  using assms by cases (auto simp: closing_def queue_inv_def turns_left_def)

lemma closing_turns: "(worker_step ^^ n) s s' \<Longrightarrow> closing s \<Longrightarrow> closing s' \<and> turns_left s' + n = turns_left s"
proof (induction n arbitrary: s')
  case (Suc n)
  then obtain t where t: "(worker_step ^^ n) s t" "worker_step t s'" by auto
  with Suc.IH [OF t(1) Suc.prems(2)] closing_turn [OF t(2)] show ?case by auto
qed simp

lemma closing_stuck:
  assumes "closing s" "\<nexists>s'. worker_step s s'"
  shows "sn_worker s = Stopped"
proof (cases "sn_worker s")
  case Waiting
  with assms see_done [of s] show ?thesis by (auto simp: closing_def)
next
  case Draining
  with assms(2) drained [of s] receive [of s] show ?thesis by (cases "sn_queue s") auto
qed

text \<open>C33. Closing terminates and loses nothing: once a running sender is closed, its worker takes at most as many turns
  as there are events queued and two more, and when it can take no further turn it has returned and every accepted
  event was taken.\<close>

theorem webhook_worker_drains:
  assumes "sender_reach cfg s" "sn_closed s" "sn_worker s \<noteq> Stopped" "(worker_step ^^ n) s s'"
  shows "n \<le> length (sn_queue s) + 2 \<and>
    ((\<nexists>s''. worker_step s' s'') \<longrightarrow> sn_worker s' = Stopped \<and> sn_queue s' = [] \<and> sn_taken s' = sn_accepted s')"
proof -
  have "closing s" using assms(1-3) reach_queue_inv by (simp add: closing_def)
  from closing_turns [OF assms(4) this] have c: "closing s'" "turns_left s' + n = turns_left s" by auto
  from c(2) have "n \<le> length (sn_queue s) + 2" by (auto simp: turns_left_def split: worker_state.splits)
  moreover have "sn_worker s' = Stopped \<and> sn_queue s' = [] \<and> sn_taken s' = sn_accepted s'" if "\<nexists>s''. worker_step s' s''"
    using closing_stuck [OF c(1) that] c(1) by (auto simp: closing_def queue_inv_def)
  ultimately show ?thesis by blast
qed

definition demo_billing :: Config where
  "demo_billing = \<lparr>bc_Enabled = True, bc_URL = ''http://b'', bc_Secret = [], bc_Timeout = Second, bc_MaxRetries = 1, bc_RetryDelay = 5\<rparr>"

theorem webhook_worker_drains_witness:
  "\<exists>s s'. sender_reach demo_billing s \<and> sn_closed s \<and> (worker_step ^^ 1) s s' \<and> 1 \<le> length (sn_queue s) + 2"
proof -
  let ?s0 = "NewWebhookSender demo_billing"
  let ?s = "?s0\<lparr>sn_closed := True\<rparr>"
  have r: "sender_reach demo_billing ?s"
    by (rule sender_reach.step [OF sender_reach.start sender_step.close]) (simp add: NewWebhookSender_def)
  have w: "sn_worker ?s = Waiting" by (simp add: NewWebhookSender_def demo_billing_def)
  have st: "(worker_step ^^ 1) ?s (?s\<lparr>sn_worker := Draining\<rparr>)" using see_done [OF w] by (auto simp: eq_OO)
  from webhook_worker_drains [OF r _ _ st] w r st show ?thesis by fastforce
qed


section \<open>Attempts of a send\<close>

definition accepted_by :: "(http_request \<Rightarrow> (string, int) result) \<Rightarrow> http_request \<Rightarrow> bool" where
  "accepted_by client req \<longleftrightarrow> (\<exists>st. client req = Ok st \<and> 200 \<le> st \<and> st < 300)"

lemma sendOnce_result:
  assumes "build_request pf cfg event = Ok req"
  shows "snd (sendOnce pf cfg client event) = [req] \<and>
    ((\<exists>u. fst (sendOnce pf cfg client event) = Ok u) \<longleftrightarrow> accepted_by client req)"
  using assms by (auto simp: sendOnce_def accepted_by_def split: sum.split)

text \<open>The attempts \<open>k, ..., k + m - 1\<close>: every request sent is the same, at most \<open>m\<close> are, and the loop
  succeeds exactly when an attempt is accepted before the context is done.\<close>

lemma send_loop_result:
  assumes "build_request pf cfg event = Ok req"
  shows "set (fst (snd (send_loop pf cfg env event d er [k..<k + m]))) \<subseteq> {req} \<and>
    length (fst (snd (send_loop pf cfg env event d er [k..<k + m]))) \<le> m \<and>
    (fst (send_loop pf cfg env event d er [k..<k + m]) = Ok () \<longleftrightarrow>
      (\<exists>i. k \<le> i \<and> i < k + m \<and> accepted_by (se_Client env i) req \<and> (\<forall>j. k \<le> j \<and> j \<le> i \<and> 0 < j \<longrightarrow> se_Done env j = None)))"
proof (induction m arbitrary: k d er)
  case 0
  show ?case by simp
next
  case (Suc m)
  have upt: "[k..<k + Suc m] = k # [Suc k..<Suc k + m]" by (simp add: upt_conv_Cons)
  obtain x reqs where once: "sendOnce pf cfg (se_Client env k) event = (x, reqs)" by force
  note so = sendOnce_result [OF assms, of "se_Client env k", unfolded once]
  show ?case
  proof (cases "0 < k \<and> se_Done env k \<noteq> None")
    case True
    then have "\<not> (\<exists>i. k \<le> i \<and> i < k + Suc m \<and> accepted_by (se_Client env i) req \<and>
        (\<forall>j. k \<le> j \<and> j \<le> i \<and> 0 < j \<longrightarrow> se_Done env j = None))" by auto
    with True show ?thesis unfolding upt by auto
  next
    case False
    then have nd: "(if 0 < k then se_Done env k else None) = None" by auto
    show ?thesis
    proof (cases x)
      case (Inr u)
      then have "accepted_by (se_Client env k) req" "reqs = [req]" using so by auto
      moreover from this have "\<exists>i. k \<le> i \<and> i < k + Suc m \<and> accepted_by (se_Client env i) req \<and>
          (\<forall>j. k \<le> j \<and> j \<le> i \<and> 0 < j \<longrightarrow> se_Done env j = None)"
        using False by (intro exI [of _ k]) auto
      ultimately show ?thesis unfolding upt send_loop.simps nd using once Inr by simp
    next
      case (Inl er')
      then have na: "\<not> accepted_by (se_Client env k) req" "reqs = [req]" using so by auto
      let ?d = "if 0 < k then wrap64 (d * 2) else d"
      obtain r reqs' waits where rest: "send_loop pf cfg env event ?d er' [Suc k..<Suc k + m] = (r, reqs', waits)"
        by (cases "send_loop pf cfg env event ?d er' [Suc k..<Suc k + m]")
      have eq: "(\<exists>i. k \<le> i \<and> i < k + Suc m \<and> accepted_by (se_Client env i) req \<and>
            (\<forall>j. k \<le> j \<and> j \<le> i \<and> 0 < j \<longrightarrow> se_Done env j = None)) \<longleftrightarrow>
          (\<exists>i. Suc k \<le> i \<and> i < Suc k + m \<and> accepted_by (se_Client env i) req \<and>
            (\<forall>j. Suc k \<le> j \<and> j \<le> i \<and> 0 < j \<longrightarrow> se_Done env j = None))"
        (is "?L \<longleftrightarrow> ?R")
      proof
        assume ?L
        then obtain i where i: "k \<le> i" "i < k + Suc m" "accepted_by (se_Client env i) req"
          "\<forall>j. k \<le> j \<and> j \<le> i \<and> 0 < j \<longrightarrow> se_Done env j = None" by blast
        then have "i \<noteq> k" using na(1) by blast
        with i show ?R by (intro exI [of _ i]) auto
      next
        assume ?R
        then obtain i where i: "Suc k \<le> i" "i < Suc k + m" "accepted_by (se_Client env i) req"
          "\<forall>j. Suc k \<le> j \<and> j \<le> i \<and> 0 < j \<longrightarrow> se_Done env j = None" by blast
        then have "\<forall>j. k \<le> j \<and> j \<le> i \<and> 0 < j \<longrightarrow> se_Done env j = None"
          using False by (metis Suc_leI le_neq_implies_less)
        with i show ?L by (intro exI [of _ i]) auto
      qed
      have "send_loop pf cfg env event d er (k # [Suc k..<Suc k + m]) = (r, reqs @ reqs', (if 0 < k then [d] else []) @ waits)"
        unfolding send_loop.simps nd using once Inl rest by (simp add: Let_def)
      with Suc.IH [of ?d er' "Suc k", unfolded rest] na(2) eq show ?thesis unfolding upt by auto
    qed
  qed
qed

text \<open>Retries of a webhook: every request of one \<open>Send\<close> is the same signed request with the same event
  ID, at most \<open>MaxRetries + 1\<close> are sent, and \<open>Send\<close> succeeds exactly when one of these attempts gets a 2xx
  answer before the context is done.\<close>

theorem Send_attempts:
  assumes "bc_Enabled cfg" "bc_URL cfg \<noteq> []" "0 \<le> bc_MaxRetries cfg"
    "build_request pf cfg (stamped (se_Now env) event) = Ok req"
  shows "set (fst (snd (Send pf cfg env event))) \<subseteq> {req} \<and>
    int (length (fst (snd (Send pf cfg env event)))) \<le> bc_MaxRetries cfg + 1 \<and>
    (fst (Send pf cfg env event) = Ok () \<longleftrightarrow>
      (\<exists>i. int i \<le> bc_MaxRetries cfg \<and> accepted_by (se_Client env i) req \<and> (\<forall>j. 0 < j \<and> j \<le> i \<longrightarrow> se_Done env j = None)))"
proof -
  let ?n = "nat (bc_MaxRetries cfg + 1)"
  have n: "i < ?n \<longleftrightarrow> int i \<le> bc_MaxRetries cfg" "i \<le> ?n \<longleftrightarrow> int i \<le> bc_MaxRetries cfg + 1" for i
    using assms(3) by auto
  have "Send pf cfg env event = send_loop pf cfg env (stamped (se_Now env) event) (bc_RetryDelay cfg) [] [0..<0 + ?n]"
    using assms(1,2) by (simp add: Send_def)
  with send_loop_result [OF assms(4), of env "bc_RetryDelay cfg" "[]" 0 ?n] show ?thesis by (auto simp: n)
qed

theorem Send_attempts_witness:
  "(let pf = \<lparr>pf_Marshal = (\<lambda>e. Ok ''{}''), pf_NewRequest = (\<lambda>u. None), pf_HMAC = (\<lambda>s p. s @ p)\<rparr>;
        cfg = \<lparr>bc_Enabled = True, bc_URL = ''http://b'', bc_Secret = ''k'', bc_Timeout = Second, bc_MaxRetries = 3, bc_RetryDelay = 5\<rparr>;
        e = \<lparr>ev_ID = ''1'', ev_Type = EventQuotaWarning, ev_Timestamp = 1, ev_TenantID = ''acme'', ev_UserID = [], ev_Data = []\<rparr>;
        env = \<lparr>se_Now = unix_epoch, se_Client = (\<lambda>i q. if i < 2 then Ok 503 else Ok 200), se_Done = (\<lambda>i. None)\<rparr>
    in fst (Send pf cfg env e) = Ok ())"
proof -
  let ?pf = "\<lparr>pf_Marshal = (\<lambda>e. Ok ''{}''), pf_NewRequest = (\<lambda>u. None), pf_HMAC = (\<lambda>s p. s @ p)\<rparr>"
  let ?cfg = "\<lparr>bc_Enabled = True, bc_URL = ''http://b'', bc_Secret = ''k'', bc_Timeout = Second, bc_MaxRetries = 3, bc_RetryDelay = 5\<rparr>"
  let ?e = "\<lparr>ev_ID = ''1'', ev_Type = EventQuotaWarning, ev_Timestamp = 1, ev_TenantID = ''acme'', ev_UserID = [], ev_Data = []\<rparr>"
  let ?env = "\<lparr>se_Now = unix_epoch, se_Client = (\<lambda>i q. if i < 2 then Ok 503 else Ok 200), se_Done = (\<lambda>i. None)\<rparr>"
  obtain req where req: "build_request ?pf ?cfg (stamped (se_Now ?env) ?e) = Ok req"
    by (simp add: build_request_def Let_def)
  have "accepted_by (se_Client ?env 2) req" by (simp add: accepted_by_def)
  then have "\<exists>i. int i \<le> bc_MaxRetries ?cfg \<and> accepted_by (se_Client ?env i) req \<and> (\<forall>j. 0 < j \<and> j \<le> i \<longrightarrow> se_Done ?env j = None)"
    by (intro exI [of _ 2]) simp
  with Send_attempts [OF _ _ _ req] show ?thesis unfolding Let_def by simp
qed

end
