(* ===== verification/Quota.thy ===== *)
theory Quota
  imports Billing
begin

text \<open>
  The package \<open>internal/quota\<close>: quotas, periods and configuration (\<open>quota.go\<close>), the manager
  (\<open>manager.go\<close>) and the in-memory store (\<open>memory.go\<close>). Quota types and periods are strings, as in the
  source. The manager works on any store, a record of operations; the locale \<open>quota_store\<close> states what
  it relies on and is interpreted here on the in-memory store and, in \<open>Quota_Postgres\<close>, on the
  Postgres store.

  Shown here: the bounds of a period enclose the instant they are computed for and are the same for
  every instant between them, checked increments never pass the limit, which quota applies to a
  request, and that a failing store admits every request.
\<close>

section \<open>Quotas\<close>

definition QuotaTypeRequests :: string where "QuotaTypeRequests = ''requests''"
definition QuotaTypeTokensIn :: string where "QuotaTypeTokensIn = ''tokens_in''"
definition QuotaTypeTokensOut :: string where "QuotaTypeTokensOut = ''tokens_out''"
definition QuotaTypeToolCalls :: string where "QuotaTypeToolCalls = ''tool_calls''"

definition PeriodDaily :: string where "PeriodDaily = ''daily''"
definition PeriodWeekly :: string where "PeriodWeekly = ''weekly''"
definition PeriodMonthly :: string where "PeriodMonthly = ''monthly''"

record Quota =
  qt_TenantID :: string
  qt_UserID :: string
  qt_Type :: string
  qt_Limit :: int
  qt_SoftLimit :: int
  qt_Period :: string
  qt_CreatedAt :: time
  qt_UpdatedAt :: time

definition HasSoftLimit :: "Quota \<Rightarrow> bool" where "HasSoftLimit q = (qt_SoftLimit q > 0)"

record Usage =
  us_TenantID :: string
  us_UserID :: string
  us_Type :: string
  us_PeriodStart :: time
  us_PeriodEnd :: time
  us_Current :: int
  us_LastUpdated :: time

definition Remaining :: "Usage \<Rightarrow> int \<Rightarrow> int" where
  "Remaining u limit = (let remaining = wrap64 (limit - us_Current u) in if remaining < 0 then 0 else remaining)"

definition PercentUsed :: "Usage \<Rightarrow> int \<Rightarrow> rat" where
  "PercentUsed u limit =
     (if limit = 0 then 0 else f64_mul (fl (f64_of_int (us_Current u) / f64_of_int limit)) 100)"

record CheckResult =
  cq_Allowed :: bool
  cq_Current :: int
  cq_Limit :: int
  cq_SoftLimit :: int
  cq_Remaining :: int
  cq_PercentUsed :: rat
  cq_ResetAt :: time
  cq_Warning :: bool
  cq_QuotaType :: string

definition allowed_check :: CheckResult where
  "allowed_check = \<lparr>cq_Allowed = True, cq_Current = 0, cq_Limit = 0, cq_SoftLimit = 0, cq_Remaining = 0, cq_PercentUsed = 0,
     cq_ResetAt = 0, cq_Warning = False, cq_QuotaType = []\<rparr>"

record Config =
  qc_Enabled :: bool
  qc_Store :: string
  qc_PostgresURL :: string
  qc_DefaultDailyRequests :: int
  qc_DefaultMonthlyRequests :: int
  qc_EnforceHard :: bool
  qc_EnforceSoft :: bool

definition envDefault :: "getenv \<Rightarrow> string \<Rightarrow> string \<Rightarrow> string" where
  "envDefault getenv key fallback = (let v = getenv key in if v \<noteq> [] then v else fallback)"

definition envBoolDefault :: "getenv \<Rightarrow> string \<Rightarrow> bool \<Rightarrow> bool" where
  "envBoolDefault getenv key fallback =
     (let v = TrimSpace (ToLower (getenv key))
      in if v = [] then fallback else v = ''true'' \<or> v = ''1'' \<or> v = ''yes'')"

definition envInt64Default :: "getenv \<Rightarrow> string \<Rightarrow> int \<Rightarrow> int" where
  "envInt64Default getenv key fallback =
     (let v = TrimSpace (getenv key)
      in if v = [] then fallback
         else (case Atoi v of None \<Rightarrow> fallback | Some n \<Rightarrow> if n < 0 then fallback else n))"

definition LoadConfigFromEnv :: "getenv \<Rightarrow> Config" where
  "LoadConfigFromEnv getenv =
     \<lparr>qc_Enabled = envBoolDefault getenv ''FI_MCP_QUOTA_ENABLED'' False,
      qc_Store = envDefault getenv ''FI_MCP_QUOTA_STORE'' ''memory'',
      qc_PostgresURL = getenv ''FI_MCP_QUOTA_POSTGRES_URL'',
      qc_DefaultDailyRequests = envInt64Default getenv ''FI_MCP_QUOTA_DAILY_REQUESTS'' 10000,
      qc_DefaultMonthlyRequests = envInt64Default getenv ''FI_MCP_QUOTA_MONTHLY_REQUESTS'' 100000,
      qc_EnforceHard = envBoolDefault getenv ''FI_MCP_QUOTA_ENFORCE_HARD'' True,
      qc_EnforceSoft = envBoolDefault getenv ''FI_MCP_QUOTA_ENFORCE_SOFT'' True\<rparr>"


section \<open>Periods\<close>

definition PeriodBounds :: "string \<Rightarrow> time \<Rightarrow> time \<times> time" where
  "PeriodBounds p now =
     (if p = PeriodDaily then
        (let start = time_Date (Year now) (Month now) (Day now) in (start, AddDate start 0 0 1))
      else if p = PeriodWeekly then
        (let weekday = (if Weekday now = 0 then 7 else Weekday now);
             start = time_Date (Year now) (Month now) (Day now - weekday + 1)
         in (start, AddDate start 0 0 7))
      else if p = PeriodMonthly then
        (let start = time_Date (Year now) (Month now) 1 in (start, AddDate start 0 1 0))
      else
        (let start = time_Date (Year now) (Month now) (Day now) in (start, AddDate start 0 0 1)))"

definition TimeUntilReset :: "string \<Rightarrow> time \<Rightarrow> duration" where
  "TimeUntilReset p now = (case PeriodBounds p now of (start, end_time) \<Rightarrow> time_Sub end_time now)"

lemma time_Date_now: "time_Date (Year t) (Month t) d = (day_of t - Day t + d) * day_ns"
  by (simp add: time_Date_def date_day_of)

lemma day_of_day [simp]: "day_of (n * day_ns) = n"
  by (simp add: day_of_def day_ns_def)

lemma AddDate_days: "AddDate (n * day_ns) 0 0 d = (n + d) * day_ns"
  by (simp add: AddDate_def time_Date_now)

text \<open>The days a period covers: the days \<open>fst\<close> to \<open>snd - 1\<close>.\<close>

definition period_days :: "string \<Rightarrow> time \<Rightarrow> int \<times> int" where
  "period_days p now =
     (let d = day_of now
      in if p = PeriodWeekly then (d - d mod 7, d - d mod 7 + 7)
         else if p = PeriodMonthly then (date_day (Year now) (Month now) 1, date_day (Year now) (Month now + 1) 1)
         else (d, d + 1))"

lemma period_names [simp]: "PeriodDaily \<noteq> PeriodWeekly" "PeriodDaily \<noteq> PeriodMonthly" "PeriodWeekly \<noteq> PeriodMonthly"
  "PeriodWeekly \<noteq> PeriodDaily" "PeriodMonthly \<noteq> PeriodDaily" "PeriodMonthly \<noteq> PeriodWeekly"
  by (simp_all add: PeriodDaily_def PeriodWeekly_def PeriodMonthly_def)

lemma weekday_offset: "(if Weekday t = 0 then 7 else Weekday t) = day_of t mod 7 + 1"
proof -
  define r where "r = day_of t mod 7"
  have r: "0 \<le> r" "r < 7" by (simp_all add: r_def)
  have w: "Weekday t = (r + 1) mod 7" unfolding Weekday_def r_def by (simp only: mod_add_left_eq)
  show ?thesis
  proof (cases "r = 6")
    case True
    with w show ?thesis by (simp add: r_def [symmetric])
  next
    case False
    with r have "(r + 1) mod 7 = r + 1" by (intro mod_pos_pos_trivial) auto
    with w r show ?thesis by (simp add: r_def [symmetric])
  qed
qed

lemma AddDate_month:
  assumes "1 \<le> m" "m \<le> 12"
  shows "AddDate (date_day y m 1 * day_ns) 0 1 0 = date_day y (m + 1) 1 * day_ns"
proof -
  define k where "k = nat (m - 1)"
  have k: "m = int k + 1" "k \<le> 11" using assms by (auto simp: k_def)
  have "date_day y m 1 < date_day y (m + 1) 1"
    using date_day_first [OF k(2), of y] days_before_step [of k "leap_year y"] k by simp
  then have ym: "Year (date_day y m 1 * day_ns) = y \<and> Month (date_day y m 1 * day_ns) = m"
    by (intro month_of_day) (use assms in auto)
  have "date_day y m 1 = day_of (date_day y m 1 * day_ns) - Day (date_day y m 1 * day_ns) + 1"
    using date_day_of [of "date_day y m 1 * day_ns" 1] ym by simp
  then have "Day (date_day y m 1 * day_ns) = 1" by simp
  with ym show ?thesis by (simp add: AddDate_def time_Date_def)
qed

lemma PeriodBounds_days:
  "PeriodBounds p now = (fst (period_days p now) * day_ns, snd (period_days p now) * day_ns)"
proof -
  have daily: "time_Date (Year now) (Month now) (Day now) = day_of now * day_ns" by (simp add: time_Date_now)
  have weekly: "time_Date (Year now) (Month now) (Day now - day_of now mod 7) = (day_of now - day_of now mod 7) * day_ns"
    by (simp add: time_Date_now)
  have monthly: "time_Date (Year now) (Month now) 1 = date_day (Year now) (Month now) 1 * day_ns"
    by (simp add: time_Date_def)
  show ?thesis
    using Month_bounds [of now]
    by (simp add: PeriodBounds_def period_days_def weekday_offset daily weekly monthly AddDate_days AddDate_month Let_def
        del: One_nat_def)
qed

lemma period_days_contain: "fst (period_days p now) \<le> day_of now \<and> day_of now < snd (period_days p now)"
proof -
  have "d - d mod 7 \<le> d \<and> d < d - d mod 7 + 7" for d :: int by simp
  then show ?thesis using day_in_month [of now] by (simp add: period_days_def Let_def)
qed

lemma period_days_same:
  assumes "fst (period_days p now) \<le> day_of now'" "day_of now' < snd (period_days p now)"
  shows "period_days p now' = period_days p now"
proof -
  have w: "e - e mod 7 = d - d mod 7" if "d - d mod 7 \<le> e" "e < d - d mod 7 + 7" for d e :: int
    using that by presburger
  have m: "Year now' = Year now \<and> Month now' = Month now" if "p = PeriodMonthly"
    using assms that Month_bounds [of now] by (intro month_of_day) (auto simp: period_days_def Let_def)
  show ?thesis
    using assms w [of "day_of now" "day_of now'"] m by (auto simp: period_days_def Let_def split: if_splits)
qed

lemma period_bounds_day:
  assumes "PeriodBounds p now = (start, end_time)"
  shows "fst (period_days p now) \<le> day_of t \<and> day_of t < snd (period_days p now) \<longleftrightarrow> start \<le> t \<and> t < end_time"
proof -
  let ?s = "fst (period_days p now)" and ?e = "snd (period_days p now)"
  have "?s \<le> day_of t \<longleftrightarrow> ?s * day_ns \<le> t" by (rule day_le_iff)
  moreover have "day_of t < ?e \<longleftrightarrow> t < ?e * day_ns" using day_le_iff [of ?e t] by linarith
  ultimately show ?thesis using assms by (auto simp: PeriodBounds_days)
qed

lemma period_bounds_same:
  assumes "PeriodBounds p now = (start, end_time)" "start \<le> now'" "now' < end_time"
  shows "PeriodBounds p now' = (start, end_time)"
proof -
  have "period_days p now' = period_days p now"
    using period_bounds_day [OF assms(1), of now'] assms(2,3) by (intro period_days_same) auto
  then show ?thesis using assms(1) by (simp add: PeriodBounds_days)
qed

text \<open>C36. Periods enclose their instants and do not overlap: for every period, start and end satisfy
  \<open>start \<le> now < end\<close>, and every instant between them has the same start and end. A counter kept under
  the start of its period is therefore one counter for the whole period.\<close>

theorem PeriodBounds_partition:
  assumes "PeriodBounds p now = (start, end_time)"
  shows "start \<le> now \<and> now < end_time \<and>
    (\<forall>now'. start \<le> now' \<and> now' < end_time \<longrightarrow> PeriodBounds p now' = (start, end_time))"
  using period_bounds_day [OF assms, of now] period_days_contain [of p now] period_bounds_same [OF assms] by auto

theorem PeriodBounds_partition_witness:
  "\<exists>start end_time. PeriodBounds PeriodMonthly (unix_epoch + 40 * day_ns) = (start, end_time) \<and>
     start \<le> unix_epoch + 40 * day_ns \<and> unix_epoch + 40 * day_ns < end_time \<and> start = unix_epoch + 31 * day_ns"
proof -
  have "PeriodBounds PeriodMonthly (unix_epoch + 40 * day_ns) = (unix_epoch + 31 * day_ns, unix_epoch + 59 * day_ns)"
    by code_simp
  with PeriodBounds_partition [OF this] show ?thesis by blast
qed


section \<open>The store interface and the manager\<close>

datatype quota_error = ErrQuotaExceeded | ErrQuotaNotFound | ErrStoreFailure string | NilStore

record 's Store =
  qs_GetQuota :: "string \<Rightarrow> string \<Rightarrow> string \<Rightarrow> 's \<Rightarrow> (quota_error, Quota) result"
  qs_SetQuota :: "time \<Rightarrow> Quota \<Rightarrow> 's \<Rightarrow> (quota_error, unit) result \<times> 's"
  qs_DeleteQuota :: "string \<Rightarrow> string \<Rightarrow> string \<Rightarrow> 's \<Rightarrow> (quota_error, unit) result \<times> 's"
  qs_GetUsage :: "string \<Rightarrow> string \<Rightarrow> string \<Rightarrow> time \<Rightarrow> 's \<Rightarrow> (quota_error, Usage) result"
  qs_IncrementUsage :: "time \<Rightarrow> string \<Rightarrow> string \<Rightarrow> string \<Rightarrow> int \<Rightarrow> time \<Rightarrow> time \<Rightarrow> 's \<Rightarrow> (quota_error, int) result \<times> 's"

text \<open>The manager; \<open>qm_webhooks\<close> says whether a webhook sender is set.\<close>

record 's DefaultManager =
  qm_store :: "'s option"
  qm_cfg :: Config
  qm_enabled :: bool
  qm_webhooks :: bool

definition New :: "(Config \<Rightarrow> (string, 's) result) \<Rightarrow> 's \<Rightarrow> Config \<Rightarrow> (string, 's DefaultManager) result" where
  "New newPostgres newMemory cfg =
     (if \<not> qc_Enabled cfg then Ok \<lparr>qm_store = None, qm_cfg = cfg, qm_enabled = False, qm_webhooks = False\<rparr>
      else if qc_Store cfg = ''postgres''
      then (case newPostgres cfg of
              Inl er \<Rightarrow> Err er
            | Inr st \<Rightarrow> Ok \<lparr>qm_store = Some st, qm_cfg = cfg, qm_enabled = True, qm_webhooks = False\<rparr>)
      else if qc_Store cfg = ''memory'' \<or> qc_Store cfg = []
      then Ok \<lparr>qm_store = Some newMemory, qm_cfg = cfg, qm_enabled = True, qm_webhooks = False\<rparr>
      else Err (''unknown quota store: '' @ qc_Store cfg))"

definition getEffectiveQuota :: "'s Store \<Rightarrow> string \<Rightarrow> string \<Rightarrow> string \<Rightarrow> 's \<Rightarrow> (quota_error, Quota) result" where
  "getEffectiveQuota ops tenantID userID quotaType s =
     (let user = (if userID \<noteq> [] then qs_GetQuota ops tenantID userID quotaType s else Err ErrQuotaNotFound)
      in case user of Inr q \<Rightarrow> Ok q | Inl _ \<Rightarrow> qs_GetQuota ops tenantID [] quotaType s)"

definition defaultQuota :: "Config \<Rightarrow> string \<Rightarrow> string \<Rightarrow> Quota" where
  "defaultQuota cfg tenantID quotaType =
     (let monthly = (qc_DefaultMonthlyRequests cfg > 0 \<and> qc_DefaultDailyRequests cfg = 0)
      in \<lparr>qt_TenantID = tenantID, qt_UserID = [], qt_Type = quotaType,
          qt_Limit = (if monthly then qc_DefaultMonthlyRequests cfg else qc_DefaultDailyRequests cfg), qt_SoftLimit = 0,
          qt_Period = (if monthly then PeriodMonthly else PeriodDaily), qt_CreatedAt = 0, qt_UpdatedAt = 0\<rparr>)"

definition applicable_quota :: "'s Store \<Rightarrow> Config \<Rightarrow> string \<Rightarrow> string \<Rightarrow> string \<Rightarrow> 's \<Rightarrow> Quota" where
  "applicable_quota ops cfg tenantID userID quotaType s =
     (case getEffectiveQuota ops tenantID userID quotaType s of
        Inr q \<Rightarrow> q | Inl _ \<Rightarrow> defaultQuota cfg tenantID quotaType)"

definition sendWebhook :: "'s DefaultManager \<Rightarrow> string \<Rightarrow> string \<Rightarrow> string \<Rightarrow> (string \<times> any) list \<Rightarrow> Event list" where
  "sendWebhook m eventType tenantID userID data =
     (if \<not> qm_webhooks m then []
      else [\<lparr>ev_ID = [], ev_Type = eventType, ev_Timestamp = 0, ev_TenantID = tenantID, ev_UserID = userID, ev_Data = data\<rparr>])"

definition Enabled :: "'s DefaultManager \<Rightarrow> bool" where "Enabled m = qm_enabled m"

definition SetWebhookSender :: "bool \<Rightarrow> 's DefaultManager \<Rightarrow> 's DefaultManager" where
  "SetWebhookSender present m = m\<lparr>qm_webhooks := present\<rparr>"

text \<open>\<open>Check\<close> returns the result, the error and the webhook events it hands to \<open>SendAsync\<close>. It changes no
  state.\<close>

definition Check :: "'s Store \<Rightarrow> time \<Rightarrow> string \<Rightarrow> string \<Rightarrow> string \<Rightarrow> int \<Rightarrow> 's DefaultManager \<Rightarrow>
    CheckResult \<times> quota_error option \<times> Event list" where
  "Check ops now tenantID userID quotaType cost m =
     (if \<not> qm_enabled m then (allowed_check, None, [])
      else (case qm_store m of
              None \<Rightarrow> (allowed_check, Some NilStore, [])
            | Some s \<Rightarrow>
                let quota = applicable_quota ops (qm_cfg m) tenantID userID quotaType s;
                    (periodStart, periodEnd) = PeriodBounds (qt_Period quota) now
                in (case qs_GetUsage ops tenantID userID quotaType periodStart s of
                      Inl er \<Rightarrow> (allowed_check, None, [])
                    | Inr usage \<Rightarrow>
                        let newUsage = wrap64 (us_Current usage + cost);
                            warning = (HasSoftLimit quota \<and> newUsage > qt_SoftLimit quota);
                            result = \<lparr>cq_Allowed = True, cq_Current = us_Current usage, cq_Limit = qt_Limit quota,
                                      cq_SoftLimit = qt_SoftLimit quota, cq_Remaining = Remaining usage (qt_Limit quota),
                                      cq_PercentUsed = PercentUsed usage (qt_Limit quota), cq_ResetAt = periodEnd,
                                      cq_Warning = warning, cq_QuotaType = quotaType\<rparr>;
                            warn_events = (if warning
                              then sendWebhook m EventQuotaWarning tenantID userID
                                [(''quota_type'', AString quotaType), (''current'', AInt (us_Current usage)),
                                 (''soft_limit'', AInt (qt_SoftLimit quota)), (''hard_limit'', AInt (qt_Limit quota)),
                                 (''reset_at'', ATime periodEnd)] else [])
                        in if newUsage > qt_Limit quota
                           then let events = warn_events @ sendWebhook m EventQuotaExceeded tenantID userID
                                      [(''quota_type'', AString quotaType), (''current'', AInt (us_Current usage)),
                                       (''limit'', AInt (qt_Limit quota)), (''reset_at'', ATime periodEnd)]
                                in if qc_EnforceHard (qm_cfg m)
                                   then (result\<lparr>cq_Allowed := False\<rparr>, Some ErrQuotaExceeded, events)
                                   else (result, None, events)
                           else (result, None, warn_events))))"

definition Increment :: "'s Store \<Rightarrow> time \<Rightarrow> string \<Rightarrow> string \<Rightarrow> string \<Rightarrow> int \<Rightarrow> 's DefaultManager \<Rightarrow>
    (quota_error, unit) result \<times> 's DefaultManager" where
  "Increment ops now tenantID userID quotaType amount m =
     (if \<not> qm_enabled m then (Ok (), m)
      else (case qm_store m of
              None \<Rightarrow> (Err NilStore, m)
            | Some s \<Rightarrow>
                let quota = applicable_quota ops (qm_cfg m) tenantID userID quotaType s;
                    (periodStart, periodEnd) = PeriodBounds (qt_Period quota) now
                in (case qs_IncrementUsage ops now tenantID userID quotaType amount periodStart periodEnd s of
                      (Inl er, s') \<Rightarrow> (Err er, m\<lparr>qm_store := Some s'\<rparr>)
                    | (Inr _, s') \<Rightarrow> (Ok (), m\<lparr>qm_store := Some s'\<rparr>))))"

definition GetUsage :: "'s Store \<Rightarrow> time \<Rightarrow> string \<Rightarrow> string \<Rightarrow> string \<Rightarrow> 's DefaultManager \<Rightarrow> (quota_error, Usage) result" where
  "GetUsage ops now tenantID userID quotaType m =
     (if \<not> qm_enabled m
      then Ok \<lparr>us_TenantID = [], us_UserID = [], us_Type = [], us_PeriodStart = 0, us_PeriodEnd = 0, us_Current = 0, us_LastUpdated = 0\<rparr>
      else (case qm_store m of
              None \<Rightarrow> Err NilStore
            | Some s \<Rightarrow>
                qs_GetUsage ops tenantID userID quotaType
                  (fst (PeriodBounds (qt_Period (applicable_quota ops (qm_cfg m) tenantID userID quotaType s)) now)) s))"

definition SetQuota :: "'s Store \<Rightarrow> time \<Rightarrow> Quota \<Rightarrow> 's DefaultManager \<Rightarrow> (quota_error, unit) result \<times> 's DefaultManager" where
  "SetQuota ops now quota m =
     (case qm_store m of
        None \<Rightarrow> (Err (ErrStoreFailure ''quota store not initialized''), m)
      | Some s \<Rightarrow> (case qs_SetQuota ops now quota s of (r, s') \<Rightarrow> (r, m\<lparr>qm_store := Some s'\<rparr>)))"

definition GetQuota :: "'s Store \<Rightarrow> string \<Rightarrow> string \<Rightarrow> string \<Rightarrow> 's DefaultManager \<Rightarrow> (quota_error, Quota) result" where
  "GetQuota ops tenantID userID quotaType m =
     (case qm_store m of None \<Rightarrow> Err ErrQuotaNotFound | Some s \<Rightarrow> qs_GetQuota ops tenantID userID quotaType s)"


section \<open>The in-memory store\<close>

record MemoryStore =
  mq_quotas :: "(string, Quota) gomap"
  mq_usage :: "(string, Usage) gomap"

definition NewMemoryStore :: MemoryStore where "NewMemoryStore = \<lparr>mq_quotas = [], mq_usage = []\<rparr>"

definition makeQuotaKey :: "string \<Rightarrow> string \<Rightarrow> string \<Rightarrow> string" where
  "makeQuotaKey tenantID userID quotaType = tenantID @ '':'' @ userID @ '':'' @ quotaType"

definition makeUsageKey :: "string \<Rightarrow> string \<Rightarrow> string \<Rightarrow> time \<Rightarrow> string" where
  "makeUsageKey tenantID userID quotaType periodStart =
     tenantID @ '':'' @ userID @ '':'' @ quotaType @ '':'' @ FormatRFC3339 periodStart"

definition mem_GetQuota :: "string \<Rightarrow> string \<Rightarrow> string \<Rightarrow> MemoryStore \<Rightarrow> (quota_error, Quota) result" where
  "mem_GetQuota tenantID userID quotaType s =
     (case mget (mq_quotas s) (makeQuotaKey tenantID userID quotaType) of None \<Rightarrow> Err ErrQuotaNotFound | Some q \<Rightarrow> Ok q)"

definition mem_SetQuota :: "time \<Rightarrow> Quota \<Rightarrow> MemoryStore \<Rightarrow> (quota_error, unit) result \<times> MemoryStore" where
  "mem_SetQuota now quota s =
     (let key = makeQuotaKey (qt_TenantID quota) (qt_UserID quota) (qt_Type quota);
          q = (if IsZero (qt_CreatedAt quota) then quota\<lparr>qt_CreatedAt := now\<rparr> else quota)
      in (Ok (), s\<lparr>mq_quotas := mput key (q\<lparr>qt_UpdatedAt := now\<rparr>) (mq_quotas s)\<rparr>))"

definition mem_DeleteQuota :: "string \<Rightarrow> string \<Rightarrow> string \<Rightarrow> MemoryStore \<Rightarrow> (quota_error, unit) result \<times> MemoryStore" where
  "mem_DeleteQuota tenantID userID quotaType s =
     (Ok (), s\<lparr>mq_quotas := mdel (makeQuotaKey tenantID userID quotaType) (mq_quotas s)\<rparr>)"

definition mem_GetUsage :: "string \<Rightarrow> string \<Rightarrow> string \<Rightarrow> time \<Rightarrow> MemoryStore \<Rightarrow> (quota_error, Usage) result" where
  "mem_GetUsage tenantID userID quotaType periodStart s =
     (case mget (mq_usage s) (makeUsageKey tenantID userID quotaType periodStart) of
        None \<Rightarrow> Ok \<lparr>us_TenantID = tenantID, us_UserID = userID, us_Type = quotaType, us_PeriodStart = periodStart,
                     us_PeriodEnd = 0, us_Current = 0, us_LastUpdated = 0\<rparr>
      | Some u \<Rightarrow> Ok u)"

definition mem_IncrementUsage :: "time \<Rightarrow> string \<Rightarrow> string \<Rightarrow> string \<Rightarrow> int \<Rightarrow> time \<Rightarrow> time \<Rightarrow> MemoryStore \<Rightarrow>
    (quota_error, int) result \<times> MemoryStore" where
  "mem_IncrementUsage now tenantID userID quotaType amount periodStart periodEnd s =
     (let key = makeUsageKey tenantID userID quotaType periodStart;
          u = (case mget (mq_usage s) key of
                 Some u \<Rightarrow> u
               | None \<Rightarrow> \<lparr>us_TenantID = tenantID, us_UserID = userID, us_Type = quotaType, us_PeriodStart = periodStart,
                           us_PeriodEnd = periodEnd, us_Current = 0, us_LastUpdated = 0\<rparr>);
          u' = u\<lparr>us_Current := wrap64 (us_Current u + amount), us_LastUpdated := now\<rparr>
      in (Ok (us_Current u'), s\<lparr>mq_usage := mput key u' (mq_usage s)\<rparr>))"

definition mem_Reset :: "MemoryStore \<Rightarrow> MemoryStore" where
  "mem_Reset s = s\<lparr>mq_quotas := [], mq_usage := []\<rparr>"

definition memory_ops :: "MemoryStore Store" where
  "memory_ops = \<lparr>qs_GetQuota = mem_GetQuota, qs_SetQuota = mem_SetQuota, qs_DeleteQuota = mem_DeleteQuota,
     qs_GetUsage = mem_GetUsage, qs_IncrementUsage = mem_IncrementUsage\<rparr>"

declare memory_ops_def [store_ops]

lemmas mem_defs = mem_GetQuota_def mem_SetQuota_def mem_DeleteQuota_def mem_GetUsage_def mem_IncrementUsage_def memory_ops_def


section \<open>What the manager relies on\<close>

text \<open>A counter per tenant, user, type and period start. As long as the store is healthy, reading a counter does not
  fail, and an increment adds to its counter where the sum fits 64 bits, leaves the quota definitions alone and keeps
  the store healthy.\<close>

abbreviation fits_int64 :: "int \<Rightarrow> bool" where "fits_int64 x \<equiv> min_int64 \<le> x \<and> x \<le> max_int64"

text \<open>A caller of the gateway: a call is checked first, and counted when the check reports no error.\<close>

fun metered_run :: "'s Store \<Rightarrow> string \<Rightarrow> string \<Rightarrow> string \<Rightarrow> (time \<times> int) list \<Rightarrow> 's DefaultManager \<Rightarrow> 's DefaultManager" where
  "metered_run ops tn us ty [] m = m"
| "metered_run ops tn us ty ((now, cost) # calls) m =
     (if fst (snd (Check ops now tn us ty cost m)) = None
      then metered_run ops tn us ty calls (snd (Increment ops now tn us ty cost m))
      else metered_run ops tn us ty calls m)"

lemma increment_state:
  assumes "qm_enabled m" "qm_store m = Some s" "q = applicable_quota ops (qm_cfg m) tn us ty s"
    "PeriodBounds (qt_Period q) now = (ps, pe)"
  shows "snd (Increment ops now tn us ty cost m) = m\<lparr>qm_store := Some (snd (qs_IncrementUsage ops now tn us ty cost ps pe s))\<rparr>"
  using assms by (auto simp: Increment_def Let_def split: result_splits)

locale quota_store =
  fixes ops :: "'s Store" and healthy :: "'s \<Rightarrow> bool" and used :: "'s \<Rightarrow> string \<Rightarrow> string \<Rightarrow> string \<Rightarrow> time \<Rightarrow> int"
  assumes usage: "healthy s \<Longrightarrow> \<exists>u. qs_GetUsage ops tn us ty ps s = Ok u \<and> us_Current u = used s tn us ty ps"
    and increment: "healthy s \<Longrightarrow> fits_int64 (used s tn us ty ps + a) \<Longrightarrow>
      fst (qs_IncrementUsage ops now tn us ty a ps pe s) = Ok (used s tn us ty ps + a) \<and>
      used (snd (qs_IncrementUsage ops now tn us ty a ps pe s)) tn us ty ps = used s tn us ty ps + a"
    and increment_healthy: "healthy s \<Longrightarrow> healthy (snd (qs_IncrementUsage ops now tn us ty a ps pe s))"
    and increment_quota: "healthy s \<Longrightarrow>
      qs_GetQuota ops tn' us' ty' (snd (qs_IncrementUsage ops now tn us ty a ps pe s)) = qs_GetQuota ops tn' us' ty' s"
begin

lemma increment_applicable:
  "healthy s \<Longrightarrow>
   applicable_quota ops cfg tn' us' ty' (snd (qs_IncrementUsage ops now tn us ty a ps pe s)) = applicable_quota ops cfg tn' us' ty' s"
  by (simp add: applicable_quota_def getEffectiveQuota_def increment_quota Let_def split: sum.split)

lemma check_error:
  assumes "qm_enabled m" "qm_store m = Some s" "healthy s" "q = applicable_quota ops (qm_cfg m) tn us ty s"
    "PeriodBounds (qt_Period q) now = (ps, pe)"
  shows "fst (snd (Check ops now tn us ty cost m)) =
    (if wrap64 (used s tn us ty ps + cost) > qt_Limit q \<and> qc_EnforceHard (qm_cfg m) then Some ErrQuotaExceeded else None)"
proof -
  obtain u where "qs_GetUsage ops tn us ty ps s = Ok u" "us_Current u = used s tn us ty ps" using usage [OF assms(3)] by blast
  with assms show ?thesis by (simp add: Check_def Let_def)
qed

lemma metered_bound:
  assumes "qm_enabled m" "qm_store m = Some s" "healthy s" "qc_EnforceHard (qm_cfg m)"
    "q = applicable_quota ops (qm_cfg m) tn us ty s" "PeriodBounds (qt_Period q) now = (ps, pe)"
    "\<forall>(t, c)\<in>set calls. ps \<le> t \<and> t < pe \<and> 0 \<le> c \<and> qt_Limit q + c \<le> max_int64"
    "0 \<le> used s tn us ty ps" "used s tn us ty ps \<le> qt_Limit q"
  shows "\<exists>s'. qm_store (metered_run ops tn us ty calls m) = Some s' \<and> healthy s' \<and>
    used s tn us ty ps \<le> used s' tn us ty ps \<and> used s' tn us ty ps \<le> qt_Limit q"
  using assms(1-5,7-9)
proof (induction calls arbitrary: m s)
  case Nil
  then show ?case by simp
next
  case (Cons call calls)
  obtain t c where tc: "call = (t, c)" by (cases call)
  have b: "PeriodBounds (qt_Period q) t = (ps, pe)"
    using period_bounds_same [OF assms(6), of t] Cons.prems(6) by (auto simp: tc)
  have fit: "fits_int64 (used s tn us ty ps + c)" using Cons.prems(6-8) by (auto simp: tc min_int64_def)
  note ck = check_error [OF Cons.prems(1,2,3,5) b, of c, unfolded wrap64_id [OF conjunct1 [OF fit] conjunct2 [OF fit]]]
  show ?case
  proof (cases "used s tn us ty ps + c > qt_Limit q")
    case True
    with ck Cons.prems(4) have "metered_run ops tn us ty (call # calls) m = metered_run ops tn us ty calls m" by (simp add: tc)
    with Cons show ?thesis by simp
  next
    case False
    let ?s = "snd (qs_IncrementUsage ops t tn us ty c ps pe s)"
    let ?m = "m\<lparr>qm_store := Some ?s\<rparr>"
    have inc: "metered_run ops tn us ty (call # calls) m = metered_run ops tn us ty calls ?m"
      using ck False increment_state [OF Cons.prems(1,2,5) b, of c] by (simp add: tc)
    have used': "used ?s tn us ty ps = used s tn us ty ps + c" using increment [OF Cons.prems(3) fit] by blast
    have "0 \<le> c" using Cons.prems(6) by (simp add: tc)
    with Cons.IH [of ?m ?s] Cons.prems False used' show ?thesis
      unfolding inc by (simp add: increment_applicable increment_healthy) force
  qed
qed

end

lemma memory_used:
  "\<exists>u. mem_GetUsage tn us ty ps s = Ok u \<and> us_Current u =
     (case mget (mq_usage s) (makeUsageKey tn us ty ps) of None \<Rightarrow> 0 | Some u \<Rightarrow> us_Current u)"
  by (simp add: mem_GetUsage_def split: option.split)

definition mem_used :: "MemoryStore \<Rightarrow> string \<Rightarrow> string \<Rightarrow> string \<Rightarrow> time \<Rightarrow> int" where
  "mem_used s tn us ty ps = (case mget (mq_usage s) (makeUsageKey tn us ty ps) of None \<Rightarrow> 0 | Some u \<Rightarrow> us_Current u)"

lemma mem_increment_used:
  "mem_used (snd (qs_IncrementUsage memory_ops now tn us ty a ps pe s)) tn us ty ps = wrap64 (mem_used s tn us ty ps + a)"
  by (auto simp: mem_defs mem_used_def Let_def split: option.split)

interpretation memq: quota_store memory_ops "\<lambda>_. True" mem_used
proof
  fix tn us ty ps and s :: MemoryStore
  show "\<exists>u. qs_GetUsage memory_ops tn us ty ps s = Ok u \<and> us_Current u = mem_used s tn us ty ps"
    using memory_used [of tn us ty ps s] by (simp add: store_ops mem_used_def)
next
  fix tn us ty ps a now pe and s :: MemoryStore
  assume fit: "fits_int64 (mem_used s tn us ty ps + a)"
  have "fst (qs_IncrementUsage memory_ops now tn us ty a ps pe s) = Ok (wrap64 (mem_used s tn us ty ps + a))"
    by (auto simp: mem_defs mem_used_def Let_def split: option.split)
  with fit show "fst (qs_IncrementUsage memory_ops now tn us ty a ps pe s) = Ok (mem_used s tn us ty ps + a) \<and>
      mem_used (snd (qs_IncrementUsage memory_ops now tn us ty a ps pe s)) tn us ty ps = mem_used s tn us ty ps + a"
    by (simp add: mem_increment_used wrap64_id)
qed (auto simp: mem_defs Let_def split: option.split)


section \<open>Metered calls\<close>


definition demo_config :: Config where
  "demo_config = (LoadConfigFromEnv (\<lambda>_. []))\<lparr>qc_Enabled := True, qc_DefaultDailyRequests := 5\<rparr>"

definition demo_manager :: "MemoryStore DefaultManager" where
  "demo_manager = \<lparr>qm_store = Some NewMemoryStore, qm_cfg = demo_config, qm_enabled = True, qm_webhooks = False\<rparr>"

lemma demo_facts:
  "applicable_quota memory_ops demo_config ''acme'' ''ann'' ''requests'' NewMemoryStore = defaultQuota demo_config ''acme'' ''requests''"
  "defaultQuota demo_config ''acme'' ''requests'' = \<lparr>qt_TenantID = ''acme'', qt_UserID = [], qt_Type = ''requests'', qt_Limit = 5,
     qt_SoftLimit = 0, qt_Period = PeriodDaily, qt_CreatedAt = 0, qt_UpdatedAt = 0\<rparr>"
  "PeriodBounds PeriodDaily unix_epoch = (unix_epoch, unix_epoch + day_ns)"
  "mem_used NewMemoryStore ''acme'' ''ann'' ''requests'' unix_epoch = 0"
  by code_simp+


text \<open>Two calls that are both checked before either is counted can pass the limit together: the check and
  the increment are separate operations of the store. With room for exactly one more call the two checks
  report no error, and after the two increments the usage is one over the limit.\<close>

theorem check_increment_race:
  assumes "qm_enabled m" "qm_store m = Some s" "q = applicable_quota memory_ops (qm_cfg m) tn us ty s"
    "PeriodBounds (qt_Period q) now = (ps, pe)" "mem_used s tn us ty ps = qt_Limit q - 1"
    "min_int64 < qt_Limit q" "qt_Limit q < max_int64"
  shows "\<exists>s'. fst (snd (Check memory_ops now tn us ty 1 m)) = None \<and>
    snd (Increment memory_ops now tn us ty 1 (snd (Increment memory_ops now tn us ty 1 m))) = m\<lparr>qm_store := Some s'\<rparr> \<and>
    mem_used s' tn us ty ps = qt_Limit q + 1"
proof -
  let ?s = "snd (qs_IncrementUsage memory_ops now tn us ty 1 ps pe s)"
  let ?m = "m\<lparr>qm_store := Some ?s\<rparr>"
  let ?t = "snd (qs_IncrementUsage memory_ops now tn us ty 1 ps pe ?s)"
  have w: "wrap64 (mem_used s tn us ty ps + 1) = qt_Limit q" "wrap64 (qt_Limit q + 1) = qt_Limit q + 1"
    using assms(5-7) by (auto intro!: wrap64_id)
  have inc: "snd (Increment memory_ops now tn us ty 1 m) = ?m"
    using increment_state [OF assms(1-4)] by simp
  have "snd (Increment memory_ops now tn us ty 1 ?m) = ?m\<lparr>qm_store := Some ?t\<rparr>"
    using increment_state [of ?m ?s q memory_ops tn us ty now ps pe 1] assms(1-4) by (simp add: memq.increment_applicable)
  moreover have "mem_used ?t tn us ty ps = qt_Limit q + 1" by (simp add: mem_increment_used w)
  moreover have "fst (snd (Check memory_ops now tn us ty 1 m)) = None"
    using memq.check_error [OF assms(1,2) TrueI assms(3,4), of 1] w by simp
  ultimately show ?thesis unfolding inc by auto
qed

theorem check_increment_race_witness:
  "\<exists>s' m. m = demo_manager\<lparr>qm_cfg := demo_config\<lparr>qc_DefaultDailyRequests := 1\<rparr>\<rparr> \<and>
     fst (snd (Check memory_ops unix_epoch ''acme'' ''ann'' ''requests'' 1 m)) = None \<and>
     snd (Increment memory_ops unix_epoch ''acme'' ''ann'' ''requests'' 1
       (snd (Increment memory_ops unix_epoch ''acme'' ''ann'' ''requests'' 1 m))) = m\<lparr>qm_store := Some s'\<rparr> \<and>
     mem_used s' ''acme'' ''ann'' ''requests'' unix_epoch = 2"
proof -
  let ?cfg = "demo_config\<lparr>qc_DefaultDailyRequests := 1\<rparr>"
  have q: "applicable_quota memory_ops ?cfg ''acme'' ''ann'' ''requests'' NewMemoryStore = defaultQuota ?cfg ''acme'' ''requests''"
    "qt_Limit (defaultQuota ?cfg ''acme'' ''requests'') = 1" "qt_Period (defaultQuota ?cfg ''acme'' ''requests'') = PeriodDaily"
    by code_simp+
  from check_increment_race [where m = "demo_manager\<lparr>qm_cfg := ?cfg\<rparr>" and s = NewMemoryStore
      and q = "defaultQuota ?cfg ''acme'' ''requests''" and tn = "''acme''" and us = "''ann''" and ty = "''requests''"
      and now = unix_epoch and ps = unix_epoch and pe = "unix_epoch + day_ns"]
  show ?thesis by (simp add: demo_facts demo_manager_def q min_int64_def max_int64_def)
qed

text \<open>The outcome of \<open>Check\<close> on every branch: a disabled manager and a store that cannot be read let the
  request pass with an empty result; otherwise the request is refused exactly when usage plus cost passes
  the limit of the applicable quota and hard limits are enforced, the warning is set exactly when usage
  plus cost passes a positive soft limit, and the refusal is the only error.\<close>

theorem Check_outcome:
  assumes "qm_store m = Some s" "q = applicable_quota ops (qm_cfg m) tn us ty s" "PeriodBounds (qt_Period q) now = (ps, pe)"
  shows "case (Check ops now tn us ty cost m) of (r, er, events) \<Rightarrow>
    (cq_Allowed r \<longleftrightarrow> er = None) \<and> (er = None \<or> er = Some ErrQuotaExceeded) \<and>
    (case (if qm_enabled m then qs_GetUsage ops tn us ty ps s else Err ErrQuotaNotFound) of
       Inl _ \<Rightarrow> r = allowed_check \<and> events = []
     | Inr u \<Rightarrow> let n = wrap64 (us_Current u + cost) in
         (er = Some ErrQuotaExceeded \<longleftrightarrow> n > qt_Limit q \<and> qc_EnforceHard (qm_cfg m)) \<and>
         (cq_Warning r \<longleftrightarrow> qt_SoftLimit q > 0 \<and> n > qt_SoftLimit q) \<and>
         cq_Current r = us_Current u \<and> cq_Limit r = qt_Limit q \<and> cq_ResetAt r = pe \<and>
         map ev_Type events = (if qm_webhooks m then (if cq_Warning r then [EventQuotaWarning] else []) @
                                 (if n > qt_Limit q then [EventQuotaExceeded] else []) else []))"
  using assms
  by (simp add: Check_def Let_def allowed_check_def HasSoftLimit_def sendWebhook_def split: sum.split)

theorem Check_outcome_witness:
  "cq_Allowed (fst (Check memory_ops unix_epoch ''acme'' ''ann'' ''requests'' 6 demo_manager)) = False"
proof -
  have enf: "qc_EnforceHard demo_config" by code_simp
  have u: "\<exists>u. qs_GetUsage memory_ops ''acme'' ''ann'' ''requests'' unix_epoch NewMemoryStore = Ok u \<and> us_Current u = 0"
    using memq.usage [OF TrueI, of "''acme''" "''ann''" "''requests''" unix_epoch NewMemoryStore] demo_facts(4) by simp
  have w: "wrap64 6 = 6" by code_simp
  from Check_outcome [where m = demo_manager and s = NewMemoryStore and ops = memory_ops
      and q = "defaultQuota demo_config ''acme'' ''requests''" and tn = "''acme''" and us = "''ann''" and ty = "''requests''"
      and now = unix_epoch and ps = unix_epoch and pe = "unix_epoch + day_ns" and cost = 6] u
  show ?thesis by (auto simp: demo_facts demo_manager_def enf w Let_def split: prod.splits)
qed

text \<open>Which quota applies: the one set for the user, else the one set for the whole tenant, else the
  configured default. A quota just set applies at once to the user it names (or, set without a user, to
  every user of the tenant without a quota), and to nobody once it is deleted.\<close>

theorem applicable_quota_order:
  assumes "us \<noteq> []" "mem_GetQuota tn us ty s = Err ErrQuotaNotFound" "mem_GetQuota tn [] ty s = Err ErrQuotaNotFound"
    "qt_TenantID q = tn" "qt_UserID q = us" "qt_Type q = ty" "qt_TenantID d = tn" "qt_UserID d = []" "qt_Type d = ty"
  shows "applicable_quota memory_ops cfg tn us ty s = defaultQuota cfg tn ty \<and>
    qt_Limit (applicable_quota memory_ops cfg tn us ty (snd (mem_SetQuota now d s))) = qt_Limit d \<and>
    qt_Limit (applicable_quota memory_ops cfg tn us ty (snd (mem_SetQuota now d (snd (mem_SetQuota now q s))))) = qt_Limit q \<and>
    applicable_quota memory_ops cfg tn us ty (snd (mem_DeleteQuota tn us ty (snd (mem_SetQuota now q s)))) = defaultQuota cfg tn ty"
proof -
  have "makeQuotaKey tn us ty \<noteq> makeQuotaKey tn [] ty" using assms(1) by (simp add: makeQuotaKey_def)
  with assms show ?thesis
    by (auto simp: applicable_quota_def getEffectiveQuota_def mem_defs Let_def split: option.splits)
qed

theorem applicable_quota_order_witness:
  "qt_Limit (applicable_quota memory_ops demo_config ''acme'' ''ann'' ''requests''
     (snd (mem_SetQuota unix_epoch ((defaultQuota demo_config ''acme'' ''requests'')\<lparr>qt_Limit := 7\<rparr>) NewMemoryStore))) = 7"
  using applicable_quota_order [of "''ann''" "''acme''" "''requests''" NewMemoryStore
      "(defaultQuota demo_config ''acme'' ''requests'')\<lparr>qt_UserID := ''ann''\<rparr>"
      "(defaultQuota demo_config ''acme'' ''requests'')\<lparr>qt_Limit := 7\<rparr>" demo_config unix_epoch]
  by (simp add: demo_facts mem_GetQuota_def NewMemoryStore_def)

end
