(* ===== verification/Usage_Store.thy ===== *)
theory Usage_Store
  imports Go_Values
begin

text \<open>
  The package \<open>internal/usage\<close>: events and settings (\<open>usage.go\<close>) and the in-memory store (\<open>memory.go\<close>). \<open>sort.Slice\<close> is an
  argument of \<open>Query\<close>: it may order events of the same instant in any way; the locale \<open>slice_sort\<close> states its contract and
  is interpreted on a stable insertion sort.

  Shown here: what queries, pages and summaries return.
\<close>

section \<open>Events and configuration\<close>

record Event =
  ue_ID :: string
  ue_Timestamp :: time
  ue_TenantID :: string
  ue_UserID :: string
  ue_ToolName :: string
  ue_ServerID :: string
  ue_Duration :: duration
  ue_TokensIn :: int
  ue_TokensOut :: int
  ue_Success :: bool
  ue_ErrorCode :: string
  ue_Metadata :: "(string, string) gomap"

record Summary =
  sm_TenantID :: string
  sm_UserID :: string
  sm_PeriodStart :: time
  sm_PeriodEnd :: time
  sm_TotalEvents :: int
  sm_SuccessCount :: int
  sm_ErrorCount :: int
  sm_TotalTokensIn :: int
  sm_TotalTokensOut :: int
  sm_TotalDuration :: duration
  sm_AvgDuration :: duration
  sm_ToolBreakdown :: "(string, int) gomap"

definition empty_summary :: Summary where
  "empty_summary = \<lparr>sm_TenantID = [], sm_UserID = [], sm_PeriodStart = 0, sm_PeriodEnd = 0, sm_TotalEvents = 0, sm_SuccessCount = 0,
     sm_ErrorCount = 0, sm_TotalTokensIn = 0, sm_TotalTokensOut = 0, sm_TotalDuration = 0, sm_AvgDuration = 0, sm_ToolBreakdown = []\<rparr>"

record QueryParams =
  qp_TenantID :: string
  qp_UserID :: string
  qp_ToolName :: string
  qp_StartTime :: time
  qp_EndTime :: time
  qp_Limit :: int
  qp_Offset :: int

record Config =
  uc_Enabled :: bool
  uc_Store :: string
  uc_PostgresURL :: string
  uc_BufferSize :: int
  uc_FlushInterval :: duration
  uc_RetentionDays :: int
  uc_WebhookURL :: string
  uc_WebhookSecret :: string
  uc_MaxRetries :: int
  uc_RetryDelay :: duration
  uc_DLQPath :: string

definition envDefault :: "getenv \<Rightarrow> string \<Rightarrow> string \<Rightarrow> string" where
  "envDefault getenv key fallback = (let v = getenv key in if v \<noteq> [] then v else fallback)"

definition envBoolDefault :: "getenv \<Rightarrow> string \<Rightarrow> bool \<Rightarrow> bool" where
  "envBoolDefault getenv key fallback =
     (let v = TrimSpace (ToLower (getenv key))
      in if v = [] then fallback else v = ''true'' \<or> v = ''1'' \<or> v = ''yes'')"

definition envIntDefault :: "getenv \<Rightarrow> string \<Rightarrow> int \<Rightarrow> int" where
  "envIntDefault getenv key fallback =
     (let v = TrimSpace (getenv key) in if v = [] then fallback else digits_loop fallback 0 v)"

definition envDurationDefault :: "getenv \<Rightarrow> string \<Rightarrow> duration \<Rightarrow> duration" where
  "envDurationDefault getenv key fallback =
     (let v = TrimSpace (getenv key)
      in if v = [] then fallback
         else (case ParseDuration v of None \<Rightarrow> fallback | Some d \<Rightarrow> if d < 0 then fallback else d))"

definition LoadConfigFromEnv :: "getenv \<Rightarrow> Config" where
  "LoadConfigFromEnv getenv =
     \<lparr>uc_Enabled = envBoolDefault getenv ''FI_MCP_USAGE_ENABLED'' False,
      uc_Store = envDefault getenv ''FI_MCP_USAGE_STORE'' ''memory'',
      uc_PostgresURL = getenv ''FI_MCP_USAGE_POSTGRES_URL'',
      uc_BufferSize = envIntDefault getenv ''FI_MCP_USAGE_BUFFER_SIZE'' 100,
      uc_FlushInterval = envDurationDefault getenv ''FI_MCP_USAGE_FLUSH_INTERVAL'' (5 * Second),
      uc_RetentionDays = envIntDefault getenv ''FI_MCP_USAGE_RETENTION_DAYS'' 90,
      uc_WebhookURL = getenv ''FI_MCP_BILLING_WEBHOOK_URL'',
      uc_WebhookSecret = getenv ''FI_MCP_BILLING_WEBHOOK_SECRET'',
      uc_MaxRetries = envIntDefault getenv ''FI_MCP_USAGE_MAX_RETRIES'' 3,
      uc_RetryDelay = envDurationDefault getenv ''FI_MCP_USAGE_RETRY_DELAY'' (1 * Second),
      uc_DLQPath = envDefault getenv ''FI_MCP_USAGE_DLQ_PATH'' ''/tmp/fi-mcp-usage-dlq.jsonl''\<rparr>"


section \<open>The in-memory store\<close>

record MemoryStore =
  mu_events :: "Event list"

definition NewMemoryStore :: MemoryStore where "NewMemoryStore = \<lparr>mu_events = []\<rparr>"

definition mem_Store :: "Event list \<Rightarrow> MemoryStore \<Rightarrow> (string, unit) result \<times> MemoryStore" where
  "mem_Store events s = (Ok (), s\<lparr>mu_events := mu_events s @ events\<rparr>)"

definition matches :: "Event \<Rightarrow> QueryParams \<Rightarrow> bool" where
  "matches e p =
     (if qp_TenantID p \<noteq> [] \<and> ue_TenantID e \<noteq> qp_TenantID p then False
      else if qp_UserID p \<noteq> [] \<and> ue_UserID e \<noteq> qp_UserID p then False
      else if qp_ToolName p \<noteq> [] \<and> ue_ToolName e \<noteq> qp_ToolName p then False
      else if \<not> IsZero (qp_StartTime p) \<and> ue_Timestamp e < qp_StartTime p then False
      else if \<not> IsZero (qp_EndTime p) \<and> ue_Timestamp e > qp_EndTime p then False
      else True)"

text \<open>The end of \<open>Query\<close>: offset and limit of a sorted result.\<close>

definition page :: "QueryParams \<Rightarrow> Event list \<Rightarrow> Event list" where
  "page params result =
     (if qp_Offset params > 0 \<and> qp_Offset params \<ge> int (length result) then []
      else let result' = (if qp_Offset params > 0 then drop (nat (qp_Offset params)) result else result)
           in if qp_Limit params > 0 \<and> qp_Limit params < int (length result') then take (nat (qp_Limit params)) result' else result')"

definition mem_Query :: "(Event list \<Rightarrow> Event list) \<Rightarrow> QueryParams \<Rightarrow> MemoryStore \<Rightarrow> (string, Event list) result" where
  "mem_Query sort_Slice params s = Ok (page params (sort_Slice (filter (\<lambda>e. matches e params) (mu_events s))))"

text \<open>The body of the loop of \<open>GetSummary\<close>; the running total of the durations is kept in \<open>sm_TotalDuration\<close>.\<close>

definition summary_step :: "string \<Rightarrow> string \<Rightarrow> time \<Rightarrow> time \<Rightarrow> Event \<Rightarrow> Summary \<Rightarrow> Summary" where
  "summary_step tenantID userID start end_time e sm =
     (if tenantID \<noteq> [] \<and> ue_TenantID e \<noteq> tenantID then sm
      else if userID \<noteq> [] \<and> ue_UserID e \<noteq> userID then sm
      else if \<not> IsZero start \<and> ue_Timestamp e < start then sm
      else if \<not> IsZero end_time \<and> ue_Timestamp e > end_time then sm
      else sm\<lparr>sm_TotalEvents := wrap64 (sm_TotalEvents sm + 1),
              sm_SuccessCount := (if ue_Success e then wrap64 (sm_SuccessCount sm + 1) else sm_SuccessCount sm),
              sm_ErrorCount := (if ue_Success e then sm_ErrorCount sm else wrap64 (sm_ErrorCount sm + 1)),
              sm_TotalTokensIn := wrap64 (sm_TotalTokensIn sm + ue_TokensIn e),
              sm_TotalTokensOut := wrap64 (sm_TotalTokensOut sm + ue_TokensOut e),
              sm_TotalDuration := wrap64 (sm_TotalDuration sm + ue_Duration e),
              sm_ToolBreakdown := (if ue_ToolName e \<noteq> []
                 then mput (ue_ToolName e) (wrap64 (case mget (sm_ToolBreakdown sm) (ue_ToolName e) of None \<Rightarrow> 0 + 1 | Some n \<Rightarrow> n + 1))
                        (sm_ToolBreakdown sm)
                 else sm_ToolBreakdown sm)\<rparr>)"

definition mem_GetSummary :: "string \<Rightarrow> string \<Rightarrow> time \<Rightarrow> time \<Rightarrow> MemoryStore \<Rightarrow> (string, Summary) result" where
  "mem_GetSummary tenantID userID start end_time s =
     (let sm = fold (summary_step tenantID userID start end_time) (mu_events s)
                 (empty_summary\<lparr>sm_TenantID := tenantID, sm_UserID := userID, sm_PeriodStart := start, sm_PeriodEnd := end_time\<rparr>)
      in Ok (if sm_TotalEvents sm > 0 then sm\<lparr>sm_AvgDuration := sm_TotalDuration sm sdiv sm_TotalEvents sm\<rparr> else sm))"

definition mem_DeleteOlderThan :: "time \<Rightarrow> MemoryStore \<Rightarrow> (string, int) result \<times> MemoryStore" where
  "mem_DeleteOlderThan before s =
     (Ok (wrap64 (int (length (filter (\<lambda>e. ue_Timestamp e < before) (mu_events s))))),
      s\<lparr>mu_events := filter (\<lambda>e. \<not> ue_Timestamp e < before) (mu_events s)\<rparr>)"

definition mem_Reset :: "MemoryStore \<Rightarrow> MemoryStore" where "mem_Reset s = s\<lparr>mu_events := []\<rparr>"

definition mem_Count :: "MemoryStore \<Rightarrow> int" where "mem_Count s = int (length (mu_events s))"


section \<open>Queries and summaries\<close>

definition newest_first :: "Event list \<Rightarrow> bool" where
  "newest_first = sorted_wrt (\<lambda>a b. ue_Timestamp a \<ge> ue_Timestamp b)"

locale slice_sort =
  fixes sort_Slice :: "Event list \<Rightarrow> Event list"
  assumes permutes: "mset (sort_Slice es) = mset es"
    and sorts: "newest_first (sort_Slice es)"
begin

lemma sort_length [simp]: "length (sort_Slice es) = length es"
  using permutes by (metis size_mset)

lemma sort_sum: "sum_list (map f (sort_Slice es)) = (sum_list (map f es) :: int)"
  using permutes [of es] by (metis mset_map sum_mset_sum_list)

lemma sort_filter: "length (filter P (sort_Slice es)) = length (filter P es)"
  using permutes [of es] by (metis mset_filter size_mset)

end

definition insertion_sort_Slice :: "Event list \<Rightarrow> Event list" where
  "insertion_sort_Slice = sort_key (\<lambda>e. - ue_Timestamp e)"

interpretation stable: slice_sort insertion_sort_Slice
proof
  fix es :: "Event list"
  show "newest_first (insertion_sort_Slice es)"
    using sorted_sort_key [of "\<lambda>e. - ue_Timestamp e" es] by (simp add: newest_first_def insertion_sort_Slice_def sorted_map)
qed (simp add: insertion_sort_Slice_def)

lemma page_window:
  "0 < l \<Longrightarrow> qp_Limit p = int l \<Longrightarrow> qp_Offset p = int k \<Longrightarrow> page p r = take l (drop k r)"
  by (auto simp: page_def Let_def)

lemma matches_paging [simp]: "matches e (p\<lparr>qp_Limit := l, qp_Offset := k\<rparr>) = matches e p"
  by (simp add: matches_def)

lemma take_windows: "concat (map (\<lambda>k. take l (drop (k * l) r)) [0..<n]) = take (n * l) r"
proof (induction n)
  case (Suc n)
  then show ?case by (simp add: take_add [symmetric] add.commute)
qed simp


text \<open>The summary of a list of events that all count.\<close>

definition counts :: "string \<Rightarrow> string \<Rightarrow> time \<Rightarrow> time \<Rightarrow> QueryParams" where
  "counts tenantID userID start end_time =
     \<lparr>qp_TenantID = tenantID, qp_UserID = userID, qp_ToolName = [], qp_StartTime = start, qp_EndTime = end_time, qp_Limit = 0, qp_Offset = 0\<rparr>"

lemma summary_step_skip: "\<not> matches e (counts tn us a b) \<Longrightarrow> summary_step tn us a b e sm = sm"
  by (auto simp: summary_step_def matches_def counts_def split: if_splits)

lemma summary_fold_filter:
  "fold (summary_step tn us a b) es sm = fold (summary_step tn us a b) (filter (\<lambda>e. matches e (counts tn us a b)) es) sm"
  by (induction es arbitrary: sm) (simp_all add: summary_step_skip)

lemma summary_step_fields:
  assumes "matches e (counts tn us a b)"
  shows "sm_TotalEvents (summary_step tn us a b e sm) = wrap64 (sm_TotalEvents sm + 1)"
    "sm_SuccessCount (summary_step tn us a b e sm) = (if ue_Success e then wrap64 (sm_SuccessCount sm + 1) else sm_SuccessCount sm)"
    "sm_ErrorCount (summary_step tn us a b e sm) = (if ue_Success e then sm_ErrorCount sm else wrap64 (sm_ErrorCount sm + 1))"
    "sm_TotalTokensIn (summary_step tn us a b e sm) = wrap64 (sm_TotalTokensIn sm + ue_TokensIn e)"
    "sm_TotalTokensOut (summary_step tn us a b e sm) = wrap64 (sm_TotalTokensOut sm + ue_TokensOut e)"
    "sm_TotalDuration (summary_step tn us a b e sm) = wrap64 (sm_TotalDuration sm + ue_Duration e)"
    "mget (sm_ToolBreakdown (summary_step tn us a b e sm)) t =
       (if t \<noteq> [] \<and> ue_ToolName e = t then Some (wrap64 (case mget (sm_ToolBreakdown sm) t of None \<Rightarrow> 1 | Some n \<Rightarrow> n + 1))
        else mget (sm_ToolBreakdown sm) t)"
  using assms by (auto simp: summary_step_def matches_def counts_def split: result_splits)

lemma fold_wrapped:
  assumes "\<forall>e\<in>set es. \<forall>sm. wrap64 (f sm) = f sm \<longrightarrow> f (step e sm) = wrap64 (f sm + g e)" "wrap64 (f sm) = f sm"
  shows "f (fold step es sm) = wrap64 (f sm + sum_list (map g es))"
  using assms
proof (induction es arbitrary: sm)
  case (Cons e es)
  then show ?case by (simp add: add.assoc)
qed simp

lemma fold_breakdown:
  assumes "\<forall>e\<in>set es. matches e (counts tn us a b)" "t \<noteq> []"
  shows "(case mget (sm_ToolBreakdown (fold (summary_step tn us a b) es sm)) t of None \<Rightarrow> 0 | Some n \<Rightarrow> wrap64 n) =
    wrap64 ((case mget (sm_ToolBreakdown sm) t of None \<Rightarrow> 0 | Some n \<Rightarrow> n) + int (length (filter (\<lambda>e. ue_ToolName e = t) es)))"
  using assms
proof (induction es arbitrary: sm)
  case (Cons e es)
  then show ?case by (auto simp: summary_step_fields add.assoc split: option.splits)
qed (auto split: option.split)

lemma count_sum: "int (length (filter P es)) = sum_list (map (\<lambda>e. if P e then 1 else 0) es)"
  by (induction es) auto

text \<open>Summaries count what a query returns: totals, successes, errors, tokens and durations of a summary
  are those of the events a query for the same tenant, user and time range returns, modulo the wrap-around
  of \<open>int64\<close>, and the breakdown counts those events by tool.\<close>

theorem GetSummary_counts_Query:
  assumes "slice_sort sort_Slice" "mem_Query sort_Slice (counts tn us a b) s = Ok es" "mem_GetSummary tn us a b s = Ok sm"
  shows "sm_TotalEvents sm = wrap64 (int (length es)) \<and>
    sm_SuccessCount sm = wrap64 (int (length (filter ue_Success es))) \<and>
    sm_ErrorCount sm = wrap64 (int (length (filter (\<lambda>e. \<not> ue_Success e) es))) \<and>
    sm_TotalTokensIn sm = wrap64 (sum_list (map ue_TokensIn es)) \<and>
    sm_TotalTokensOut sm = wrap64 (sum_list (map ue_TokensOut es)) \<and>
    sm_TotalDuration sm = wrap64 (sum_list (map ue_Duration es)) \<and>
    (sm_TotalEvents sm > 0 \<longrightarrow> sm_AvgDuration sm = sm_TotalDuration sm sdiv sm_TotalEvents sm) \<and>
    (\<forall>t. t \<noteq> [] \<longrightarrow> (case mget (sm_ToolBreakdown sm) t of None \<Rightarrow> 0 | Some n \<Rightarrow> wrap64 n) =
       wrap64 (int (length (filter (\<lambda>e. ue_ToolName e = t) es))))"
proof -
  let ?es = "filter (\<lambda>e. matches e (counts tn us a b)) (mu_events s)"
  let ?start = "empty_summary\<lparr>sm_TenantID := tn, sm_UserID := us, sm_PeriodStart := a, sm_PeriodEnd := b\<rparr>"
  let ?f = "fold (summary_step tn us a b) ?es ?start"
  have es: "es = sort_Slice ?es" using assms(2) by (simp add: mem_Query_def page_def counts_def)
  have sm: "sm = (if sm_TotalEvents ?f > 0 then ?f\<lparr>sm_AvgDuration := sm_TotalDuration ?f sdiv sm_TotalEvents ?f\<rparr> else ?f)"
    using assms(3) by (simp add: mem_GetSummary_def Let_def summary_fold_filter [of _ _ _ _ "mu_events s"])
  have "sm_TotalEvents ?f = wrap64 (int (length ?es))"
    using fold_wrapped [of ?es sm_TotalEvents "summary_step tn us a b" "\<lambda>_. 1" ?start]
    by (simp add: summary_step_fields empty_summary_def sum_list_triv wrap64_id min_int64_def max_int64_def)
  moreover have "sm_SuccessCount ?f = wrap64 (int (length (filter ue_Success ?es)))"
    using fold_wrapped [of ?es sm_SuccessCount "summary_step tn us a b" "\<lambda>e. if ue_Success e then 1 else 0" ?start]
    by (simp add: summary_step_fields empty_summary_def count_sum wrap64_id min_int64_def max_int64_def del: filter_filter)
  moreover have "sm_ErrorCount ?f = wrap64 (int (length (filter (\<lambda>e. \<not> ue_Success e) ?es)))"
    using fold_wrapped [of ?es sm_ErrorCount "summary_step tn us a b" "\<lambda>e. if \<not> ue_Success e then 1 else 0" ?start]
    by (simp add: summary_step_fields empty_summary_def count_sum wrap64_id min_int64_def max_int64_def del: filter_filter)
  moreover have "sm_TotalTokensIn ?f = wrap64 (sum_list (map ue_TokensIn ?es))"
    using fold_wrapped [of ?es sm_TotalTokensIn "summary_step tn us a b" ue_TokensIn ?start]
    by (simp add: summary_step_fields empty_summary_def wrap64_id min_int64_def max_int64_def)
  moreover have "sm_TotalTokensOut ?f = wrap64 (sum_list (map ue_TokensOut ?es))"
    using fold_wrapped [of ?es sm_TotalTokensOut "summary_step tn us a b" ue_TokensOut ?start]
    by (simp add: summary_step_fields empty_summary_def wrap64_id min_int64_def max_int64_def)
  moreover have "sm_TotalDuration ?f = wrap64 (sum_list (map ue_Duration ?es))"
    using fold_wrapped [of ?es sm_TotalDuration "summary_step tn us a b" ue_Duration ?start]
    by (simp add: summary_step_fields empty_summary_def wrap64_id min_int64_def max_int64_def)
  moreover have "(case mget (sm_ToolBreakdown ?f) t of None \<Rightarrow> 0 | Some n \<Rightarrow> wrap64 n) =
      wrap64 (int (length (filter (\<lambda>e. ue_ToolName e = t) ?es)))" if "t \<noteq> []" for t
    using fold_breakdown [of ?es tn us a b t ?start] that by (simp add: empty_summary_def del: filter_filter)
  ultimately show ?thesis
    unfolding es sm
    by (simp add: slice_sort.sort_length [OF assms(1)] slice_sort.sort_sum [OF assms(1)] slice_sort.sort_filter [OF assms(1)]
        del: filter_filter)
qed

definition demo_events :: "Event list" where
  "demo_events = map (\<lambda>n. \<lparr>ue_ID = Itoa n, ue_Timestamp = n, ue_TenantID = (if n = 2 then ''beta'' else ''acme''), ue_UserID = ''ann'',
     ue_ToolName = (if n < 2 then ''grep'' else ''read''), ue_ServerID = ''fs'', ue_Duration = 7 * n, ue_TokensIn = n, ue_TokensOut = 1,
     ue_Success = (n \<noteq> 3), ue_ErrorCode = [], ue_Metadata = []\<rparr>) [1, 2, 3, 4]"


theorem GetSummary_counts_Query_witness:
  "\<exists>sm. mem_GetSummary ''acme'' [] 0 0 \<lparr>mu_events = demo_events\<rparr> = Ok sm \<and> sm_TotalEvents sm = 3 \<and> sm_TotalTokensIn sm = 8"
proof -
  obtain sm where sm: "mem_GetSummary ''acme'' [] 0 0 \<lparr>mu_events = demo_events\<rparr> = Ok sm" by (simp add: mem_GetSummary_def Let_def)
  let ?es = "page (counts ''acme'' [] 0 0) (insertion_sort_Slice (filter (\<lambda>e. matches e (counts ''acme'' [] 0 0)) demo_events))"
  have q: "mem_Query insertion_sort_Slice (counts ''acme'' [] 0 0) \<lparr>mu_events = demo_events\<rparr> = Ok ?es" by (simp add: mem_Query_def)
  have "wrap64 (int (length ?es)) = 3" "wrap64 (sum_list (map ue_TokensIn ?es)) = 8" by code_simp+
  with GetSummary_counts_Query [OF stable.slice_sort_axioms q sm] sm show ?thesis by simp
qed

end
