(* ===== verification/Mcpws.thy ===== *)
theory Mcpws
  imports Mcpws_Backends Policy Tenant Ratelimit_Limiter Quota Usage_Tracker
begin

text \<open>
  The WebSocket gateway (\<open>internal/mcpws/mcpws.go\<close>): configuration, the admission of a connection
  (\<open>HandleWS\<close>), the addresses of backends, the routing of a message and the handling of a message, which puts
  the other components in a row: registry, rate limiter, quota manager, policy, backend, quota counter and
  usage tracker. The backend connections are in \<open>Mcpws_Backends\<close>.

  A message is the JSON value of its text, or none when the text is not JSON. The router of \<open>fi-mcp-kit\<close> is the
  argument \<open>resolve\<close>, \<open>fmt.Sprintf\<close> on a host template the argument \<open>sprintf\<close>, the upgrade to a WebSocket an
  answer of the environment. Logging is left out, and metrics are the theory \<open>Metrics\<close>.

  Shown here: a message reaches a backend only through every check, and exactly one error goes to the client
  otherwise; tool calls that are forwarded are counted and tracked, and no others.
\<close>

section \<open>Configuration\<close>

type_synonym ws_authenticator = "header \<Rightarrow> (auth_error option, Principal option) result"
type_synonym authorize_fn = "Principal option \<Rightarrow> Request \<Rightarrow> Decision"

record Config =
  wc_Registry :: "Registry option"
  wc_Authenticator :: "ws_authenticator option"
  wc_Policy :: "authorize_fn option"
  wc_HubNamespace :: string
  wc_ServerPort :: string
  wc_ServerWSPath :: string
  wc_ServerScheme :: string
  wc_ServerHostTemplate :: string
  wc_HandshakeTimeout :: duration
  wc_DialTimeout :: duration
  wc_BackendMaxIdle :: int
  wc_BackendMaxOpen :: int
  wc_BackendIdleTimeout :: duration

definition envDefault :: "getenv \<Rightarrow> string \<Rightarrow> string \<Rightarrow> string" where
  "envDefault getenv key fallback = (let v = getenv key in if v \<noteq> [] then v else fallback)"

definition envIntDefault :: "getenv \<Rightarrow> string \<Rightarrow> int \<Rightarrow> int" where
  "envIntDefault getenv key fallback =
     (let v = TrimSpace (getenv key)
      in if v = [] then fallback
         else (case Atoi v of None \<Rightarrow> fallback | Some n \<Rightarrow> if n \<le> 0 then fallback else n))"

definition envDurationDefault :: "getenv \<Rightarrow> string \<Rightarrow> duration \<Rightarrow> duration" where
  "envDurationDefault getenv key fallback =
     (let v = TrimSpace (getenv key)
      in if v = [] then fallback
         else (case ParseDuration v of None \<Rightarrow> fallback | Some d \<Rightarrow> if d \<le> 0 then fallback else d))"

text \<open>\<open>New\<close> completes the configuration; the upgrader, the sessions and the router it creates have no settings of
  their own.\<close>

definition New :: "getenv \<Rightarrow> Config \<Rightarrow> Config" where
  "New getenv cfg =
     \<lparr>wc_Registry = wc_Registry cfg,
      wc_Authenticator = Some (case wc_Authenticator cfg of None \<Rightarrow> (\<lambda>r. Ok None) | Some a \<Rightarrow> a),
      wc_Policy = Some (case wc_Policy cfg of None \<Rightarrow> (\<lambda>p. AllowAll_Authorize) | Some a \<Rightarrow> a),
      wc_HubNamespace = (if wc_HubNamespace cfg = [] then envDefault getenv ''MCP_HUB_NAMESPACE'' ''mcp-hub'' else wc_HubNamespace cfg),
      wc_ServerPort = (if wc_ServerPort cfg = [] then envDefault getenv ''MCP_SERVER_PORT'' ''8080'' else wc_ServerPort cfg),
      wc_ServerWSPath = (if wc_ServerWSPath cfg = [] then envDefault getenv ''MCP_SERVER_WS_PATH'' ''/ws'' else wc_ServerWSPath cfg),
      wc_ServerScheme = (if wc_ServerScheme cfg = [] then envDefault getenv ''MCP_SERVER_SCHEME'' ''ws'' else wc_ServerScheme cfg),
      wc_ServerHostTemplate = (if wc_ServerHostTemplate cfg = []
         then envDefault getenv ''MCP_SERVER_HOST_TEMPLATE'' ''mcp-%s.%s.svc.cluster.local'' else wc_ServerHostTemplate cfg),
      wc_HandshakeTimeout = (if wc_HandshakeTimeout cfg \<le> 0 then 10 * Second else wc_HandshakeTimeout cfg),
      wc_DialTimeout = (if wc_DialTimeout cfg \<le> 0 then 5 * Second else wc_DialTimeout cfg),
      wc_BackendMaxIdle = (if wc_BackendMaxIdle cfg \<le> 0 then envIntDefault getenv ''FI_MCP_BACKEND_MAX_IDLE'' 2 else wc_BackendMaxIdle cfg),
      wc_BackendMaxOpen = (if wc_BackendMaxOpen cfg \<le> 0 then envIntDefault getenv ''FI_MCP_BACKEND_MAX_OPEN'' 10 else wc_BackendMaxOpen cfg),
      wc_BackendIdleTimeout = (if wc_BackendIdleTimeout cfg \<le> 0
         then envDurationDefault getenv ''FI_MCP_BACKEND_IDLE_TIMEOUT'' (5 * Minute) else wc_BackendIdleTimeout cfg)\<rparr>"


section \<open>Servers and their addresses\<close>

fun find_deployable :: "string \<Rightarrow> Server option list \<Rightarrow> bool" where
  "find_deployable serverName [] = False"
| "find_deployable serverName (None # ss) = find_deployable serverName ss"
| "find_deployable serverName (Some s # ss) =
     (if sv_Name s = serverName then \<not> sv_IsLocalOnly s else find_deployable serverName ss)"

definition serverExistsAndHubDeployable :: "Config \<Rightarrow> string \<Rightarrow> bool" where
  "serverExistsAndHubDeployable cfg serverName =
     (case wc_Registry cfg of None \<Rightarrow> False | Some r \<Rightarrow> find_deployable serverName (rg_Servers r))"

definition formatBackendHost :: "(string \<Rightarrow> string list \<Rightarrow> string) \<Rightarrow> string \<Rightarrow> string \<Rightarrow> string \<Rightarrow> (string, string) result" where
  "formatBackendHost sprintf tmpl serverName0 namespace =
     (if tmpl = [] then Err ''empty host template''
      else let serverName = ReplaceByte serverName0 CHR ''_'' CHR ''-''
           in if \<not> sublist ''%'' tmpl then Ok tmpl
              else if \<not> sublist ''%!'' (sprintf tmpl [serverName, namespace]) then Ok (sprintf tmpl [serverName, namespace])
              else if \<not> sublist ''%!'' (sprintf tmpl [serverName]) then Ok (sprintf tmpl [serverName])
              else Err (''invalid host template''))"

definition resolveBackendURL :: "(string \<Rightarrow> string list \<Rightarrow> string) \<Rightarrow> Config \<Rightarrow> string \<Rightarrow> (string, string) result" where
  "resolveBackendURL sprintf cfg serverName =
     (case Option.bind (wc_Registry cfg) (\<lambda>r. rg_GetServer r serverName) of
        Some srv \<Rightarrow>
          if sv_URL srv \<noteq> [] then Ok (TrimRight (sv_URL srv) ''/'' @ wc_ServerWSPath cfg)
          else map_sum id (\<lambda>host. wc_ServerScheme cfg @ ''://'' @ host @ '':'' @ wc_ServerPort cfg @ wc_ServerWSPath cfg)
                 (formatBackendHost sprintf (wc_ServerHostTemplate cfg) serverName (wc_HubNamespace cfg))
      | None \<Rightarrow>
          map_sum id (\<lambda>host. wc_ServerScheme cfg @ ''://'' @ host @ '':'' @ wc_ServerPort cfg @ wc_ServerWSPath cfg)
            (formatBackendHost sprintf (wc_ServerHostTemplate cfg) serverName (wc_HubNamespace cfg)))"

text \<open>The answer of a dial as the dialer and the registry determine it.\<close>

definition dialBackend :: "(string \<Rightarrow> string list \<Rightarrow> string) \<Rightarrow> (string \<Rightarrow> headers \<Rightarrow> (string, 'c) result) \<Rightarrow> Config \<Rightarrow> string \<Rightarrow> headers \<Rightarrow>
    (string, 'c) result" where
  "dialBackend sprintf dial cfg serverName headers =
     (case resolveBackendURL sprintf cfg serverName of Inl er \<Rightarrow> Err er | Inr dialURL \<Rightarrow> dial dialURL headers)"


section \<open>Admission of a connection\<close>

record ws_request =
  wr_Method :: string
  wr_Query :: "string \<Rightarrow> string"
  wr_Header :: header

record 'p session =
  ss_id :: string
  ss_principal :: "Principal option"
  ss_tenantID :: string
  ss_profile :: string
  ss_boundServer :: string
  ss_createdAt :: time
  ss_lastActive :: time
  ss_conns :: "'p conns"
  ss_client :: "any list"

text \<open>The headers a session sends when it dials a backend.\<close>

definition backend_headers :: "Principal option \<Rightarrow> headers" where
  "backend_headers prin =
     (let tenantID = TenantID prin;
          h1 = (if tenantID \<noteq> [] then mput ''X-Tenant-ID'' tenantID [] else [])
      in case prin of
           None \<Rightarrow> h1
         | Some p \<Rightarrow> if p_Subject p \<noteq> [] then mput ''X-User-ID'' (p_Subject p) h1 else h1)"

definition newSession :: "time \<Rightarrow> 'p \<Rightarrow> Principal option \<Rightarrow> string \<Rightarrow> string \<Rightarrow> 'p session" where
  "newSession now newPool prin profile server =
     \<lparr>ss_id = ''sess-'' @ Itoa (UnixNano now), ss_principal = prin, ss_tenantID = TenantID prin, ss_profile = profile,
      ss_boundServer = server, ss_createdAt = now, ss_lastActive = now,
      ss_conns = \<lparr>cs_backends = [], cs_conns = (\<lambda>_. \<lparr>cn_Healthy = False, cn_LastUsed = 0, cn_ours = False\<rparr>), cs_pool = newPool,
                  cs_closed = [], cs_pumps = []\<rparr>,
      ss_client = []\<rparr>"

datatype 'p ws_answer = HTTPError string int | UpgradeFailed | Session "'p session"

definition HandleWS :: "Config \<Rightarrow> time \<Rightarrow> 'p \<Rightarrow> bool \<Rightarrow> ws_request \<Rightarrow> 'p ws_answer" where
  "HandleWS cfg now newPool upgrades r =
     (if wr_Method r \<noteq> ''GET'' then HTTPError ''method not allowed'' 405
      else (case (case wc_Authenticator cfg of None \<Rightarrow> Ok None | Some a \<Rightarrow> a (wr_Header r)) of
              Inl (Some ErrUnauthorized) \<Rightarrow> HTTPError ''unauthorized'' 401
            | Inl None \<Rightarrow> HTTPError ''auth error'' 500
            | Inr prin \<Rightarrow>
                let p1 = wr_Query r ''profile'';
                    p2 = (if p1 = [] then wr_Header r ''X-MCP-Profile'' else p1);
                    profile = (if p2 = [] then ''common'' else p2);
                    s1 = wr_Query r ''server'';
                    s2 = (if s1 = [] then wr_Header r ''X-MCP-Server'' else s1);
                    serverName = TrimSpace s2
                in if serverName = [] then HTTPError ''missing server (use ?server=...)'' 400
                   else if \<not> serverExistsAndHubDeployable cfg serverName then HTTPError ''unknown or local-only server'' 400
                   else if \<not> upgrades then UpgradeFailed
                   else Session (newSession now newPool prin profile serverName)))"

text \<open>The sessions of the gateway, by their identifiers.\<close>

definition trackSession :: "'p session \<Rightarrow> (string, 'p session) gomap \<Rightarrow> (string, 'p session) gomap" where
  "trackSession s sessions = mput (ss_id s) s sessions"

definition untrackSession :: "string \<Rightarrow> (string, 'p session) gomap \<Rightarrow> (string, 'p session) gomap" where
  "untrackSession i sessions = mdel i sessions"


section \<open>JSON-RPC\<close>

text \<open>Field names are matched without regard to case, as \<open>encoding/json\<close> folds them; the long s and the Kelvin
  sign fold to ASCII letters. Later members win.\<close>

fun fold_name :: "string \<Rightarrow> string" where
  "fold_name [] = []"
| "fold_name (c # s) =
     (if c = CHR 0xC5 \<and> take 1 s = [CHR 0xBF] then CHR ''s'' # fold_name (drop 1 s)
      else if c = CHR 0xE2 \<and> take 2 s = [CHR 0x84, CHR 0xAA] then CHR ''k'' # fold_name (drop 2 s)
      else lower_ascii c # fold_name s)"

record jsonrpcEnvelope =
  en_ID :: any
  en_Method :: string
  en_Params :: "any option"

definition empty_envelope :: jsonrpcEnvelope where "empty_envelope = \<lparr>en_ID = ANil, en_Method = [], en_Params = None\<rparr>"

text \<open>Decoding one member; the flag records a member of the wrong type, which makes the whole decoding an error.\<close>

definition envelope_member :: "string \<times> any \<Rightarrow> jsonrpcEnvelope \<times> bool \<Rightarrow> jsonrpcEnvelope \<times> bool" where
  "envelope_member kv st =
     (case (kv, st) of
        ((k, v), (e, bad)) \<Rightarrow>
          if fold_name k = ''id'' then (e\<lparr>en_ID := v\<rparr>, bad)
          else if fold_name k = ''method''
          then (case v of AString m \<Rightarrow> (e\<lparr>en_Method := m\<rparr>, bad) | ANil \<Rightarrow> (e, bad) | _ \<Rightarrow> (e, True))
          else if fold_name k = ''params'' then (e\<lparr>en_Params := Some v\<rparr>, bad)
          else (e, bad))"

definition unmarshal_envelope :: "any option \<Rightarrow> jsonrpcEnvelope option" where
  "unmarshal_envelope json =
     (case json of
        Some (AMap members) \<Rightarrow> (case fold envelope_member members (empty_envelope, False) of (e, bad) \<Rightarrow> if bad then None else Some e)
      | Some ANil \<Rightarrow> Some empty_envelope
      | _ \<Rightarrow> None)"

record callToolParams =
  tp_Name :: string
  tp_Arguments :: "any option"

definition params_member :: "string \<times> any \<Rightarrow> callToolParams \<Rightarrow> callToolParams" where
  "params_member kv p =
     (case kv of
        (k, v) \<Rightarrow>
          if fold_name k = ''name'' then (case v of AString n \<Rightarrow> p\<lparr>tp_Name := n\<rparr> | _ \<Rightarrow> p)
          else if fold_name k = ''arguments'' then p\<lparr>tp_Arguments := Some v\<rparr>
          else p)"

text \<open>The error of decoding the parameters is ignored, what was decoded is kept.\<close>

definition unmarshal_params :: "any option \<Rightarrow> callToolParams" where
  "unmarshal_params params =
     (let zero = \<lparr>tp_Name = [], tp_Arguments = None\<rparr>
      in case params of Some (AMap members) \<Rightarrow> fold params_member members zero | _ \<Rightarrow> zero)"

definition unmarshal_args :: "any option \<Rightarrow> (string \<times> any) list option" where
  "unmarshal_args a = (case a of Some (AMap members) \<Rightarrow> Some members | _ \<Rightarrow> None)"

text \<open>\<open>sendJSONRPCError\<close>: the identifier is read under its exact name, from an object only.\<close>

definition request_id :: "any option \<Rightarrow> any" where
  "request_id json =
     (case json of
        Some (AMap members) \<Rightarrow> (case mget (rev members) ''id'' of Some v \<Rightarrow> v | None \<Rightarrow> ANil)
      | _ \<Rightarrow> ANil)"

definition error_response :: "any \<Rightarrow> string \<Rightarrow> any" where
  "error_response i message =
     AMap [(''jsonrpc'', AString ''2.0''), (''id'', i), (''error'', AMap [(''code'', AInt (- 32000)), (''message'', AString message)])]"

definition sendJSONRPCError :: "any option \<Rightarrow> string \<Rightarrow> 'p session \<Rightarrow> 'p session" where
  "sendJSONRPCError json message s = s\<lparr>ss_client := ss_client s @ [error_response (request_id json) message]\<rparr>"


section \<open>Routing\<close>

type_synonym resolver = "string \<Rightarrow> string \<Rightarrow> (string \<times> any) list option \<Rightarrow> (string, string) result"

record routeDecision =
  rd_method :: string
  rd_toolName :: string
  rd_serverName :: string

definition routeMessage :: "resolver \<Rightarrow> string \<Rightarrow> string \<Rightarrow> any option \<Rightarrow> (string, routeDecision) result" where
  "routeMessage resolve profile boundServer json =
     (case unmarshal_envelope json of
        None \<Rightarrow> Err ''invalid json-rpc message''
      | Some env \<Rightarrow>
          if en_Method env = ''tools/call''
          then let p = unmarshal_params (en_Params env)
               in if TrimSpace (tp_Name p) = []
                  then if boundServer \<noteq> []
                       then Ok \<lparr>rd_method = en_Method env, rd_toolName = [], rd_serverName = boundServer\<rparr>
                       else Err ''invalid tools/call: missing params.name''
                  else (case resolve profile (tp_Name p) (unmarshal_args (tp_Arguments p)) of
                          Inl er \<Rightarrow> Err er
                        | Inr server \<Rightarrow>
                            if server \<noteq> [] then Ok \<lparr>rd_method = en_Method env, rd_toolName = tp_Name p, rd_serverName = server\<rparr>
                            else if boundServer \<noteq> []
                            then Ok \<lparr>rd_method = en_Method env, rd_toolName = tp_Name p, rd_serverName = boundServer\<rparr>
                            else Err ''no route for tool'')
          else if boundServer = [] then Err ''no server bound (use ?server=...)''
          else Ok \<lparr>rd_method = en_Method env, rd_toolName = [], rd_serverName = boundServer\<rparr>)"


section \<open>Handling a message\<close>

text \<open>\<open>Duration.String\<close>, which \<open>%v\<close> prints.\<close>

definition frac_string :: "nat \<Rightarrow> int \<Rightarrow> string" where
  "frac_string prec v =
     (let digits = rev (dropWhile (\<lambda>c. c = CHR ''0'') (rev (pad prec (v mod 10 ^ prec))))
      in Itoa (v div 10 ^ prec) @ (if digits = [] then [] else ''.'' @ digits))"

definition Duration_String :: "duration \<Rightarrow> string" where
  "Duration_String d =
     (if d = 0 then ''0s''
      else let u = abs d;
               body = (if u < Second
                       then if u < 1000 then Itoa u @ ''ns''
                            else if u < Millisecond then frac_string 3 u @ [CHR 0xC2, CHR 0xB5, CHR ''s'']
                            else frac_string 6 u @ ''ms''
                       else let mins = u div Minute; hours = mins div 60; secs = frac_string 9 (u mod Minute) @ ''s''
                            in if mins = 0 then secs
                               else if hours = 0 then Itoa mins @ ''m'' @ secs
                               else Itoa hours @ ''h'' @ Itoa (mins mod 60) @ ''m'' @ secs)
           in if d < 0 then ''-'' @ body else body)"

text \<open>What all sessions of a gateway share, and the traffic to the backends: the messages written, with the server
  they went to, and the billing events handed to the webhook sender.\<close>

record ('l, 'q, 'u) services =
  gs_limiter :: "'l option"
  gs_quota :: "'q Quota.DefaultManager option"
  gs_tracker :: "'u DefaultTracker option"
  gs_events :: "Billing.Event list"
  gs_written :: "(string \<times> any option) list"

text \<open>The world around the handling of one message: the rate limiter's answer (absent when it panics), the clock at
  the quota check, at the dial, before and after the write and at the quota counter, the pool, and the error of
  the write to a connection.\<close>

record ('l, 'p) msg_env =
  me_CheckMessage :: "string \<Rightarrow> string \<Rightarrow> string \<Rightarrow> 'l \<Rightarrow> (bool \<times> duration \<times> 'l) option"
  me_CheckNow :: time
  me_DialNow :: time
  me_StartTime :: time
  me_CountNow :: time
  me_TrackNow :: time
  me_Pool :: "'p pool_ops"
  me_Write :: "nat \<Rightarrow> string option"

definition checkMessageSafe :: "('l, 'p) msg_env \<Rightarrow> string \<Rightarrow> string \<Rightarrow> string \<Rightarrow> 'l \<Rightarrow> bool \<times> duration \<times> 'l" where
  "checkMessageSafe env tenant user tool l =
     (case me_CheckMessage env tenant user tool l of None \<Rightarrow> (True, 0, l) | Some r \<Rightarrow> r)"

definition rate_gate :: "('l, 'p) msg_env \<Rightarrow> string \<Rightarrow> string \<Rightarrow> routeDecision \<Rightarrow> ('l, 'q, 'u) services \<Rightarrow>
    string option \<times> ('l, 'q, 'u) services" where
  "rate_gate env tenantID user route g =
     (case gs_limiter g of
        None \<Rightarrow> (None, g)
      | Some l \<Rightarrow>
          (case checkMessageSafe env tenantID user (rd_toolName route) l of
             (allowed, retryAfter, l') \<Rightarrow>
               (if allowed then None else Some (''rate limited: retry after '' @ Duration_String retryAfter), g\<lparr>gs_limiter := Some l'\<rparr>)))"

definition quota_gate :: "'q Quota.Store \<Rightarrow> ('l, 'p) msg_env \<Rightarrow> string \<Rightarrow> string \<Rightarrow> routeDecision \<Rightarrow> ('l, 'q, 'u) services \<Rightarrow>
    string option \<times> ('l, 'q, 'u) services" where
  "quota_gate qops env tenantID user route g =
     (case gs_quota g of
        None \<Rightarrow> (None, g)
      | Some m \<Rightarrow>
          if rd_method route \<noteq> ''tools/call'' then (None, g)
          else (case Check qops (me_CheckNow env) tenantID user QuotaTypeToolCalls 1 m of
                  (result, er, events) \<Rightarrow>
                    (if er \<noteq> None then Some ''quota exceeded''
                     else if \<not> cq_Allowed result
                     then Some (''quota exceeded: '' @ Itoa (cq_Current result) @ ''/'' @ Itoa (cq_Limit result) @ '' tool calls used'')
                     else None,
                     g\<lparr>gs_events := gs_events g @ events\<rparr>)))"

definition policy_gate :: "Config \<Rightarrow> 'p session \<Rightarrow> routeDecision \<Rightarrow> string option" where
  "policy_gate cfg s route =
     (let decision = (case wc_Policy cfg of None \<Rightarrow> AllowAll_Authorize | Some p \<Rightarrow> p (ss_principal s))
            \<lparr>rq_Method = rd_method route, rq_ToolName = rd_toolName route, rq_ServerName = rd_serverName route, rq_Profile = ss_profile s\<rparr>
      in if d_Allow decision then None
         else Some (if d_Reason decision \<noteq> [] then ''forbidden: '' @ d_Reason decision else ''forbidden''))"

definition trackUsage :: "('l, 'p) msg_env \<Rightarrow> 'p session \<Rightarrow> routeDecision \<Rightarrow> string \<Rightarrow> bool \<Rightarrow> string \<Rightarrow> ('l, 'q, 'u) services \<Rightarrow>
    ('l, 'q, 'u) services" where
  "trackUsage env s route userID success errorCode g =
     (case gs_tracker g of
        None \<Rightarrow> g
      | Some t \<Rightarrow>
          if rd_method route \<noteq> ''tools/call'' then g
          else g\<lparr>gs_tracker := Some (Track [] (me_TrackNow env)
                   \<lparr>ue_ID = ''evt-'' @ Itoa (UnixNano (me_TrackNow env)), ue_Timestamp = me_StartTime env, ue_TenantID = ss_tenantID s,
                    ue_UserID = userID, ue_ToolName = rd_toolName route, ue_ServerID = rd_serverName route,
                    ue_Duration = time_Sub (me_TrackNow env) (me_StartTime env), ue_TokensIn = 0, ue_TokensOut = 0,
                    ue_Success = success, ue_ErrorCode = errorCode,
                    ue_Metadata = [(''session_id'', ss_id s), (''profile'', ss_profile s)]\<rparr> t)\<rparr>)"

definition count_call :: "'q Quota.Store \<Rightarrow> ('l, 'p) msg_env \<Rightarrow> string \<Rightarrow> string \<Rightarrow> routeDecision \<Rightarrow> ('l, 'q, 'u) services \<Rightarrow>
    ('l, 'q, 'u) services" where
  "count_call qops env tenantID user route g =
     (case gs_quota g of
        None \<Rightarrow> g
      | Some m \<Rightarrow>
          if rd_method route \<noteq> ''tools/call'' then g
          else g\<lparr>gs_quota := Some (snd (Increment qops (me_CountNow env) tenantID user QuotaTypeToolCalls 1 m))\<rparr>)"

definition session_user :: "'p session \<Rightarrow> string" where
  "session_user s = (case ss_principal s of None \<Rightarrow> [] | Some p \<Rightarrow> p_Subject p)"

text \<open>The last part of \<open>handleMessage\<close>: the write to the backend and what follows it.\<close>

definition forward :: "'q Quota.Store \<Rightarrow> ('l, 'p) msg_env \<Rightarrow> routeDecision \<Rightarrow> any option \<Rightarrow> backend \<Rightarrow> ('l, 'q, 'u) services \<Rightarrow> 'p session \<Rightarrow>
    ('l, 'q, 'u) services \<times> 'p session" where
  "forward qops env route json b g s =
     (let user = session_user s;
          s1 = s\<lparr>ss_conns := touch_backend (me_StartTime env) b (ss_conns s)\<rparr>
      in case me_Write env (bk_conn b) of
           Some er \<Rightarrow>
             (trackUsage env s1 route user False ''backend_write_failed'' g,
              sendJSONRPCError json ''backend write failed''
                (s1\<lparr>ss_conns := dropBackend (me_Pool env) (rd_serverName route) True (ss_conns s1)\<rparr>))
         | None \<Rightarrow>
             let g1 = g\<lparr>gs_written := gs_written g @ [(rd_serverName route, json)]\<rparr>
             in (trackUsage env s1 route user True [] (count_call qops env (ss_tenantID s) user route g1), s1))"

definition handleMessage :: "resolver \<Rightarrow> 'q Quota.Store \<Rightarrow> Config \<Rightarrow> ('l, 'p) msg_env \<Rightarrow> any option \<Rightarrow> ('l, 'q, 'u) services \<Rightarrow> 'p session \<Rightarrow>
    ('l, 'q, 'u) services \<times> 'p session" where
  "handleMessage resolve qops cfg env json g s =
     (case routeMessage resolve (ss_profile s) (ss_boundServer s) json of
        Inl er \<Rightarrow> (g, sendJSONRPCError json er s)
      | Inr route \<Rightarrow>
          if \<not> serverExistsAndHubDeployable cfg (rd_serverName route)
          then (g, sendJSONRPCError json (''unknown or local-only server: '' @ rd_serverName route) s)
          else (case rate_gate env (ss_tenantID s) (session_user s) route g of
                  (Some er, g1) \<Rightarrow> (g1, sendJSONRPCError json er s)
                | (None, g1) \<Rightarrow>
                    (case quota_gate qops env (ss_tenantID s) (session_user s) route g1 of
                       (Some er, g2) \<Rightarrow> (g2, sendJSONRPCError json er s)
                     | (None, g2) \<Rightarrow>
                         (case policy_gate cfg s route of
                            Some er \<Rightarrow> (g2, sendJSONRPCError json er s)
                          | None \<Rightarrow>
                              (case getBackend (me_Pool env) (me_DialNow env) (rd_serverName route) (ss_conns s) of
                                 (Inl er, cs) \<Rightarrow> (g2, sendJSONRPCError json ''failed to connect to backend'' (s\<lparr>ss_conns := cs\<rparr>))
                               | (Inr b, cs) \<Rightarrow> forward qops env route json b g2 (s\<lparr>ss_conns := cs\<rparr>))))))"

text \<open>One turn of the loop of \<open>Run\<close> when messages are handled one at a time.\<close>

datatype frame_type = TextMessage | BinaryMessage | OtherMessage

definition Run_frame :: "resolver \<Rightarrow> 'q Quota.Store \<Rightarrow> Config \<Rightarrow> ('l, 'p) msg_env \<Rightarrow> time \<Rightarrow> frame_type \<Rightarrow> any option \<Rightarrow>
    ('l, 'q, 'u) services \<Rightarrow> 'p session \<Rightarrow> ('l, 'q, 'u) services \<times> 'p session" where
  "Run_frame resolve qops cfg env now msgType json g s =
     (if msgType = OtherMessage then (g, s)
      else let s1 = s\<lparr>ss_lastActive := now\<rparr>
           in case unmarshal_envelope json of
                None \<Rightarrow> (g, sendJSONRPCError json ''invalid json-rpc message'' s1)
              | Some env' \<Rightarrow> handleMessage resolve qops cfg env json g s1)"

text \<open>One message from a backend, read by the goroutine of that backend: it is passed on to the client.\<close>

definition pump_message :: "time \<Rightarrow> backend \<Rightarrow> any \<Rightarrow> 'p session \<Rightarrow> 'p session" where
  "pump_message now b msg s =
     s\<lparr>ss_conns := touch_backend now b (ss_conns s), ss_client := ss_client s @ [msg]\<rparr>"


section \<open>What the handling of a message guarantees\<close>

lemma rate_gate_keeps [simp]:
  "gs_written (snd (rate_gate env tn us route g)) = gs_written g" "gs_quota (snd (rate_gate env tn us route g)) = gs_quota g"
  "gs_tracker (snd (rate_gate env tn us route g)) = gs_tracker g"
  by (simp_all add: rate_gate_def split: option.split prod.split)

lemma rate_gate_None:
  "fst (rate_gate env tn us route g) = None \<longleftrightarrow> (\<forall>l. gs_limiter g = Some l \<longrightarrow> fst (checkMessageSafe env tn us (rd_toolName route) l))"
  by (auto simp: rate_gate_def split: option.split prod.split)

lemma quota_gate_keeps [simp]:
  "gs_written (snd (quota_gate qops env tn us route g)) = gs_written g" "gs_quota (snd (quota_gate qops env tn us route g)) = gs_quota g"
  "gs_tracker (snd (quota_gate qops env tn us route g)) = gs_tracker g" "gs_limiter (snd (quota_gate qops env tn us route g)) = gs_limiter g"
  by (simp_all add: quota_gate_def split: option.split prod.split)

lemma quota_gate_None:
  "fst (quota_gate qops env tn us route g) = None \<longleftrightarrow>
     (\<forall>m. gs_quota g = Some m \<and> rd_method route = ''tools/call'' \<longrightarrow>
        (case Check qops (me_CheckNow env) tn us QuotaTypeToolCalls 1 m of (r, er, _) \<Rightarrow> er = None \<and> cq_Allowed r))"
  by (auto simp: quota_gate_def split: option.split prod.split)

lemma trackUsage_keeps [simp]:
  "gs_written (trackUsage env s route us ok code g) = gs_written g" "gs_quota (trackUsage env s route us ok code g) = gs_quota g"
  "gs_limiter (trackUsage env s route us ok code g) = gs_limiter g"
  by (simp_all add: trackUsage_def split: option.split)

lemma count_call_keeps [simp]:
  "gs_written (count_call qops env tn us route g) = gs_written g" "gs_tracker (count_call qops env tn us route g) = gs_tracker g"
  by (simp_all add: count_call_def split: option.split)

text \<open>The two ways a message can end: an error to the client and no message to a backend, or the reverse.\<close>

definition passes :: "'q Quota.Store \<Rightarrow> Config \<Rightarrow> ('l, 'p) msg_env \<Rightarrow> routeDecision \<Rightarrow> ('l, 'q, 'u) services \<Rightarrow> 'p session \<Rightarrow> bool" where
  "passes qops cfg env route g s \<longleftrightarrow>
     serverExistsAndHubDeployable cfg (rd_serverName route) \<and>
     (\<forall>l. gs_limiter g = Some l \<longrightarrow> fst (checkMessageSafe env (ss_tenantID s) (session_user s) (rd_toolName route) l)) \<and>
     (\<forall>m. gs_quota g = Some m \<and> rd_method route = ''tools/call'' \<longrightarrow>
        (case Check qops (me_CheckNow env) (ss_tenantID s) (session_user s) QuotaTypeToolCalls 1 m of
           (r, er, _) \<Rightarrow> er = None \<and> cq_Allowed r)) \<and>
     (\<forall>p. wc_Policy cfg = Some p \<longrightarrow>
        d_Allow (p (ss_principal s) \<lparr>rq_Method = rd_method route, rq_ToolName = rd_toolName route,
          rq_ServerName = rd_serverName route, rq_Profile = ss_profile s\<rparr>))"

lemma policy_gate_None:
  "policy_gate cfg s route = None \<longleftrightarrow>
     (\<forall>p. wc_Policy cfg = Some p \<longrightarrow>
        d_Allow (p (ss_principal s) \<lparr>rq_Method = rd_method route, rq_ToolName = rd_toolName route,
          rq_ServerName = rd_serverName route, rq_Profile = ss_profile s\<rparr>))"
  by (simp add: policy_gate_def Let_def AllowAll_Authorize_def split: option.split)

definition refused :: "any option \<Rightarrow> ('l, 'q, 'u) services \<Rightarrow> 'p session \<Rightarrow> ('l, 'q, 'u) services \<Rightarrow> 'p session \<Rightarrow> bool" where
  "refused json g s g' s' \<longleftrightarrow> gs_written g' = gs_written g \<and> gs_quota g' = gs_quota g \<and>
     (\<exists>m. ss_client s' = ss_client s @ [error_response (request_id json) m])"

definition delivered :: "'q Quota.Store \<Rightarrow> ('l, 'p) msg_env \<Rightarrow> routeDecision \<Rightarrow> any option \<Rightarrow> ('l, 'q, 'u) services \<Rightarrow> 'p session \<Rightarrow>
    ('l, 'q, 'u) services \<Rightarrow> 'p session \<Rightarrow> bool" where
  "delivered qops env route json g s g' s' \<longleftrightarrow> gs_written g' = gs_written g @ [(rd_serverName route, json)] \<and> ss_client s' = ss_client s \<and>
     gs_quota g' = (if rd_method route = ''tools/call''
       then map_option (\<lambda>m. snd (Increment qops (me_CountNow env) (ss_tenantID s) (session_user s) QuotaTypeToolCalls 1 m)) (gs_quota g)
       else gs_quota g)"

lemma forward_outcome:
  assumes "forward qops env route json b g s = (g', s')"
  shows "refused json g s g' s' \<or> delivered qops env route json g s g' s'"
proof (cases "me_Write env (bk_conn b)")
  case None
  with assms have "delivered qops env route json g s g' s'"
    by (auto simp: forward_def delivered_def Let_def count_call_def split: option.splits)
  then show ?thesis ..
next
  case (Some er)
  with assms have "refused json g s g' s'"
    by (auto simp: forward_def refused_def Let_def sendJSONRPCError_def)
  then show ?thesis ..
qed

lemma refused_send: "gs_written g' = gs_written g \<Longrightarrow> gs_quota g' = gs_quota g \<Longrightarrow> ss_client s1 = ss_client s \<Longrightarrow>
   refused json g s g' (sendJSONRPCError json m s1)"
  by (auto simp: refused_def sendJSONRPCError_def)

lemma handleMessage_outcome:
  assumes "handleMessage resolve qops cfg env json g s = (g', s')"
  shows "refused json g s g' s' \<or>
    (\<exists>route. routeMessage resolve (ss_profile s) (ss_boundServer s) json = Ok route \<and> passes qops cfg env route g s \<and>
       delivered qops env route json g s g' s')"
proof (cases "routeMessage resolve (ss_profile s) (ss_boundServer s) json")
  case (Inl er)
  with assms show ?thesis by (auto simp: handleMessage_def intro: refused_send)
next
  case (Inr route)
  obtain r1 g1 where r1: "rate_gate env (ss_tenantID s) (session_user s) route g = (r1, g1)" by (rule prod.exhaust)
  obtain r2 g2 where r2: "quota_gate qops env (ss_tenantID s) (session_user s) route g1 = (r2, g2)" by (rule prod.exhaust)
  obtain r3 cs where r3: "getBackend (me_Pool env) (me_DialNow env) (rd_serverName route) (ss_conns s) = (r3, cs)" by (rule prod.exhaust)
  have k1: "gs_written g1 = gs_written g" "gs_quota g1 = gs_quota g"
    using rate_gate_keeps [of env "ss_tenantID s" "session_user s" route g] r1 by simp_all
  have k2: "gs_written g2 = gs_written g" "gs_quota g2 = gs_quota g"
    using quota_gate_keeps [of qops env "ss_tenantID s" "session_user s" route g1] r2 k1 by simp_all
  note step = assms [unfolded handleMessage_def, simplified Inr sum.case r1 r2 prod.case]
  show ?thesis
  proof (cases "serverExistsAndHubDeployable cfg (rd_serverName route) \<and> r1 = None \<and> r2 = None \<and> policy_gate cfg s route = None \<and> (\<exists>b. r3 = Inr b)")
    case False
    with step k1 k2 r2 r3 have "refused json g s g' s'"
      by (auto intro: refused_send split: result_splits)
    then show ?thesis ..
  next
    case True
    then obtain b where b: "r3 = Inr b" by blast
    with True step r2 r3 have fw: "forward qops env route json b g2 (s\<lparr>ss_conns := cs\<rparr>) = (g', s')" by simp
    have "passes qops cfg env route g s"
      using True r1 r2 k1 rate_gate_None [of env "ss_tenantID s" "session_user s" route g]
        quota_gate_None [of qops env "ss_tenantID s" "session_user s" route g1] policy_gate_None [of cfg s route]
      by (simp add: passes_def)
    moreover have "refused json g s g' s' \<or> delivered qops env route json g s g' s'"
      using forward_outcome [OF fw] k2 by (auto simp: refused_def delivered_def session_user_def)
    ultimately show ?thesis using Inr by blast
  qed
qed

text \<open>C1. Complete mediation: whatever a message contains, either it reaches no backend, no quota is counted and the
  client gets exactly one error that carries the identifier of the request, or it was routed to a server of the
  registry that is not local-only, passed the rate limiter, the quota check and the policy, is written once to the
  backend of that server, and is counted exactly when it is a tool call.\<close>

theorem handleMessage_mediates:
  assumes "handleMessage resolve qops cfg env json g s = (g', s')"
  shows "refused json g s g' s' \<or>
    (\<exists>route. routeMessage resolve (ss_profile s) (ss_boundServer s) json = Ok route \<and> passes qops cfg env route g s \<and>
       delivered qops env route json g s g' s')"
  using assms by (rule handleMessage_outcome)

definition demo_registry :: Registry where
  "demo_registry = (let srv = \<lparr>sv_Name = ''fs'', sv_IsLocalOnly = False, sv_URL = [], sv_Categories = [], sv_Description = None\<rparr>
     in \<lparr>rg_Servers = [None, Some srv], rg_GetServer = (\<lambda>n. if n = ''fs'' then Some srv else None), rg_GetServerSpec = (\<lambda>n p. Ok None)\<rparr>)"

definition demo_gateway :: Config where
  "demo_gateway = New (\<lambda>_. []) \<lparr>wc_Registry = Some demo_registry, wc_Authenticator = None, wc_Policy = None, wc_HubNamespace = [],
     wc_ServerPort = [], wc_ServerWSPath = [], wc_ServerScheme = [], wc_ServerHostTemplate = [], wc_HandshakeTimeout = 0,
     wc_DialTimeout = 0, wc_BackendMaxIdle = 0, wc_BackendMaxOpen = 0, wc_BackendIdleTimeout = 0\<rparr>"

definition demo_call :: "any option" where
  "demo_call = Some (AMap [(''jsonrpc'', AString ''2.0''), (''id'', AInt 7), (''method'', AString ''tools/call''),
     (''params'', AMap [(''name'', AString ''read_file'')])])"

definition demo_env :: "(unit, nat) msg_env" where
  "demo_env = \<lparr>me_CheckMessage = (\<lambda>tn us tool l. None), me_CheckNow = unix_epoch, me_DialNow = unix_epoch, me_StartTime = unix_epoch,
     me_CountNow = unix_epoch, me_TrackNow = unix_epoch, me_Pool = demo_pool, me_Write = (\<lambda>_. None)\<rparr>"

definition demo_session :: "nat session" where "demo_session = newSession unix_epoch 0 None ''common'' ''fs''"

definition demo_services :: "(unit, Quota.MemoryStore, Usage_Store.MemoryStore) services" where
  "demo_services = \<lparr>gs_limiter = None, gs_quota = None, gs_tracker = None, gs_events = [], gs_written = []\<rparr>"

theorem handleMessage_mediates_witness:
  "\<exists>g' s'. handleMessage (\<lambda>p t a. Ok []) Quota.memory_ops demo_gateway demo_env None demo_services demo_session = (g', s') \<and>
     refused None demo_services demo_session g' s'"
proof -
  obtain g' s' where h: "handleMessage (\<lambda>p t a. Ok []) Quota.memory_ops demo_gateway demo_env None demo_services demo_session = (g', s')"
    by (rule prod.exhaust)
  have "routeMessage (\<lambda>p t a. Ok []) pr bs None = Err ''invalid json-rpc message''" for pr bs
    by (simp add: routeMessage_def unmarshal_envelope_def)
  with handleMessage_mediates [OF h] h show ?thesis by auto
qed

text \<open>C34. Delivery: a message that is routed and passes every check, for which a backend is found and whose write
  succeeds, is delivered, and a delivered tool call leaves one usage event with the tenant, user, tool and server
  of the call, marked successful.\<close>

theorem handleMessage_delivers:
  assumes "routeMessage resolve (ss_profile s) (ss_boundServer s) json = Ok route" "passes qops cfg env route g s"
    "getBackend (me_Pool env) (me_DialNow env) (rd_serverName route) (ss_conns s) = (Ok b, cs)" "me_Write env (bk_conn b) = None"
  shows "\<exists>g' s'. handleMessage resolve qops cfg env json g s = (g', s') \<and> delivered qops env route json g s g' s' \<and>
    (\<forall>t. gs_tracker g = Some t \<and> rd_method route = ''tools/call'' \<longrightarrow>
      (\<exists>e. gs_tracker g' = Some (Track [] (me_TrackNow env) e t) \<and> ue_Success e \<and> ue_TenantID e = ss_tenantID s \<and>
         ue_UserID e = session_user s \<and> ue_ToolName e = rd_toolName route \<and> ue_ServerID e = rd_serverName route))"
proof -
  obtain r1 g1 where r1: "rate_gate env (ss_tenantID s) (session_user s) route g = (r1, g1)" by (rule prod.exhaust)
  obtain r2 g2 where r2: "quota_gate qops env (ss_tenantID s) (session_user s) route g1 = (r2, g2)" by (rule prod.exhaust)
  have k1: "gs_written g1 = gs_written g" "gs_quota g1 = gs_quota g" "gs_tracker g1 = gs_tracker g"
    using rate_gate_keeps [of env "ss_tenantID s" "session_user s" route g] r1 by simp_all
  have k2: "gs_written g2 = gs_written g" "gs_quota g2 = gs_quota g" "gs_tracker g2 = gs_tracker g"
    using quota_gate_keeps [of qops env "ss_tenantID s" "session_user s" route g1] r2 k1 by simp_all
  have n: "r1 = None" "r2 = None" "policy_gate cfg s route = None"
    using assms(2) r1 r2 k1 rate_gate_None [of env "ss_tenantID s" "session_user s" route g]
      quota_gate_None [of qops env "ss_tenantID s" "session_user s" route g1] policy_gate_None [of cfg s route]
    by (simp_all add: passes_def)
  obtain g' s' where fw: "forward qops env route json b g2 (s\<lparr>ss_conns := cs\<rparr>) = (g', s')" by (rule prod.exhaust)
  have h: "handleMessage resolve qops cfg env json g s = (g', s')"
    using assms(1-3) r1 r2 n fw by (simp add: handleMessage_def passes_def)
  have "delivered qops env route json g s g' s'"
    using fw assms(4) k2 by (auto simp: forward_def delivered_def Let_def count_call_def session_user_def split: option.splits)
  moreover have "gs_tracker g' = gs_tracker (trackUsage env (s\<lparr>ss_conns := touch_backend (me_StartTime env) b cs\<rparr>) route (session_user s) True [] g2)"
    using fw assms(4) by (auto simp: forward_def Let_def trackUsage_def session_user_def split: option.splits)
  ultimately show ?thesis using h k2 by (auto simp: trackUsage_def)
qed

theorem handleMessage_delivers_witness:
  "\<exists>g' s'. handleMessage (\<lambda>p t a. Ok []) Quota.memory_ops demo_gateway demo_env demo_call demo_services demo_session = (g', s') \<and>
     gs_written g' = [(''fs'', demo_call)]"
proof -
  let ?r = "\<lparr>rd_method = ''tools/call'', rd_toolName = ''read_file'', rd_serverName = ''fs''\<rparr>"
  have r: "routeMessage (\<lambda>p t a. Ok []) (ss_profile demo_session) (ss_boundServer demo_session) demo_call = Ok ?r" by code_simp
  have p: "passes Quota.memory_ops demo_gateway demo_env ?r demo_services demo_session"
    by (simp add: passes_def demo_services_def demo_gateway_def New_def AllowAll_Authorize_def serverExistsAndHubDeployable_def
        demo_registry_def Let_def)
  obtain b cs where b: "getBackend (me_Pool demo_env) (me_DialNow demo_env) (rd_serverName ?r) (ss_conns demo_session) = (Ok b, cs)"
    by (simp add: getBackend_def getBackend_lookup_def getBackend_dial_def getBackend_install_def demo_session_def newSession_def
        demo_env_def demo_pool_def touch_def)
  from handleMessage_delivers [OF r p b] show ?thesis by (auto simp: demo_env_def delivered_def demo_services_def)
qed

text \<open>Who gets a session: a GET request that the authenticator accepted, for a server of the registry that is not
  local-only. The session carries the principal found by the authenticator, that principal's tenant and no other,
  and starts without backends and with nothing sent.\<close>

theorem HandleWS_session:
  assumes "HandleWS cfg now newPool upgrades r = Session s" "wc_Authenticator cfg = Some a"
  shows "wr_Method r = ''GET'' \<and> a (wr_Header r) = Ok (ss_principal s) \<and> ss_tenantID s = TenantID (ss_principal s) \<and>
    serverExistsAndHubDeployable cfg (ss_boundServer s) \<and> ss_boundServer s \<noteq> [] \<and> ss_profile s \<noteq> [] \<and>
    cs_backends (ss_conns s) = [] \<and> ss_client s = []"
  using assms
  by (auto simp: HandleWS_def newSession_def Let_def split: if_splits sum.splits option.splits auth_error.splits)

theorem HandleWS_session_witness:
  "\<exists>s. HandleWS demo_gateway unix_epoch (0 :: nat) True
       \<lparr>wr_Method = ''GET'', wr_Query = (\<lambda>k. if k = ''server'' then ''fs'' else []), wr_Header = (\<lambda>_. [])\<rparr> = Session s \<and>
     ss_principal s = None \<and> serverExistsAndHubDeployable demo_gateway (ss_boundServer s)"
proof -
  let ?r = "\<lparr>wr_Method = ''GET'', wr_Query = (\<lambda>k. if k = ''server'' then ''fs'' else []), wr_Header = (\<lambda>_. [])\<rparr>"
  have a: "wc_Authenticator demo_gateway = Some (\<lambda>r. Ok None)" by (simp add: demo_gateway_def New_def)
  have d: "serverExistsAndHubDeployable demo_gateway ''fs''"
    by (simp add: serverExistsAndHubDeployable_def demo_gateway_def New_def demo_registry_def Let_def)
  have t: "TrimSpace ''fs'' = ''fs''" by code_simp
  have h: "HandleWS demo_gateway unix_epoch (0 :: nat) True ?r = Session (newSession unix_epoch 0 None ''common'' ''fs'')"
    by (simp add: HandleWS_def a d t Let_def)
  from HandleWS_session [OF h a] h show ?thesis by auto
qed

end
