(* ===== verification/Metrics.thy ===== *)
theory Metrics
  imports Mcpws Usage_Tracker
begin

text \<open>
  The package \<open>internal/metrics\<close>: the metrics the gateway declares, and, function by function, what the code does to them. The
  Prometheus client is a record of operations; a declaration or an update that it does not accept panics and is \<open>None\<close>. The
  locale \<open>prometheus\<close> states when it documents not to panic, and is interpreted on a registry that checks just that.

  Shown here: all declarations are accepted and no update of the code is refused, whatever the values are; so no metric ever stops
  a request or the process.
\<close>

section \<open>Declarations\<close>

text \<open>A vector is declared with the names of its labels, a histogram with its buckets. Metrics are known to the code by the
  variables that hold them.\<close>

datatype metric_kind = Gauge | Counter | Histogram "rat list"

record metric =
  mt_var :: string
  mt_kind :: metric_kind
  mt_name :: string
  mt_help :: string
  mt_labels :: "string list"

definition metric_of :: "string \<Rightarrow> metric_kind \<Rightarrow> string \<Rightarrow> string \<Rightarrow> string list \<Rightarrow> metric" where
  "metric_of var kind name help labels =
     \<lparr>mt_var = var, mt_kind = kind, mt_name = name, mt_help = help, mt_labels = labels\<rparr>"

text \<open>The declarations in the order of the file; \<open>defBuckets\<close> is \<open>prometheus.DefBuckets\<close>.\<close>

definition declarations :: "rat list \<Rightarrow> metric list" where
  "declarations defBuckets =
     [metric_of ''SessionsActive'' Gauge ''mcp_gateway_sessions_active'' ''Current number of active client WebSocket sessions'' [],
      metric_of ''SessionsActiveByTenant'' Gauge ''mcp_gateway_sessions_active_by_tenant'' ''Current number of active sessions per tenant'' [''tenant''],
      metric_of ''MessagesTotal'' Counter ''mcp_gateway_messages_total'' ''Total number of MCP messages processed'' [''direction'', ''type''],
      metric_of ''ErrorsTotal'' Counter ''mcp_gateway_errors_total'' ''Total number of errors encountered'' [''source''],
      metric_of ''BackendDialDuration'' (Histogram defBuckets) ''mcp_gateway_backend_dial_duration_seconds'' ''Time taken to dial backend servers'' [],
      metric_of ''RateLimitedTotal'' Counter ''mcp_gateway_ratelimited_total'' ''Total number of requests rejected due to rate limiting'' [''tenant'', ''user''],
      metric_of ''RateLimitTokensRemaining'' Gauge ''mcp_gateway_ratelimit_tokens_remaining'' ''Current number of rate limit tokens remaining'' [''scope'', ''tenant''],
      metric_of ''RateLimitCheckDuration'' (Histogram [1/10000, 5/10000, 1/1000, 5/1000, 1/100, 5/100, 1/10])
        ''mcp_gateway_ratelimit_check_duration_seconds'' ''Time taken to check rate limits'' [],
      metric_of ''QuotaUsageGauge'' Gauge ''mcp_gateway_quota_usage'' ''Current quota usage by tenant and type'' [''tenant'', ''quota_type''],
      metric_of ''QuotaExceededTotal'' Counter ''mcp_gateway_quota_exceeded_total'' ''Total number of requests blocked due to quota exceeded'' [''tenant'', ''quota_type''],
      metric_of ''QuotaWarningTotal'' Counter ''mcp_gateway_quota_warning_total'' ''Total number of requests that triggered soft limit warnings'' [''tenant'', ''quota_type''],
      metric_of ''APIKeysCreatedTotal'' Counter ''mcp_gateway_apikeys_created_total'' ''Total number of API keys created'' [''tenant''],
      metric_of ''APIKeysRevokedTotal'' Counter ''mcp_gateway_apikeys_revoked_total'' ''Total number of API keys revoked'' [''tenant''],
      metric_of ''APIKeysRotatedTotal'' Counter ''mcp_gateway_apikeys_rotated_total'' ''Total number of API keys rotated'' [''tenant''],
      metric_of ''APIKeyAuthTotal'' Counter ''mcp_gateway_apikey_auth_total'' ''Total number of API key authentication attempts'' [''tenant'', ''result''],
      metric_of ''APIKeyAuthFailedTotal'' Counter ''mcp_gateway_apikey_auth_failed_total'' ''Total number of failed API key authentication attempts'' [''tenant'', ''reason''],
      metric_of ''UsageEventsStoredTotal'' Counter ''mcp_gateway_usage_events_stored_total'' ''Total number of usage events successfully stored'' [],
      metric_of ''UsageEventsFailedTotal'' Counter ''mcp_gateway_usage_events_failed_total'' ''Total number of usage events that failed to store'' [],
      metric_of ''UsageEventsRetriedTotal'' Counter ''mcp_gateway_usage_events_retried_total'' ''Total number of usage event store retry attempts'' [],
      metric_of ''UsageEventsDLQTotal'' Counter ''mcp_gateway_usage_events_dlq_total'' ''Total number of usage events sent to dead-letter queue'' [],
      metric_of ''UsageFlushDuration'' (Histogram [1/1000, 5/1000, 1/100, 5/100, 1/10, 5/10, 1, 5])
        ''mcp_gateway_usage_flush_duration_seconds'' ''Time taken to flush usage events to storage'' []]"

text \<open>An update of the metric in a variable: the values of its labels and what is done.\<close>

datatype update = Inc | Dec | Add int | Set_to rat | Observe rat

type_synonym sample = "string \<times> string list \<times> update"


section \<open>Updates of the code\<close>

text \<open>Sessions and messages (\<open>mcpws.go\<close>). A duration is given in seconds.\<close>

definition HandleWS_samples :: "(auth_error option, 'a) result \<Rightarrow> sample list" where
  "HandleWS_samples authenticated = (case authenticated of Inl er \<Rightarrow> [(''ErrorsTotal'', [''auth''], Inc)] | Inr prin \<Rightarrow> [])"

definition dialBackend_samples :: "rat \<Rightarrow> (string, 'a) result \<Rightarrow> sample list" where
  "dialBackend_samples seconds dialed =
     (''BackendDialDuration'', [], Observe seconds) #
     (case dialed of Inl er \<Rightarrow> [(''ErrorsTotal'', [''backend_dial''], Inc)] | Inr conn \<Rightarrow> [])"

definition frame_type_text :: "frame_type \<Rightarrow> string" where
  "frame_type_text msgType = (if msgType = TextMessage then ''text'' else ''binary'')"

definition Run_samples :: "frame_type \<Rightarrow> any option \<Rightarrow> sample list" where
  "Run_samples msgType json =
     (if msgType = OtherMessage then []
      else (''MessagesTotal'', [''in'', frame_type_text msgType], Inc) #
           (if unmarshal_envelope json = None then [(''ErrorsTotal'', [''route''], Inc)] else []))"

definition handleMessage_samples :: "resolver \<Rightarrow> 'q Quota.Store \<Rightarrow> Config \<Rightarrow> ('l, 'p) msg_env \<Rightarrow> any option \<Rightarrow> ('l, 'q, 'u) services \<Rightarrow>
    'p session \<Rightarrow> sample list" where
  "handleMessage_samples resolve qops cfg env json g s =
     (case routeMessage resolve (ss_profile s) (ss_boundServer s) json of
        Inl er \<Rightarrow> [(''ErrorsTotal'', [''route''], Inc)]
      | Inr route \<Rightarrow>
          if \<not> serverExistsAndHubDeployable cfg (rd_serverName route) then [(''ErrorsTotal'', [''route''], Inc)]
          else (case rate_gate env (ss_tenantID s) (session_user s) route g of
                  (Some er, g1) \<Rightarrow>
                    [(''ErrorsTotal'', [''ratelimit''], Inc), (''RateLimitedTotal'', [ss_tenantID s, session_user s], Inc)]
                | (None, g1) \<Rightarrow>
                    (case quota_gate qops env (ss_tenantID s) (session_user s) route g1 of
                       (Some er, g2) \<Rightarrow> [(''ErrorsTotal'', [''quota''], Inc)]
                     | (None, g2) \<Rightarrow> [])))"

text \<open>One turn of a pump: a failed read, or a message that was written to the client or not.\<close>

definition pump_samples :: "(string, frame_type) result \<Rightarrow> bool \<Rightarrow> sample list" where
  "pump_samples read_result written =
     (case read_result of
        Inl er \<Rightarrow> [(''ErrorsTotal'', [''backend_io''], Inc)]
      | Inr msgType \<Rightarrow> if written then [(''MessagesTotal'', [''out'', frame_type_text msgType], Inc)] else [])"

definition trackSession_samples :: "'p session \<Rightarrow> sample list" where
  "trackSession_samples s =
     (''SessionsActive'', [], Inc) # (if ss_tenantID s \<noteq> [] then [(''SessionsActiveByTenant'', [ss_tenantID s], Inc)] else [])"

definition untrackSession_samples :: "string \<Rightarrow> (string, 'p session) gomap \<Rightarrow> sample list" where
  "untrackSession_samples i sessions =
     (case mget sessions i of
        Some s \<Rightarrow> if ss_tenantID s \<noteq> [] then [(''SessionsActiveByTenant'', [ss_tenantID s], Dec)] else []
      | None \<Rightarrow> []) @ [(''SessionsActive'', [], Dec)]"

text \<open>Rate limits (\<open>adapter.go\<close>, \<open>middleware.go\<close>). The gauge is set from the result of a check that did not fail.\<close>

definition CheckMessage_samples :: "rat \<Rightarrow> string \<Rightarrow> 's HierarchicalLimiter option \<Rightarrow> Result \<Rightarrow> limit_error option \<Rightarrow> sample list" where
  "CheckMessage_samples seconds tenant a result er =
     (case a of
        None \<Rightarrow> []
      | Some l \<Rightarrow>
          if \<not> h_enabled l then []
          else (if er = None \<and> tenant \<noteq> []
                then [(''RateLimitTokensRemaining'', [''tenant'', tenant], Set_to (of_int (r_Remaining result)))] else []) @
               [(''RateLimitCheckDuration'', [], Observe seconds)])"

definition Handler_samples :: "Key \<Rightarrow> limit_error option \<Rightarrow> sample list" where
  "Handler_samples key er = (if er = Some ErrRateLimited then [(''RateLimitedTotal'', [k_Tenant key, k_User key], Inc)] else [])"

text \<open>API keys (\<open>apikey.go\<close>, \<open>manager.go\<close>).\<close>

definition extractTenantFromKey :: "string \<Rightarrow> string" where "extractTenantFromKey key = ''unknown''"

definition Authenticate_samples :: "string \<Rightarrow> (key_error, APIKey) result \<Rightarrow> sample list" where
  "Authenticate_samples key validated =
     (if key = [] then []
      else (case validated of
              Inl er \<Rightarrow> [(''APIKeyAuthTotal'', [extractTenantFromKey key, ''failure''], Inc)]
            | Inr apiKey \<Rightarrow> [(''APIKeyAuthTotal'', [ak_TenantID apiKey, ''success''], Inc)]))"

definition Create_samples :: "CreateKeyRequest \<Rightarrow> (key_error, CreateKeyResult) result \<Rightarrow> sample list" where
  "Create_samples req r = (case r of Inl er \<Rightarrow> [] | Inr res \<Rightarrow> [(''APIKeysCreatedTotal'', [cr_TenantID req], Inc)])"

definition Validate_samples :: "time \<Rightarrow> APIKey \<Rightarrow> sample list" where
  "Validate_samples now key =
     (if IsRevoked key then [(''APIKeyAuthFailedTotal'', [ak_TenantID key, ''revoked''], Inc)]
      else if IsExpired now key then [(''APIKeyAuthFailedTotal'', [ak_TenantID key, ''expired''], Inc)]
      else [])"

definition Revoke_samples :: "APIKey \<Rightarrow> (key_error, unit) result \<Rightarrow> sample list" where
  "Revoke_samples key updated = (case updated of Inl er \<Rightarrow> [] | Inr u \<Rightarrow> [(''APIKeysRevokedTotal'', [ak_TenantID key], Inc)])"

definition Rotate_samples :: "APIKey \<Rightarrow> (key_error, CreateKeyResult) result \<Rightarrow> sample list" where
  "Rotate_samples oldKey created = (case created of Inl er \<Rightarrow> [] | Inr res \<Rightarrow> [(''APIKeysRotatedTotal'', [ak_TenantID oldKey], Inc)])"

text \<open>Quotas (\<open>manager.go\<close>).\<close>

definition Check_samples :: "string \<Rightarrow> string \<Rightarrow> quota_error option \<Rightarrow> sample list" where
  "Check_samples tenantID quotaType er =
     (if er = Some ErrQuotaExceeded then [(''QuotaExceededTotal'', [tenantID, quotaType], Inc)] else [])"

definition Increment_samples :: "string \<Rightarrow> string \<Rightarrow> (quota_error, int) result \<Rightarrow> sample list" where
  "Increment_samples tenantID quotaType incremented =
     (case incremented of
        Inl er \<Rightarrow> []
      | Inr newUsage \<Rightarrow> [(''QuotaUsageGauge'', [tenantID, quotaType], Set_to (fl (of_int newUsage)))])"

text \<open>Usage (\<open>tracker.go\<close>): the loop of \<open>storeWithRetry\<close> over its attempts, the dead-letter file, and a flush.\<close>

fun retry_samples :: "'s Store \<Rightarrow> Event list \<Rightarrow> nat list \<Rightarrow> 's \<Rightarrow> sample list" where
  "retry_samples ops events [] s = []"
| "retry_samples ops events (attempt # attempts) s =
     (if attempt > 0 then [(''UsageEventsRetriedTotal'', [], Add (int (length events)))] else []) @
     (case us_Store ops events s of
        (Inr _, s') \<Rightarrow> [(''UsageEventsStoredTotal'', [], Add (int (length events)))]
      | (Inl er, s') \<Rightarrow> (''UsageEventsFailedTotal'', [], Add (int (length events))) # retry_samples ops events attempts s')"

definition storeWithRetry_samples :: "'s Store \<Rightarrow> Usage_Store.Config \<Rightarrow> Event list \<Rightarrow> 's \<Rightarrow> sample list" where
  "storeWithRetry_samples ops cfg events s =
     (let maxRetries = (if uc_MaxRetries cfg = 0 then 3 else uc_MaxRetries cfg)
      in retry_samples ops events [0..<nat (maxRetries + 1)] s)"

definition sendToDLQ_samples :: "flush_env \<Rightarrow> Event list \<Rightarrow> 's DefaultTracker \<Rightarrow> sample list" where
  "sendToDLQ_samples env events t =
     (if events = [] then []
      else let dlqPath = (if uc_DLQPath (dt_cfg t) = [] then ''/tmp/fi-mcp-usage-dlq.jsonl'' else uc_DLQPath (dt_cfg t))
           in if dt_dlqFile t = None \<and> fe_OpenFile env dlqPath \<noteq> None then []
              else [(''UsageEventsDLQTotal'', [], Add (int (length (dlq_entries env events))))])"

definition flush_store_samples :: "'s Store \<Rightarrow> flush_env \<Rightarrow> Event list \<Rightarrow> 's DefaultTracker \<Rightarrow> sample list" where
  "flush_store_samples ops env events t =
     (case dt_store t of
        None \<Rightarrow> []
      | Some s \<Rightarrow>
          storeWithRetry_samples ops (dt_cfg t) events s @
          (if fst (storeWithRetry ops (dt_cfg t) events s) \<noteq> None then sendToDLQ_samples env events t else []))"

definition flush_samples :: "'s Store \<Rightarrow> flush_env \<Rightarrow> rat \<Rightarrow> 's DefaultTracker \<Rightarrow> sample list" where
  "flush_samples ops env seconds t =
     (case flush_take t of (None, t') \<Rightarrow> [] | (Some events, t') \<Rightarrow> flush_store_samples ops env events t') @
     [(''UsageFlushDuration'', [], Observe seconds)]"



section \<open>The client library\<close>

text \<open>Registering a metric and updating one by its name; \<open>None\<close> is a panic. \<open>pr_registered\<close> lists what was registered.\<close>

record 'r prom =
  pr_register :: "metric \<Rightarrow> 'r \<Rightarrow> 'r option"
  pr_update :: "string \<Rightarrow> string list \<Rightarrow> update \<Rightarrow> 'r \<Rightarrow> 'r option"
  pr_registered :: "'r \<Rightarrow> metric list"

definition letter :: "char \<Rightarrow> bool" where
  "letter c \<longleftrightarrow> list_ex (\<lambda>(first, final). first \<le> (of_char c :: nat) \<and> (of_char c :: nat) \<le> final) [(65, 90), (95, 95), (97, 122)]"

definition plain_name :: "string \<Rightarrow> bool" where
  "plain_name s \<longleftrightarrow> s \<noteq> [] \<and> letter (hd s) \<and> (\<forall>c\<in>set s. letter c \<or> is_digit c)"

fun increasing :: "rat list \<Rightarrow> bool" where
  "increasing (x # y # xs) \<longleftrightarrow> x < y \<and> increasing (y # xs)"
| "increasing xs \<longleftrightarrow> True"

text \<open>A metric that may be registered beside others: names made of letters and digits, none taken, label names that are
  distinct and not reserved, and buckets in increasing order.\<close>

definition well_named :: "string \<Rightarrow> string list \<Rightarrow> bool" where
  "well_named name labels \<longleftrightarrow> plain_name name \<and> distinct labels \<and> list_all (\<lambda>l. plain_name l \<and> \<not> prefix ''__'' l) labels"

definition registrable :: "metric list \<Rightarrow> metric \<Rightarrow> bool" where
  "registrable ms m \<longleftrightarrow> well_named (mt_name m) (mt_labels m) \<and> mt_name m \<notin> mt_name ` set ms \<and>
     (case mt_kind m of Histogram bs \<Rightarrow> increasing bs \<and> ''le'' \<notin> set (mt_labels m) | _ \<Rightarrow> True)"

text \<open>What may be done to a metric of a kind: a counter does not go down.\<close>

fun permitted :: "metric_kind \<Rightarrow> update \<Rightarrow> bool" where
  "permitted Counter Inc \<longleftrightarrow> True"
| "permitted Counter (Add n) \<longleftrightarrow> 0 \<le> n"
| "permitted Counter u \<longleftrightarrow> False"
| "permitted (Histogram bs) (Observe x) \<longleftrightarrow> True"
| "permitted (Histogram bs) u \<longleftrightarrow> False"
| "permitted Gauge (Observe x) \<longleftrightarrow> False"
| "permitted Gauge u \<longleftrightarrow> True"

text \<open>The values of labels are Unicode texts: \<open>utf8.ValidString\<close>, which excludes overlong forms, surrogates and code points
  above U+10FFFF.\<close>

definition continues :: "nat \<Rightarrow> nat \<Rightarrow> char \<Rightarrow> bool" where
  "continues lo hi c \<longleftrightarrow> lo \<le> of_char c \<and> of_char c \<le> hi"

fun ValidString :: "string \<Rightarrow> bool" where
  "ValidString [] \<longleftrightarrow> True"
| "ValidString (b # bs) \<longleftrightarrow>
     (let x = (of_char b :: nat)
      in if x < 0x80 then ValidString bs
         else if x < 0xC2 \<or> 0xF4 < x then False
         else if x < 0xE0 then (case bs of c # cs \<Rightarrow> continues 0x80 0xBF c \<and> ValidString cs | _ \<Rightarrow> False)
         else if x < 0xF0 then
           (case bs of
              c # d # cs \<Rightarrow> continues (if x = 0xE0 then 0xA0 else 0x80) (if x = 0xED then 0x9F else 0xBF) c \<and>
                continues 0x80 0xBF d \<and> ValidString cs
            | _ \<Rightarrow> False)
         else
           (case bs of
              c # d # e # cs \<Rightarrow> continues (if x = 0xF0 then 0x90 else 0x80) (if x = 0xF4 then 0x8F else 0xBF) c \<and>
                continues 0x80 0xBF d \<and> continues 0x80 0xBF e \<and> ValidString cs
            | _ \<Rightarrow> False))"

lemma ValidString_ascii: "list_all (\<lambda>c. of_char c < (0x80 :: nat)) s \<Longrightarrow> ValidString s"
  by (induction s) simp_all

definition update_fits :: "metric list \<Rightarrow> string \<Rightarrow> string list \<Rightarrow> update \<Rightarrow> bool" where
  "update_fits ms name lvs u \<longleftrightarrow> list_all ValidString lvs \<and>
     (\<exists>m\<in>set ms. mt_name m = name \<and> length lvs = length (mt_labels m) \<and> permitted (mt_kind m) u)"

text \<open>The start of the package and the execution of updates, through the variables.\<close>

fun register_all :: "'r prom \<Rightarrow> metric list \<Rightarrow> 'r \<Rightarrow> 'r option" where
  "register_all pr [] r = Some r"
| "register_all pr (m # ms) r = Option.bind (pr_register pr m r) (register_all pr ms)"

definition variable_name :: "string \<Rightarrow> string option" where
  "variable_name var = map_of (map (\<lambda>m. (mt_var m, mt_name m)) (declarations [])) var"

fun update_all :: "'r prom \<Rightarrow> sample list \<Rightarrow> 'r \<Rightarrow> 'r option" where
  "update_all pr [] r = Some r"
| "update_all pr ((var, lvs, u) # samples) r =
     (case variable_name var of
        None \<Rightarrow> None
      | Some name \<Rightarrow> Option.bind (pr_update pr name lvs u r) (update_all pr samples))"

fun all_registrable :: "metric list \<Rightarrow> metric list \<Rightarrow> bool" where
  "all_registrable ms [] \<longleftrightarrow> True"
| "all_registrable ms (m # more_ms) \<longleftrightarrow> registrable ms m \<and> all_registrable (ms @ [m]) more_ms"

locale prometheus =
  fixes pr :: "'r prom"
  assumes registers: "registrable (pr_registered pr r) m \<Longrightarrow>
      \<exists>r'. pr_register pr m r = Some r' \<and> pr_registered pr r' = pr_registered pr r @ [m]"
    and updates: "update_fits (pr_registered pr r) name lvs u \<Longrightarrow>
      \<exists>r'. pr_update pr name lvs u r = Some r' \<and> pr_registered pr r' = pr_registered pr r"
begin

lemma register_all_Some:
  "all_registrable (pr_registered pr r) ms \<Longrightarrow> \<exists>r'. register_all pr ms r = Some r' \<and> pr_registered pr r' = pr_registered pr r @ ms"
proof (induction ms arbitrary: r)
  case (Cons m ms)
  then obtain r1 where r1: "pr_register pr m r = Some r1" "pr_registered pr r1 = pr_registered pr r @ [m]"
    using registers [of r m] by auto
  with Cons.IH [of r1] Cons.prems show ?case by auto
qed simp

lemma update_all_Some:
  assumes "\<forall>(var, lvs, u)\<in>set samples. \<exists>name. variable_name var = Some name \<and> update_fits (pr_registered pr r) name lvs u"
  shows "\<exists>r'. update_all pr samples r = Some r' \<and> pr_registered pr r' = pr_registered pr r"
  using assms
proof (induction samples arbitrary: r)
  case (Cons x samples)
  obtain var lvs u where x: "x = (var, lvs, u)" by (cases x)
  with Cons.prems obtain name where n: "variable_name var = Some name" "update_fits (pr_registered pr r) name lvs u" by auto
  obtain r1 where r1: "pr_update pr name lvs u r = Some r1" "pr_registered pr r1 = pr_registered pr r" using updates [OF n(2)] by blast
  with Cons.IH [of r1] Cons.prems n(1) show ?case by (auto simp: x)
qed simp

end


section \<open>No panic\<close>

text \<open>The declarations are registrable one after the other.\<close>

lemma all_registrable_if:
  assumes "\<forall>m\<in>set ms. well_named (mt_name m) (mt_labels m) \<and>
      (case mt_kind m of Histogram bs \<Rightarrow> increasing bs \<and> ''le'' \<notin> set (mt_labels m) | _ \<Rightarrow> True)"
    "distinct (map mt_name (ms0 @ ms))"
  shows "all_registrable ms0 ms"
  using assms by (induction ms arbitrary: ms0) (auto simp: registrable_def)

lemma declared_names: "map (\<lambda>m. (mt_name m, mt_labels m)) (declarations bs) = map (\<lambda>m. (mt_name m, mt_labels m)) (declarations [])"
  by (simp add: declarations_def metric_of_def)

lemma declarations_registrable:
  assumes "increasing bs"
  shows "all_registrable [] (declarations bs)"
proof (rule all_registrable_if)
  have "list_all (\<lambda>(n, ls). well_named n ls) (map (\<lambda>m. (mt_name m, mt_labels m)) (declarations []))" by code_simp
  then have "\<forall>m\<in>set (declarations bs). well_named (mt_name m) (mt_labels m)"
    unfolding declared_names [of bs, symmetric] by (auto simp: list_all_iff)
  moreover have "\<forall>m\<in>set (declarations bs). case mt_kind m of Histogram bs \<Rightarrow> increasing bs \<and> ''le'' \<notin> set (mt_labels m) | _ \<Rightarrow> True"
    using assms by (simp add: declarations_def metric_of_def)
  ultimately show "\<forall>m\<in>set (declarations bs). well_named (mt_name m) (mt_labels m) \<and>
      (case mt_kind m of Histogram bs \<Rightarrow> increasing bs \<and> ''le'' \<notin> set (mt_labels m) | _ \<Rightarrow> True)" by blast
  have "distinct (map fst (map (\<lambda>m. (mt_name m, mt_labels m)) (declarations [])))" by code_simp
  then show "distinct (map mt_name ([] @ declarations bs))"
    unfolding declared_names [of bs, symmetric] by (simp add: comp_def)
qed

text \<open>An update fits when its variable is declared, with as many labels and a kind that permits it.\<close>

definition sample_fits :: "sample \<Rightarrow> bool" where
  "sample_fits x \<longleftrightarrow>
     (case x of (var, lvs, u) \<Rightarrow>
        (case find (\<lambda>m. mt_var m = var) (declarations []) of
           None \<Rightarrow> False
         | Some m \<Rightarrow> length lvs = length (mt_labels m) \<and> permitted (mt_kind m) u))"

definition kind_class :: "metric_kind \<Rightarrow> nat" where "kind_class k = (case k of Gauge \<Rightarrow> 0 | Counter \<Rightarrow> 1 | Histogram bs \<Rightarrow> 2)"

lemma permitted_class: "kind_class k = kind_class k' \<Longrightarrow> permitted k u = permitted k' u"
  by (cases k; cases k'; cases u) (simp_all add: kind_class_def)

lemma declared_shapes:
  "map (\<lambda>m. (mt_name m, mt_labels m, kind_class (mt_kind m))) (declarations bs) =
   map (\<lambda>m. (mt_name m, mt_labels m, kind_class (mt_kind m))) (declarations [])"
  by (simp add: declarations_def metric_of_def kind_class_def)

lemma map_of_find: "map_of (map (\<lambda>m. (f m, g m)) ms) v = map_option g (find (\<lambda>m. f m = v) ms)"
  by (induction ms) auto

lemma find_in_set: "find P xs = Some x \<Longrightarrow> x \<in> set xs"
  by (induction xs) (auto split: if_splits)

lemma sample_fits_declared:
  assumes "sample_fits (var, lvs, u)" "list_all ValidString lvs"
  shows "\<exists>name. variable_name var = Some name \<and> update_fits (declarations bs) name lvs u"
proof -
  obtain m where m: "find (\<lambda>m. mt_var m = var) (declarations []) = Some m" "length lvs = length (mt_labels m)" "permitted (mt_kind m) u"
    using assms(1) by (auto simp: sample_fits_def split: option.splits)
  from find_in_set [OF m(1)] have "m \<in> set (declarations [])" .
  then have "(mt_name m, mt_labels m, kind_class (mt_kind m)) \<in> set (map (\<lambda>m. (mt_name m, mt_labels m, kind_class (mt_kind m))) (declarations bs))"
    unfolding declared_shapes [of bs] by auto
  then obtain m' where "m' \<in> set (declarations bs)" "mt_name m' = mt_name m" "mt_labels m' = mt_labels m" "kind_class (mt_kind m') = kind_class (mt_kind m)"
    by auto
  with m permitted_class [of "mt_kind m'" "mt_kind m" u] have "update_fits (declarations bs) (mt_name m) lvs u"
    using assms(2) by (auto simp: update_fits_def)
  with m(1) show ?thesis by (simp add: variable_name_def map_of_find)
qed

lemmas samples_defs = HandleWS_samples_def dialBackend_samples_def Run_samples_def handleMessage_samples_def pump_samples_def
  trackSession_samples_def untrackSession_samples_def CheckMessage_samples_def Handler_samples_def Authenticate_samples_def
  Create_samples_def Validate_samples_def Revoke_samples_def Rotate_samples_def Check_samples_def Increment_samples_def

text \<open>The functions of the code that update metrics, with what their updates depend on.\<close>

datatype ('l, 'q, 'u, 'p, 's) code_point =
    At_HandleWS "(auth_error option, Principal option) result"
  | At_dial rat "(string, nat) result"
  | At_Run frame_type "any option"
  | At_handle resolver "'q Quota.Store" Config "('l, 'p) msg_env" "any option" "('l, 'q, 'u) services" "'p session"
  | At_pump "(string, frame_type) result" bool
  | At_track "'p session"
  | At_untrack string "(string, 'p session) gomap"
  | At_CheckMessage rat string "'l HierarchicalLimiter option" Result "limit_error option"
  | At_Handler Key "limit_error option"
  | At_Authenticate string "(key_error, APIKey) result"
  | At_Create CreateKeyRequest "(key_error, CreateKeyResult) result"
  | At_Validate time APIKey
  | At_Revoke APIKey "(key_error, unit) result"
  | At_Rotate APIKey "(key_error, CreateKeyResult) result"
  | At_Check string string "quota_error option"
  | At_Increment string string "(quota_error, int) result"
  | At_flush "'s Store" flush_env rat "'s DefaultTracker"

fun samples_at :: "('l, 'q, 'u, 'p, 's) code_point \<Rightarrow> sample list" where
  "samples_at (At_HandleWS r) = HandleWS_samples r"
| "samples_at (At_dial seconds r) = dialBackend_samples seconds r"
| "samples_at (At_Run msgType json) = Run_samples msgType json"
| "samples_at (At_handle resolve qops cfg env json g s) = handleMessage_samples resolve qops cfg env json g s"
| "samples_at (At_pump r written) = pump_samples r written"
| "samples_at (At_track s) = trackSession_samples s"
| "samples_at (At_untrack i sessions) = untrackSession_samples i sessions"
| "samples_at (At_CheckMessage seconds tenant a result er) = CheckMessage_samples seconds tenant a result er"
| "samples_at (At_Handler key er) = Handler_samples key er"
| "samples_at (At_Authenticate key r) = Authenticate_samples key r"
| "samples_at (At_Create req r) = Create_samples req r"
| "samples_at (At_Validate now key) = Validate_samples now key"
| "samples_at (At_Revoke key r) = Revoke_samples key r"
| "samples_at (At_Rotate key r) = Rotate_samples key r"
| "samples_at (At_Check tenantID quotaType er) = Check_samples tenantID quotaType er"
| "samples_at (At_Increment tenantID quotaType r) = Increment_samples tenantID quotaType r"
| "samples_at (At_flush ops env seconds t) = flush_samples ops env seconds t"

text \<open>The variables the code updates, with the number of labels and the kind.\<close>

definition shape_of :: "string \<Rightarrow> (nat \<times> nat) option" where
  "shape_of var = map_option (\<lambda>m. (length (mt_labels m), kind_class (mt_kind m))) (find (\<lambda>m. mt_var m = var) (declarations []))"

lemma shapes [simp]:
  "shape_of ''SessionsActive'' = Some (0, 0)"
  "shape_of ''SessionsActiveByTenant'' = Some (1, 0)"
  "shape_of ''MessagesTotal'' = Some (2, 1)"
  "shape_of ''ErrorsTotal'' = Some (1, 1)"
  "shape_of ''BackendDialDuration'' = Some (0, 2)"
  "shape_of ''RateLimitedTotal'' = Some (2, 1)"
  "shape_of ''RateLimitTokensRemaining'' = Some (2, 0)"
  "shape_of ''RateLimitCheckDuration'' = Some (0, 2)"
  "shape_of ''QuotaUsageGauge'' = Some (2, 0)"
  "shape_of ''QuotaExceededTotal'' = Some (2, 1)"
  "shape_of ''APIKeysCreatedTotal'' = Some (1, 1)"
  "shape_of ''APIKeysRevokedTotal'' = Some (1, 1)"
  "shape_of ''APIKeysRotatedTotal'' = Some (1, 1)"
  "shape_of ''APIKeyAuthTotal'' = Some (2, 1)"
  "shape_of ''APIKeyAuthFailedTotal'' = Some (2, 1)"
  "shape_of ''UsageEventsStoredTotal'' = Some (0, 1)"
  "shape_of ''UsageEventsFailedTotal'' = Some (0, 1)"
  "shape_of ''UsageEventsRetriedTotal'' = Some (0, 1)"
  "shape_of ''UsageEventsDLQTotal'' = Some (0, 1)"
  "shape_of ''UsageFlushDuration'' = Some (0, 2)"
  by code_simp+

lemma sample_fits_shape [simp]:
  "sample_fits (var, lvs, u) \<longleftrightarrow>
     (case shape_of var of
        None \<Rightarrow> False
      | Some (n, k) \<Rightarrow> length lvs = n \<and> permitted (if k = 0 then Gauge else if k = 1 then Counter else Histogram []) u)"
proof -
  have "permitted k u \<longleftrightarrow> permitted (if kind_class k = 0 then Gauge else if kind_class k = 1 then Counter else Histogram []) u" for k
    by (rule permitted_class) (cases k; simp add: kind_class_def)
  note e = this
  show ?thesis
  proof (cases "find (\<lambda>m. mt_var m = var) (declarations [])")
    case (Some m)
    then show ?thesis using e [of "mt_kind m"] by (auto simp: sample_fits_def shape_of_def)
  qed (simp add: sample_fits_def shape_of_def)
qed

lemma retry_samples_fit: "list_all sample_fits (retry_samples ops events attempts s)"
  by (induction attempts arbitrary: s) (auto split: prod.split sum.split)

lemma flush_samples_fit: "list_all sample_fits (flush_samples ops env seconds t)"
  using retry_samples_fit
  by (auto simp: flush_samples_def flush_store_samples_def storeWithRetry_samples_def sendToDLQ_samples_def Let_def split: result_splits)

lemma samples_fit: "list_all sample_fits (samples_at p)"
proof (cases p)
  case (At_flush ops env seconds t)
  then show ?thesis by (simp add: flush_samples_fit)
next
  case (At_handle resolve qops cfg env json g s)
  then show ?thesis by (simp add: handleMessage_samples_def split: sum.split option.split prod.split)
next
  case (At_untrack i sessions)
  then show ?thesis by (simp add: untrackSession_samples_def split: option.split)
next
  case (At_CheckMessage seconds tenant a result er)
  then show ?thesis by (simp add: CheckMessage_samples_def split: option.split)
qed (simp_all add: samples_defs split: sum.split)

text \<open>The texts that come from outside: tenants, users and types of quota. The other values of labels are constants.\<close>

fun texts_at :: "('l, 'q, 'u, 'p, 's) code_point \<Rightarrow> string set" where
  "texts_at (At_handle resolve qops cfg env json g s) = {ss_tenantID s, session_user s}"
| "texts_at (At_track s) = {ss_tenantID s}"
| "texts_at (At_untrack i sessions) = ss_tenantID ` set_option (mget sessions i)"
| "texts_at (At_CheckMessage seconds tenant a result er) = {tenant}"
| "texts_at (At_Handler key er) = {k_Tenant key, k_User key}"
| "texts_at (At_Authenticate key r) = (case r of Inl er \<Rightarrow> {} | Inr apiKey \<Rightarrow> {ak_TenantID apiKey})"
| "texts_at (At_Create req r) = {cr_TenantID req}"
| "texts_at (At_Validate now key) = {ak_TenantID key}"
| "texts_at (At_Revoke key r) = {ak_TenantID key}"
| "texts_at (At_Rotate key r) = {ak_TenantID key}"
| "texts_at (At_Check tenantID quotaType er) = {tenantID, quotaType}"
| "texts_at (At_Increment tenantID quotaType r) = {tenantID, quotaType}"
| "texts_at p = {}"

lemma retry_samples_labels: "list_all (\<lambda>x. fst (snd x) = []) (retry_samples ops events attempts s)"
  by (induction attempts arbitrary: s) (auto split: prod.split sum.split)

lemma flush_samples_labels: "list_all (\<lambda>x. fst (snd x) = []) (flush_samples ops env seconds t)"
  using retry_samples_labels
  by (auto simp: flush_samples_def flush_store_samples_def storeWithRetry_samples_def sendToDLQ_samples_def Let_def split: result_splits)

lemma label_texts:
  assumes "x \<in> set (samples_at p)" "lv \<in> set (fst (snd x))"
  shows "lv \<in> texts_at p \<or> lv \<in> {''auth'', ''backend_dial'', ''in'', ''out'', ''text'', ''binary'', ''route'', ''ratelimit'',
    ''quota'', ''backend_io'', ''tenant'', ''unknown'', ''failure'', ''success'', ''revoked'', ''expired''}"
  using assms
proof (cases p)
  case (At_flush ops env seconds t)
  with assms flush_samples_labels [of ops env seconds t] show ?thesis by (auto simp: list_all_iff)
next
  case (At_handle resolve qops cfg env json g s)
  with assms show ?thesis by (auto simp: handleMessage_samples_def split: sum.splits option.splits prod.splits if_splits)
qed (auto simp: samples_defs extractTenantFromKey_def frame_type_text_def split: sum.splits option.splits if_splits)

lemma constant_labels:
  "list_all ValidString [''auth'', ''backend_dial'', ''in'', ''out'', ''text'', ''binary'', ''route'', ''ratelimit'',
    ''quota'', ''backend_io'', ''tenant'', ''unknown'', ''failure'', ''success'', ''revoked'', ''expired'']"
proof -
  have "list_all (list_all (\<lambda>c. of_char c < (0x80 :: nat))) [''auth'', ''backend_dial'', ''in'', ''out'', ''text'', ''binary'',
    ''route'', ''ratelimit'', ''quota'', ''backend_io'', ''tenant'', ''unknown'', ''failure'', ''success'', ''revoked'', ''expired'']"
    by code_simp
  then show ?thesis using ValidString_ascii by (simp add: list_all_iff)
qed

lemma labels_valid:
  assumes "\<forall>t\<in>texts_at p. ValidString t" "x \<in> set (samples_at p)"
  shows "list_all ValidString (fst (snd x))"
  using label_texts [OF assms(2)] assms(1) constant_labels unfolding list_all_iff by fastforce

text \<open>C29. Metrics never get in the way: with a client library that behaves as documented, the declarations of the gateway are all
  accepted at the start of the process, and after that no update its code makes panics, in any number and order and whatever
  the errors and results are, if the tenants, users and types of quota the code is given are Unicode texts.\<close>

theorem metrics_never_panic:
  fixes points :: "('l, 'q, 'u, 'p, 's) code_point list"
  assumes "prometheus pr" "pr_registered pr r0 = []" "increasing defBuckets" "\<forall>p\<in>set points. \<forall>t\<in>texts_at p. ValidString t"
  shows "\<exists>r. register_all pr (declarations defBuckets) r0 = Some r \<and>
    (\<exists>r'. update_all pr (concat (map samples_at points)) r = Some r')"
proof -
  obtain r where r: "register_all pr (declarations defBuckets) r0 = Some r" "pr_registered pr r = declarations defBuckets"
    using prometheus.register_all_Some [OF assms(1), of r0 "declarations defBuckets"] declarations_registrable [OF assms(3)] assms(2) by auto
  have "\<forall>(var, lvs, u)\<in>set (concat (map samples_at points)).
      \<exists>name. variable_name var = Some name \<and> update_fits (pr_registered pr r) name lvs u"
  proof (clarify)
    fix var lvs u
    assume "(var, lvs, u) \<in> set (concat (map samples_at points))"
    then obtain p where p: "p \<in> set points" "(var, lvs, u) \<in> set (samples_at p)" by auto
    with samples_fit [of p] have "sample_fits (var, lvs, u)" unfolding list_all_iff by blast
    moreover have "list_all ValidString lvs" using labels_valid [OF _ p(2)] assms(4) p(1) by simp
    ultimately show "\<exists>name. variable_name var = Some name \<and> update_fits (pr_registered pr r) name lvs u"
      unfolding r(2) by (rule sample_fits_declared)
  qed
  from prometheus.update_all_Some [OF assms(1) this] r(1) show ?thesis by blast
qed


text \<open>A registry that refuses everything the library documents to refuse, and keeps what it was told.\<close>

definition strict_registry :: "(metric list \<times> (string \<times> string list \<times> update) list) prom" where
  "strict_registry = \<lparr>
     pr_register = (\<lambda>m (ms, log). if registrable ms m then Some (ms @ [m], log) else None),
     pr_update = (\<lambda>name lvs u (ms, log). if update_fits ms name lvs u then Some (ms, log @ [(name, lvs, u)]) else None),
     pr_registered = fst\<rparr>"

interpretation strict: prometheus strict_registry
  by unfold_locales (auto simp: strict_registry_def)

theorem metrics_never_panic_witness:
  "\<exists>r. register_all strict_registry (declarations [1/100, 1]) ([], []) = Some r \<and>
     (\<exists>r'. update_all strict_registry [(''RateLimitedTotal'', [''caf'' @ [CHR 0xC3, CHR 0xA9], ''u''], Inc)] r = Some r')"
proof -
  let ?key = "empty_Key\<lparr>k_Tenant := ''caf'' @ [CHR 0xC3, CHR 0xA9], k_User := ''u''\<rparr>"
  have "ValidString (''caf'' @ [CHR 0xC3, CHR 0xA9])" "ValidString ''u''" by code_simp+
  with metrics_never_panic [OF strict.prometheus_axioms, of "([], [])" "[1/100, 1]"
      "[At_Handler ?key (Some ErrRateLimited) :: (unit, unit, unit, unit, unit) code_point]"]
  show ?thesis by (simp add: strict_registry_def Handler_samples_def)
qed

text \<open>The middleware takes the tenant and the user of a request from its headers, which may be any bytes: a client that is over
  its limit makes it panic after the answer was written.\<close>

lemma header_bytes_panic:
  "Option.bind (register_all strict_registry (declarations [1/100, 1]) ([], []))
     (update_all strict_registry (Handler_samples (empty_Key\<lparr>k_Tenant := [CHR 0xFF]\<rparr>) (Some ErrRateLimited))) = None"
proof -
  have "\<not> ValidString [CHR 0xFF]" by code_simp
  then have "update_all strict_registry (Handler_samples (empty_Key\<lparr>k_Tenant := [CHR 0xFF]\<rparr>) (Some ErrRateLimited)) r = None" for r
    by (cases r) (simp add: Handler_samples_def strict_registry_def update_fits_def split: option.split)
  then show ?thesis by (simp split: bind_split)
qed

text \<open>What the declaration promises and no function does: warnings about soft limits are counted nowhere.\<close>

lemma retry_not_warnings: "list_all (\<lambda>x. fst x \<noteq> ''QuotaWarningTotal'') (retry_samples ops es attempts s)"
  by (induction attempts arbitrary: s) (auto split: prod.split sum.split)

lemma flush_not_warnings: "list_all (\<lambda>x. fst x \<noteq> ''QuotaWarningTotal'') (flush_samples ops env seconds t)"
  using retry_not_warnings
  by (auto simp: flush_samples_def flush_store_samples_def storeWithRetry_samples_def sendToDLQ_samples_def Let_def split: result_splits)

lemma warnings_not_counted: "list_all (\<lambda>x. fst x \<noteq> ''QuotaWarningTotal'') (samples_at p)"
proof (cases p)
  case (At_flush ops env seconds t)
  then show ?thesis by (simp add: flush_not_warnings)
next
  case (At_handle resolve qops cfg env json g s)
  then show ?thesis by (simp add: handleMessage_samples_def split: sum.split option.split prod.split)
qed (simp_all add: samples_defs split: sum.split option.split)

end
