(* ===== verification/Metrics_Counts.thy ===== *)
theory Metrics_Counts
  imports Metrics
begin

text \<open>
  What the metrics of \<open>Metrics\<close> say about the gateway: a gauge or counter reads the sum of the updates made to it.

  Shown here: as long as session identifiers are fresh, the session gauges are the numbers of open sessions, altogether and per
  tenant; and in every interleaving of tracking and flushes the usage counters are the events stored, the entries of the
  dead-letter file and the attempts that failed. Counts below \<open>2 ^ 53\<close> are exact in the floating point numbers the library keeps.
\<close>

section \<open>Readings\<close>

fun delta :: "update \<Rightarrow> int" where
  "delta Inc = 1"
| "delta Dec = - 1"
| "delta (Add n) = n"
| "delta u = 0"

definition reading :: "string \<Rightarrow> string list \<Rightarrow> sample list \<Rightarrow> int" where
  "reading var lvs samples = sum_list (map (\<lambda>(v, ls, u). if v = var \<and> ls = lvs then delta u else 0) samples)"

lemma reading_simps [simp]:
  "reading var lvs [] = 0"
  "reading var lvs ((v, ls, u) # xs) = (if v = var \<and> ls = lvs then delta u else 0) + reading var lvs xs"
  "reading var lvs (xs @ ys) = reading var lvs xs + reading var lvs ys"
  by (simp_all add: reading_def)


section \<open>Sessions\<close>

text \<open>A session is tracked when it is accepted and untracked, by its identifier, when it has ended.\<close>

datatype 'p session_event = Opened "'p session" | Ended string

fun session_step :: "'p session_event \<Rightarrow> (string, 'p session) gomap \<Rightarrow> (string, 'p session) gomap \<times> sample list" where
  "session_step (Opened s) sessions = (trackSession s sessions, trackSession_samples s)"
| "session_step (Ended i) sessions = (untrackSession i sessions, untrackSession_samples i sessions)"

fun session_run :: "'p session_event list \<Rightarrow> (string, 'p session) gomap \<Rightarrow> (string, 'p session) gomap \<times> sample list" where
  "session_run [] sessions = (sessions, [])"
| "session_run (e # es) sessions =
     (case session_step e sessions of
        (sessions1, xs) \<Rightarrow> (case session_run es sessions1 of (sessions2, ys) \<Rightarrow> (sessions2, xs @ ys)))"

text \<open>Identifiers are fresh when a session is tracked, and only tracked sessions end.\<close>

fun orderly :: "'p session_event list \<Rightarrow> (string, 'p session) gomap \<Rightarrow> bool" where
  "orderly [] sessions \<longleftrightarrow> True"
| "orderly (Opened s # es) sessions \<longleftrightarrow> mget sessions (ss_id s) = None \<and> orderly es (trackSession s sessions)"
| "orderly (Ended i # es) sessions \<longleftrightarrow> mget sessions i \<noteq> None \<and> orderly es (untrackSession i sessions)"

definition of_tenant :: "string \<Rightarrow> (string, 'p session) gomap \<Rightarrow> nat" where
  "of_tenant tn = mcount (\<lambda>s. ss_tenantID s = tn)"

lemma mcount_delete:
  "mwf m \<Longrightarrow> mget m k = Some v \<Longrightarrow> mcount P m = mcount P (mdel k m) + (if P v then 1 else 0)"
proof (induction m)
  case (Cons x m)
  have "mdel k m = m" if "fst x = k" using Cons.prems(1) that by (auto simp: delete_notin_dom)
  with Cons show ?case by (cases x) (auto simp: mcount_def split: if_splits)
qed simp

lemma session_step_gauges:
  assumes "mwf sessions" "session_step e sessions = (sessions', xs)" "orderly (e # es) sessions"
  shows "mwf sessions' \<and> orderly es sessions' \<and>
    reading ''SessionsActive'' [] xs = int (length sessions') - int (length sessions) \<and>
    (tn \<noteq> [] \<longrightarrow> reading ''SessionsActiveByTenant'' [tn] xs = int (of_tenant tn sessions') - int (of_tenant tn sessions))"
proof -
  have all: "length m = mcount (\<lambda>_. True) m" for m :: "(string, 'p session) gomap" by (simp add: mcount_def)
  show ?thesis
  proof (cases e)
    case (Opened s)
    with assms show ?thesis
      by (auto simp: trackSession_def trackSession_samples_def of_tenant_def all mcount_fresh)
  next
    case (Ended i)
    with assms obtain s where s: "mget sessions i = Some s" by auto
    from mcount_delete [OF assms(1) s] Ended assms s show ?thesis
      by (auto simp: untrackSession_def untrackSession_samples_def of_tenant_def all)
  qed
qed

text \<open>C10. The session gauges tell the truth: if every session is given a fresh identifier, then after any sequence of sessions that
  open and end the gauge of active sessions is the number of sessions the gateway holds, and the gauge of each tenant the
  number of sessions of that tenant.\<close>

theorem session_gauges_exact:
  assumes "orderly es []" "session_run es [] = (sessions, samples)"
  shows "reading ''SessionsActive'' [] samples = int (length sessions) \<and>
    (tn \<noteq> [] \<longrightarrow> reading ''SessionsActiveByTenant'' [tn] samples = int (of_tenant tn sessions))"
proof -
  have "mwf start \<Longrightarrow> orderly es start \<Longrightarrow> session_run es start = (sessions, samples) \<Longrightarrow>
      reading ''SessionsActive'' [] samples = int (length sessions) - int (length start) \<and>
      (tn \<noteq> [] \<longrightarrow> reading ''SessionsActiveByTenant'' [tn] samples = int (of_tenant tn sessions) - int (of_tenant tn start))" for start
  proof (induction es arbitrary: start sessions samples)
    case (Cons e es)
    obtain s1 xs s2 ys where st: "session_step e start = (s1, xs)" "session_run es s1 = (s2, ys)" by (metis prod.exhaust)
    with Cons.prems(3) have "sessions = s2" "samples = xs @ ys" by auto
    with session_step_gauges [OF Cons.prems(1) st(1) Cons.prems(2), of tn] Cons.IH [of s1 s2 ys] st(2) show ?case by auto
  qed simp
  from this [of "[]"] assms show ?thesis by (simp add: of_tenant_def mcount_def)
qed


definition tenant_session :: "string \<Rightarrow> string \<Rightarrow> nat session" where
  "tenant_session i tn = demo_session\<lparr>ss_id := i, ss_tenantID := tn\<rparr>"

definition three_sessions :: "nat session_event list" where
  "three_sessions = [Opened (tenant_session ''sess-1'' ''acme''), Opened (tenant_session ''sess-2'' ''beta''),
     Opened (tenant_session ''sess-3'' ''acme''), Ended ''sess-1'']"

theorem session_gauges_exact_witness:
  "reading ''SessionsActive'' [] (snd (session_run three_sessions [])) = 2 \<and>
   reading ''SessionsActiveByTenant'' [''acme''] (snd (session_run three_sessions [])) = 1"
proof -
  have o: "orderly three_sessions []" by code_simp
  obtain sessions xs where r: "session_run three_sessions [] = (sessions, xs)" by (cases "session_run three_sessions []")
  have "length (fst (session_run three_sessions [])) = 2" "of_tenant ''acme'' (fst (session_run three_sessions [])) = 1" by code_simp+
  with session_gauges_exact [OF o r, of "''acme''"] r show ?thesis by simp
qed

text \<open>Identifiers are made from the clock. When two sessions of different tenants get the same one, the gateway keeps one of
  them, and after both have ended the gauges count a session for one tenant.\<close>

lemma session_id_collision:
  defines "run \<equiv> session_run [Opened (tenant_session ''sess-1'' ''acme''), Opened (tenant_session ''sess-1'' ''beta''), Ended ''sess-1'', Ended ''sess-1''] []"
  shows "fst run = []" "reading ''SessionsActive'' [] (snd run) = 0" "reading ''SessionsActiveByTenant'' [''acme''] (snd run) = 1"
  unfolding run_def by code_simp+


section \<open>Usage events\<close>

text \<open>The updates made so far, along an interleaving of tracking and flushes: a flush that finishes makes those of its batch. Every
  other step leaves as many batches under way as there were, or more.\<close>

inductive counted_reach :: "'s Store \<Rightarrow> flush_env set \<Rightarrow> 's DefaultTracker \<Rightarrow> 's sys \<Rightarrow> sample list \<Rightarrow> bool" for ops envs t0 where
  start: "counted_reach ops envs t0 \<lparr>sy_tracker = t0, sy_inflight = [], sy_tracked = [], sy_lost = []\<rparr> []"
| finish: "counted_reach ops envs t0 y samples \<Longrightarrow> env \<in> envs \<Longrightarrow> sy_inflight y = xs @ es # ys \<Longrightarrow>
    counted_reach ops envs t0
      (y\<lparr>sy_tracker := flush_store ops env es (sy_tracker y), sy_inflight := xs @ ys, sy_lost := sy_lost y @ unsaved ops env es (sy_tracker y)\<rparr>)
      (samples @ flush_store_samples ops env es (sy_tracker y))"
| other: "counted_reach ops envs t0 y samples \<Longrightarrow> sys_step ops envs y y' \<Longrightarrow> length (sy_inflight y) \<le> length (sy_inflight y') \<Longrightarrow>
    counted_reach ops envs t0 y' samples"

lemma counted_reach_sys: "counted_reach ops envs t0 y samples \<Longrightarrow> sys_reach ops envs t0 y"
  by (induction rule: counted_reach.induct) (auto intro: sys_reach.intros sys_step.intros)

abbreviation stored_total :: "sample list \<Rightarrow> int" where "stored_total \<equiv> reading ''UsageEventsStoredTotal'' []"
abbreviation failed_total :: "sample list \<Rightarrow> int" where "failed_total \<equiv> reading ''UsageEventsFailedTotal'' []"
abbreviation retried_total :: "sample list \<Rightarrow> int" where "retried_total \<equiv> reading ''UsageEventsRetriedTotal'' []"
abbreviation dlq_total :: "sample list \<Rightarrow> int" where "dlq_total \<equiv> reading ''UsageEventsDLQTotal'' []"

lemma retry_readings:
  "retry_loop ops es d le as s = (r, s', w) \<Longrightarrow> as \<noteq> [] \<or> le \<noteq> None \<Longrightarrow>
   stored_total (retry_samples ops es as s) = (if r = None then int (length es) else 0) \<and>
   dlq_total (retry_samples ops es as s) = 0"
proof (induction as arbitrary: d le s r s' w)
  case (Cons a as)
  obtain q s1 where st: "us_Store ops es s = (q, s1)" by (cases "us_Store ops es s")
  show ?case
  proof (cases q)
    case (Inr u)
    with st Cons.prems show ?thesis by (auto simp: Let_def split: if_splits)
  next
    case (Inl er)
    let ?d = "if a > 0 then wrap64 (d * 2) else d"
    obtain r2 s2 w2 where rest: "retry_loop ops es ?d (Some er) as s1 = (r2, s2, w2)" by (metis prod_cases3)
    with st Inl Cons.prems have "r = r2" by (auto simp: Let_def split: if_splits)
    with Cons.IH [OF rest] st Inl show ?thesis by simp
  qed
qed auto

text \<open>Each attempt but the first is a retry, and each attempt but one that succeeds fails.\<close>

lemma later_attempts:
  "retry_loop ops es d le as s = (r, s', w) \<Longrightarrow> as \<noteq> [] \<or> le \<noteq> None \<Longrightarrow> list_all (\<lambda>a. 0 < a) as \<Longrightarrow>
   failed_total (retry_samples ops es as s) + (if r = None then int (length es) else 0) = retried_total (retry_samples ops es as s)"
proof (induction as arbitrary: d le s r s' w)
  case (Cons a as)
  obtain q s1 where st: "us_Store ops es s = (q, s1)" by (cases "us_Store ops es s")
  show ?case
  proof (cases q)
    case (Inr u)
    with st Cons.prems show ?thesis by (auto simp: Let_def split: if_splits)
  next
    case (Inl er)
    let ?d = "if a > 0 then wrap64 (d * 2) else d"
    obtain r2 s2 w2 where rest: "retry_loop ops es ?d (Some er) as s1 = (r2, s2, w2)" by (metis prod_cases3)
    with st Inl Cons.prems have "r = r2" by (auto simp: Let_def split: if_splits)
    with Cons.IH [OF rest] Cons.prems(3) st Inl show ?thesis by simp
  qed
qed auto

lemma all_attempts:
  assumes "retry_loop ops es d le (0 # as) s = (r, s', w)" "list_all (\<lambda>a. 0 < a) as"
  shows "failed_total (retry_samples ops es (0 # as) s) = retried_total (retry_samples ops es (0 # as) s) + (if r = None then 0 else int (length es))"
proof -
  obtain q s1 where st: "us_Store ops es s = (q, s1)" by (cases "us_Store ops es s")
  show ?thesis
  proof (cases q)
    case (Inr u)
    with st assms(1) show ?thesis by auto
  next
    case (Inl er)
    obtain r2 s2 w2 where rest: "retry_loop ops es d (Some er) as s1 = (r2, s2, w2)" by (metis prod_cases3)
    with st Inl assms(1) have "r = r2" by auto
    with later_attempts [OF rest _ assms(2)] st Inl show ?thesis by auto
  qed
qed

lemma storeWithRetry_readings:
  assumes "storeWithRetry ops cfg es s = (r, s', w)" "0 \<le> uc_MaxRetries cfg"
  shows "stored_total (storeWithRetry_samples ops cfg es s) = (if r = None then int (length es) else 0)"
    "dlq_total (storeWithRetry_samples ops cfg es s) = 0"
    "failed_total (storeWithRetry_samples ops cfg es s) =
       retried_total (storeWithRetry_samples ops cfg es s) + (if r = None then 0 else int (length es))"
proof -
  let ?n = "nat ((if uc_MaxRetries cfg = 0 then 3 else uc_MaxRetries cfg) + 1)"
  have "0 < ?n" using assms(2) by auto
  then have n: "[0..<?n] = 0 # [Suc 0..<?n]" by (rule upt_conv_Cons)
  have pos: "list_all (\<lambda>a. 0 < a) [Suc 0..<?n]" by (auto simp: list_all_iff)
  obtain d where loop: "retry_loop ops es d None [0..<?n] s = (r, s', w)" using assms(1) by (auto simp: storeWithRetry_def Let_def)
  from retry_readings [OF loop] all_attempts [OF loop [unfolded n] pos]
  show "stored_total (storeWithRetry_samples ops cfg es s) = (if r = None then int (length es) else 0)"
    "dlq_total (storeWithRetry_samples ops cfg es s) = 0"
    "failed_total (storeWithRetry_samples ops cfg es s) =
       retried_total (storeWithRetry_samples ops cfg es s) + (if r = None then 0 else int (length es))"
    by (simp_all only: storeWithRetry_samples_def Let_def n) simp_all
qed

text \<open>A flush: what it stores, what it appends to the file and what it abandons.\<close>

lemma dlq_readings:
  "dlq_total (sendToDLQ_samples env es t) = int (length (dt_dlq (sendToDLQ env es t))) - int (length (dt_dlq t))"
  "stored_total (sendToDLQ_samples env es t) = 0" "failed_total (sendToDLQ_samples env es t) = 0"
  "retried_total (sendToDLQ_samples env es t) = 0"
  by (auto simp: sendToDLQ_samples_def sendToDLQ_def Let_def split: option.splits)

lemma dlq_entries_length:
  "length (dlq_entries env es) +
   length (filter (\<lambda>e. fe_Encode env \<lparr>dl_event = e, dl_failed_at = fe_Now env, dl_reason = ''max_retries_exceeded''\<rparr> \<noteq> None) es) = length es"
  by (induction es) (auto simp: dlq_entries_def)

lemma flush_store_readings:
  fixes es :: "Event list" and env :: flush_env
  assumes "event_log ops contents" "dt_store t = Some s" "0 \<le> uc_MaxRetries (dt_cfg t)"
  defines "t' \<equiv> flush_store ops env es t" and "xs \<equiv> flush_store_samples ops env es t"
  shows "stored_total xs = int (size (at_store contents t')) - int (size (at_store contents t))"
    "dlq_total xs = int (length (dt_dlq t')) - int (length (dt_dlq t))"
    "failed_total xs = retried_total xs + dlq_total xs + int (length (unsaved ops env es t))"
proof -
  obtain r s' w where sr: "storeWithRetry ops (dt_cfg t) es s = (r, s', w)" by (metis prod_cases3)
  note c = event_log.storeWithRetry_contents [OF assms(1) sr assms(3)]
  note q = storeWithRetry_readings [OF sr assms(3)]
  let ?t = "t\<lparr>dt_store := Some s'\<rparr>"
  have t': "t' = (if r = None then ?t else sendToDLQ env es ?t)"
    using sr assms(2) by (simp add: t'_def flush_store_def)
  have xs: "xs = storeWithRetry_samples ops (dt_cfg t) es s @ (if r = None then [] else sendToDLQ_samples env es t)"
    using sr assms(2) by (simp add: xs_def flush_store_samples_def)
  have dlq: "sendToDLQ_samples env es t = sendToDLQ_samples env es ?t"
    by (auto simp: sendToDLQ_samples_def)
  show "stored_total xs = int (size (at_store contents t')) - int (size (at_store contents t))"
    using c q by (simp add: xs t' at_store_def assms(2) dlq_readings)
  show "dlq_total xs = int (length (dt_dlq t')) - int (length (dt_dlq t))"
    using q dlq_readings(1) [of env es ?t] by (simp add: xs t' dlq)
  show "failed_total xs = retried_total xs + dlq_total xs + int (length (unsaved ops env es t))"
  proof (cases "r = None")
    case False
    have "int (length es) = dlq_total (sendToDLQ_samples env es t) + int (length (unsaved ops env es t))"
      using dlq_entries_length [of env es] False sr assms(2)
      by (auto simp: sendToDLQ_samples_def unsaved_def Let_def)
    with q False show ?thesis by (auto simp: xs dlq_readings)
  qed (use q sr assms(2) in \<open>simp add: xs unsaved_def\<close>)
qed

definition counted_inv :: "('s \<Rightarrow> Event multiset) \<Rightarrow> 's DefaultTracker \<Rightarrow> 's sys \<Rightarrow> sample list \<Rightarrow> bool" where
  "counted_inv contents t0 y samples \<longleftrightarrow>
     dt_store (sy_tracker y) \<noteq> None \<and> 0 \<le> uc_MaxRetries (dt_cfg (sy_tracker y)) \<and>
     stored_total samples = int (size (at_store contents (sy_tracker y))) - int (size (at_store contents t0)) \<and>
     dlq_total samples = int (length (dt_dlq (sy_tracker y))) - int (length (dt_dlq t0)) \<and>
     failed_total samples = retried_total samples + dlq_total samples + int (length (sy_lost y))"

lemma sys_step_uncounted:
  assumes "sys_step ops envs y y'" "length (sy_inflight y) \<le> length (sy_inflight y')"
  shows "dt_store (sy_tracker y') = dt_store (sy_tracker y)" "dt_cfg (sy_tracker y') = dt_cfg (sy_tracker y)"
    "dt_dlq (sy_tracker y') = dt_dlq (sy_tracker y)" "sy_lost y' = sy_lost y"
  using assms by (cases; auto simp: flush_take_def Track_def triggerFlush_def Let_def split: if_splits)+

lemma counted_inv_reach:
  assumes "event_log ops contents" "dt_store t0 \<noteq> None" "0 \<le> uc_MaxRetries (dt_cfg t0)" "counted_reach ops envs t0 y samples"
  shows "counted_inv contents t0 y samples"
  using assms(4)
proof (induction rule: counted_reach.induct)
  case start
  show ?case using assms(2,3) by (simp add: counted_inv_def)
next
  case (finish y samples env xs es ys)
  then obtain s where s: "dt_store (sy_tracker y) = Some s" "0 \<le> uc_MaxRetries (dt_cfg (sy_tracker y))"
    by (auto simp: counted_inv_def)
  from finish(4) flush_store_readings [OF assms(1) s, of env es] show ?case
    by (simp add: counted_inv_def)
next
  case (other y samples y')
  from other(4) sys_step_uncounted [OF other(2,3)] show ?case by (simp add: counted_inv_def at_store_def)
qed

text \<open>C9. The usage counters are exact: in every interleaving of tracking and overlapping flushes, over any store that saves a
  batch entirely or not at all, the counter of stored events is the growth of the store, the counter of the dead-letter file
  is the growth of the file, and what the counter of failures has beyond the counter of retries is the events abandoned,
  those in the file and those the file refused.\<close>

theorem usage_counters_exact:
  assumes "event_log ops contents" "dt_store t0 \<noteq> None" "0 \<le> uc_MaxRetries (dt_cfg t0)" "counted_reach ops envs t0 y samples"
  shows "stored_total samples = int (size (at_store contents (sy_tracker y))) - int (size (at_store contents t0)) \<and>
    dlq_total samples = int (length (dt_dlq (sy_tracker y))) - int (length (dt_dlq t0)) \<and>
    failed_total samples - retried_total samples = dlq_total samples + int (length (sy_lost y))"
  using counted_inv_reach [OF assms] by (simp add: counted_inv_def)

text \<open>A store that refuses its first batch and takes the next: the event is stored by the retry and counted as failed all the same.\<close>

definition flaky_ops :: "(nat \<times> Event list) Store" where
  "flaky_ops = \<lparr>us_Store = (\<lambda>es (n, xs). if n = 0 then (Ok (), (0, xs @ es)) else (Err ''down'', (n - 1, xs))),
     us_Query = (\<lambda>p s. Ok []), us_GetSummary = (\<lambda>a b c d s. Err ''none''), us_DeleteOlderThan = (\<lambda>d s. (Ok 0, s))\<rparr>"

interpretation flaky: event_log flaky_ops "mset \<circ> snd"
  by unfold_locales (auto simp: flaky_ops_def split: if_splits)

definition flaky_tracker :: "(nat \<times> Event list) DefaultTracker" where
  "flaky_tracker = \<lparr>dt_store = Some (1, []), dt_cfg = demo_config, dt_enabled = True, dt_buffer = [], dt_flushChan = False,
     dt_done = False, dt_retryBuffer = [], dt_dlqFile = None, dt_dlq = []\<rparr>"

lemma flaky_config [simp]: "uc_MaxRetries demo_config = 3"
  by (simp add: demo_config_def LoadConfigFromEnv_def Usage_Store.envIntDefault_def envDefault_def)

lemma four_attempts: "[0..<4] = [0, 1, 2, 3 :: nat]" by code_simp

lemma flaky_samples:
  "dt_store t = Some (1, []) \<Longrightarrow> dt_cfg t = demo_config \<Longrightarrow> flush_store_samples flaky_ops env [e] t =
     [(''UsageEventsFailedTotal'', [], Add 1), (''UsageEventsRetriedTotal'', [], Add 1), (''UsageEventsStoredTotal'', [], Add 1)]"
  by (simp add: flush_store_samples_def storeWithRetry_samples_def storeWithRetry_def flaky_ops_def four_attempts)

lemma flaky_flush:
  "dt_store t = Some (1, []) \<Longrightarrow> dt_cfg t = demo_config \<Longrightarrow> flush_store flaky_ops env [e] t = t\<lparr>dt_store := Some (0, [e])\<rparr>"
  "dt_store t = Some (1, []) \<Longrightarrow> dt_cfg t = demo_config \<Longrightarrow> unsaved flaky_ops env [e] t = []"
  by (simp_all add: flush_store_def unsaved_def storeWithRetry_def flaky_ops_def four_attempts)

lemma flaky_reach:
  "\<exists>y. counted_reach flaky_ops {demo_flush_env} flaky_tracker y
     [(''UsageEventsFailedTotal'', [], Add 1), (''UsageEventsRetriedTotal'', [], Add 1), (''UsageEventsStoredTotal'', [], Add 1)] \<and>
   dt_dlq (sy_tracker y) = [] \<and> sy_lost y = [] \<and> (\<exists>e. dt_store (sy_tracker y) = Some (0, [e]))"
proof -
  let ?y0 = "\<lparr>sy_tracker = flaky_tracker, sy_inflight = [], sy_tracked = [], sy_lost = []\<rparr>"
  obtain e0 :: Event where True by blast
  let ?e = "stamp ''id'' 0 e0" let ?t1 = "Track ''id'' 0 e0 flaky_tracker"
  let ?y1 = "?y0\<lparr>sy_tracker := ?t1, sy_tracked := [?e]\<rparr>"
  have r0: "counted_reach flaky_ops {demo_flush_env} flaky_tracker ?y0 []" by (rule counted_reach.start)
  have "sys_step flaky_ops {demo_flush_env} ?y0 (?y0\<lparr>sy_tracker := Track ''id'' 0 e0 (sy_tracker ?y0), sy_tracked := sy_tracked ?y0 @ [?e]\<rparr>)"
    by (rule sys_step.track) (simp add: flaky_tracker_def)
  then have r1: "counted_reach flaky_ops {demo_flush_env} flaky_tracker ?y1 []" by (intro counted_reach.other [OF r0]) simp_all
  have t1: "dt_buffer ?t1 = [?e]" "dt_retryBuffer ?t1 = []" "dt_dlq ?t1 = []"
    by (simp_all add: Track_def triggerFlush_def flaky_tracker_def Let_def)
  then have "flush_take ?t1 = (Some [?e], ?t1\<lparr>dt_buffer := []\<rparr>)" by (simp add: flush_take_def)
  with t1(3) obtain t2 where t2: "flush_take ?t1 = (Some [?e], t2)" "dt_dlq t2 = []" by simp
  with take_keeps [OF t2(1)] have k: "dt_store t2 = Some (1, [])" "dt_cfg t2 = demo_config" by (auto simp: flaky_tracker_def)
  let ?y2 = "?y1\<lparr>sy_tracker := t2, sy_inflight := [[?e]]\<rparr>"
  have "sys_step flaky_ops {demo_flush_env} ?y1 (?y1\<lparr>sy_tracker := t2, sy_inflight := sy_inflight ?y1 @ [[?e]]\<rparr>)"
    by (rule sys_step.take) (simp add: t2)
  then have r2: "counted_reach flaky_ops {demo_flush_env} flaky_tracker ?y2 []" by (intro counted_reach.other [OF r1]) simp_all
  from counted_reach.finish [OF r2, of demo_flush_env "[]" "[?e]" "[]"]
  show ?thesis by (intro exI) (auto simp: flaky_samples [OF k] flaky_flush [OF k] t2(2))
qed

theorem usage_counters_exact_witness:
  "\<exists>y samples. counted_reach flaky_ops {demo_flush_env} flaky_tracker y samples \<and> failed_total samples = 1 \<and>
     stored_total samples = int (size (at_store (mset \<circ> snd) (sy_tracker y))) \<and> dlq_total samples = 0 \<and>
     failed_total samples - retried_total samples = 0"
proof -
  obtain y where y: "counted_reach flaky_ops {demo_flush_env} flaky_tracker y
     [(''UsageEventsFailedTotal'', [], Add 1), (''UsageEventsRetriedTotal'', [], Add 1), (''UsageEventsStoredTotal'', [], Add 1)]"
    "dt_dlq (sy_tracker y) = []" "sy_lost y = []" using flaky_reach by blast
  have "dt_store flaky_tracker \<noteq> None" "0 \<le> uc_MaxRetries (dt_cfg flaky_tracker)" by (simp_all add: flaky_tracker_def)
  from usage_counters_exact [OF flaky.event_log_axioms this y(1)] y
  show ?thesis by (intro exI [of _ y] exI conjI) (assumption | simp add: flaky_tracker_def at_store_def)+
qed

end
