(* ===== verification/Storage.thy ===== *)
theory Storage
  imports Go_Values
begin

text \<open>
  The package \<open>internal/storage\<close>: the configuration of the Postgres and Redis clients (\<open>postgres.go\<close>, \<open>redis.go\<close>),
  the connection string and the options built from it, and the transaction wrapper \<open>InTx\<close>. The database driver is
  not part of the repository: it is the record \<open>sql_db\<close>, whose operations take the text of a statement and its
  arguments; the stores of \<open>Apikeys_Postgres\<close>, \<open>Quota_Postgres\<close> and \<open>Usage_Postgres\<close> state what they rely on.
  The texts of statements are written with single spaces for every run of white space.

  Shown here: the pool settings are never negative and the timeouts always positive, whatever the environment holds;
  the connections of the stores ignore these settings;
  and the values of a connection string are not quoted.
\<close>

section \<open>Environment\<close>

definition envDefault :: "getenv \<Rightarrow> string \<Rightarrow> string \<Rightarrow> string" where
  "envDefault getenv key fallback = (let v = getenv key in if v \<noteq> [] then v else fallback)"

definition envIntDefault :: "getenv \<Rightarrow> string \<Rightarrow> int \<Rightarrow> int" where
  "envIntDefault getenv key fallback =
     (let v = TrimSpace (getenv key)
      in if v = [] then fallback
         else (case Atoi v of None \<Rightarrow> fallback | Some n \<Rightarrow> if n < 0 then fallback else n))"

definition envDurationDefault :: "getenv \<Rightarrow> string \<Rightarrow> duration \<Rightarrow> duration" where
  "envDurationDefault getenv key fallback =
     (let v = TrimSpace (getenv key)
      in if v = [] then fallback
         else (case ParseDuration v of None \<Rightarrow> fallback | Some d \<Rightarrow> if d \<le> 0 then fallback else d))"

definition env_prefix :: "string \<Rightarrow> string" where
  "env_prefix p = (if p \<noteq> [] \<and> \<not> HasSuffix p ''_'' then p @ ''_'' else p)"


section \<open>Postgres\<close>

record PostgresConfig =
  pg_URL :: string
  pg_Host :: string
  pg_Port :: int
  pg_User :: string
  pg_Password :: string
  pg_Database :: string
  pg_SSLMode :: string
  pg_MaxOpenConns :: int
  pg_MaxIdleConns :: int
  pg_ConnMaxLifetime :: duration
  pg_ConnMaxIdleTime :: duration

definition LoadPostgresConfigFromEnv :: "getenv \<Rightarrow> string \<Rightarrow> PostgresConfig" where
  "LoadPostgresConfigFromEnv getenv prefix0 =
     (let p = env_prefix prefix0
      in \<lparr>pg_URL = getenv (p @ ''POSTGRES_URL''),
          pg_Host = envDefault getenv (p @ ''POSTGRES_HOST'') ''localhost'',
          pg_Port = envIntDefault getenv (p @ ''POSTGRES_PORT'') 5432,
          pg_User = envDefault getenv (p @ ''POSTGRES_USER'') ''postgres'',
          pg_Password = getenv (p @ ''POSTGRES_PASSWORD''),
          pg_Database = envDefault getenv (p @ ''POSTGRES_DB'') ''fi_mcp_gateway'',
          pg_SSLMode = envDefault getenv (p @ ''POSTGRES_SSLMODE'') ''disable'',
          pg_MaxOpenConns = envIntDefault getenv (p @ ''POSTGRES_MAX_OPEN'') 25,
          pg_MaxIdleConns = envIntDefault getenv (p @ ''POSTGRES_MAX_IDLE'') 5,
          pg_ConnMaxLifetime = envDurationDefault getenv (p @ ''POSTGRES_CONN_MAX_LIFE'') (5 * Minute),
          pg_ConnMaxIdleTime = envDurationDefault getenv (p @ ''POSTGRES_CONN_MAX_IDLE'') (1 * Minute)\<rparr>)"

definition ConnectionString :: "PostgresConfig \<Rightarrow> string" where
  "ConnectionString c =
     (if pg_URL c \<noteq> [] then pg_URL c
      else ''host='' @ pg_Host c @ '' port='' @ Itoa (pg_Port c) @ '' user='' @ pg_User c @ '' password='' @ pg_Password c @
           '' dbname='' @ pg_Database c @ '' sslmode='' @ pg_SSLMode c)"

text \<open>A client: the handle \<open>sql.Open\<close> returns, with its pool settings, and the configuration.\<close>

record 'h Postgres =
  pc_db :: 'h
  pc_pool :: "int \<times> int \<times> duration \<times> duration"
  pc_cfg :: PostgresConfig

definition NewPostgres :: "(string \<Rightarrow> (string, 'h) result) \<Rightarrow> PostgresConfig \<Rightarrow> (string, 'h Postgres) result" where
  "NewPostgres sqlOpen cfg =
     (case sqlOpen (ConnectionString cfg) of
        Inl er \<Rightarrow> Err (''open postgres: '' @ er)
      | Inr db \<Rightarrow> Ok \<lparr>pc_db = db, pc_pool = (pg_MaxOpenConns cfg, pg_MaxIdleConns cfg, pg_ConnMaxLifetime cfg, pg_ConnMaxIdleTime cfg),
                      pc_cfg = cfg\<rparr>)"

text \<open>The opening of a store, the same in three packages but for the migration: a client configured by a URL alone, which is
  pinged, and a schema that is created where it is missing. \<open>ping\<close> and \<open>migrate\<close> are the errors of these calls.\<close>

definition url_config :: "string \<Rightarrow> PostgresConfig" where
  "url_config url = \<lparr>pg_URL = url, pg_Host = [], pg_Port = 0, pg_User = [], pg_Password = [], pg_Database = [], pg_SSLMode = [],
     pg_MaxOpenConns = 0, pg_MaxIdleConns = 0, pg_ConnMaxLifetime = 0, pg_ConnMaxIdleTime = 0\<rparr>"

definition open_store ::
    "(string \<Rightarrow> (string, 'h) result) \<Rightarrow> ('h \<Rightarrow> string option) \<Rightarrow> ('h \<Rightarrow> string option) \<Rightarrow> string \<Rightarrow> (string, 'h Postgres) result" where
  "open_store sqlOpen ping migrate url =
     (case NewPostgres sqlOpen (url_config url) of
        Inl er \<Rightarrow> Err (''create postgres client: '' @ er)
      | Inr pg \<Rightarrow>
          (case ping (pc_db pg) of
             Some er \<Rightarrow> Err (''postgres ping: '' @ er)
           | None \<Rightarrow>
               (case migrate (pc_db pg) of
                  Some er \<Rightarrow> Err (''migrate schema: '' @ er)
                | None \<Rightarrow> Ok pg)))"

text \<open>The driver. \<open>Exec\<close> returns the number of affected rows, \<open>QueryRow\<close> the columns of one row, \<open>Query\<close> the columns of
  all rows and the error that ends the iteration, if any. A transaction is a second state, begun on a copy of the
  first; \<open>Commit\<close> installs it.\<close>

datatype row_error = ErrNoRows | RowError string

record ('d, 't) sql_db =
  db_Exec :: "string \<Rightarrow> any list \<Rightarrow> 'd \<Rightarrow> (string, int) result \<times> 'd"
  db_QueryRow :: "string \<Rightarrow> any list \<Rightarrow> 'd \<Rightarrow> (row_error, any list) result \<times> 'd"
  db_Query :: "string \<Rightarrow> any list \<Rightarrow> 'd \<Rightarrow> (string, any list list \<times> string option) result"
  db_Begin :: "'d \<Rightarrow> (string, 't) result"
  db_Prepare :: "string \<Rightarrow> 't \<Rightarrow> (string, unit) result"
  db_TxExec :: "string \<Rightarrow> any list \<Rightarrow> 't \<Rightarrow> (string, int) result \<times> 't"
  db_Commit :: "'t \<Rightarrow> 'd \<Rightarrow> (string, unit) result \<times> 'd"
  db_Rollback :: "'t \<Rightarrow> 'd \<Rightarrow> 'd"

definition InTx :: "('d, 't) sql_db \<Rightarrow> ('t \<Rightarrow> string option \<times> 't) \<Rightarrow> 'd \<Rightarrow> (string, unit) result \<times> 'd" where
  "InTx db fn d =
     (case db_Begin db d of
        Inl er \<Rightarrow> (Err er, d)
      | Inr tx \<Rightarrow>
          (case fn tx of
             (Some er, tx') \<Rightarrow> (Err er, db_Rollback db tx' d)
           | (None, tx') \<Rightarrow> db_Commit db tx' d))"


section \<open>Arguments and columns\<close>

definition null_time :: "time option \<Rightarrow> any" where "null_time t = (case t of None \<Rightarrow> ANil | Some x \<Rightarrow> ATime x)"

text \<open>Scanning a column: a text, a time, a nullable time, an integer, a nullable integer, an array of texts. \<open>None\<close> is a scan error.\<close>

definition scan_text :: "any \<Rightarrow> string option" where "scan_text v = (case v of AString s \<Rightarrow> Some s | _ \<Rightarrow> None)"
definition scan_time :: "any \<Rightarrow> time option" where "scan_time v = (case v of ATime t \<Rightarrow> Some t | _ \<Rightarrow> None)"
definition scan_null_time :: "any \<Rightarrow> time option option" where
  "scan_null_time v = (case v of ANil \<Rightarrow> Some None | ATime t \<Rightarrow> Some (Some t) | _ \<Rightarrow> None)"
definition scan_int :: "any \<Rightarrow> int option" where "scan_int v = (case v of AInt n \<Rightarrow> Some n | _ \<Rightarrow> None)"
definition scan_null_int :: "any \<Rightarrow> int option option" where
  "scan_null_int v = (case v of ANil \<Rightarrow> Some None | AInt n \<Rightarrow> Some (Some n) | _ \<Rightarrow> None)"
definition scan_texts :: "any \<Rightarrow> string list option" where
  "scan_texts v = (case v of ANil \<Rightarrow> Some [] | AStrings xs \<Rightarrow> Some xs | _ \<Rightarrow> None)"

lemmas scan_defs = scan_text_def scan_time_def scan_null_time_def scan_texts_def scan_int_def scan_null_int_def null_time_def

definition scan_error :: string where "scan_error = ''sql: Scan error''"


section \<open>Redis\<close>

record RedisConfig =
  rc_URL :: string
  rc_Host :: string
  rc_Port :: int
  rc_Password :: string
  rc_DB :: int
  rc_PoolSize :: int
  rc_MinIdleConns :: int
  rc_MaxRetries :: int
  rc_DialTimeout :: duration
  rc_ReadTimeout :: duration
  rc_WriteTimeout :: duration

definition LoadRedisConfigFromEnv :: "getenv \<Rightarrow> string \<Rightarrow> RedisConfig" where
  "LoadRedisConfigFromEnv getenv prefix0 =
     (let p = env_prefix prefix0
      in \<lparr>rc_URL = getenv (p @ ''REDIS_URL''),
          rc_Host = envDefault getenv (p @ ''REDIS_HOST'') ''localhost'',
          rc_Port = envIntDefault getenv (p @ ''REDIS_PORT'') 6379,
          rc_Password = getenv (p @ ''REDIS_PASSWORD''),
          rc_DB = envIntDefault getenv (p @ ''REDIS_DB'') 0,
          rc_PoolSize = envIntDefault getenv (p @ ''REDIS_POOL_SIZE'') 10,
          rc_MinIdleConns = envIntDefault getenv (p @ ''REDIS_MIN_IDLE'') 2,
          rc_MaxRetries = envIntDefault getenv (p @ ''REDIS_MAX_RETRIES'') 3,
          rc_DialTimeout = envDurationDefault getenv (p @ ''REDIS_DIAL_TIMEOUT'') (5 * Second),
          rc_ReadTimeout = envDurationDefault getenv (p @ ''REDIS_READ_TIMEOUT'') (3 * Second),
          rc_WriteTimeout = envDurationDefault getenv (p @ ''REDIS_WRITE_TIMEOUT'') (3 * Second)\<rparr>)"

text \<open>The options of the client, as far as the gateway sets them.\<close>

record RedisOptions =
  ro_Addr :: string
  ro_Password :: string
  ro_DB :: int
  ro_PoolSize :: int
  ro_MinIdleConns :: int
  ro_MaxRetries :: int
  ro_DialTimeout :: duration
  ro_ReadTimeout :: duration
  ro_WriteTimeout :: duration

definition set_if :: "bool \<Rightarrow> ('o \<Rightarrow> 'o) \<Rightarrow> 'o \<Rightarrow> 'o" where "set_if c f opts = (if c then f opts else opts)"

text \<open>\<open>parseURL\<close> is \<open>redis.ParseURL\<close>; \<open>NewClient\<close> connects lazily and never fails.\<close>

definition NewRedis :: "(string \<Rightarrow> (string, RedisOptions) result) \<Rightarrow> RedisConfig \<Rightarrow> (string, RedisOptions) result" where
  "NewRedis parseURL cfg =
     (let base = (if rc_URL cfg \<noteq> []
                  then (case parseURL (rc_URL cfg) of Inl er \<Rightarrow> Err (''parse redis URL: '' @ er) | Inr opts \<Rightarrow> Ok opts)
                  else Ok \<lparr>ro_Addr = rc_Host cfg @ '':'' @ Itoa (rc_Port cfg), ro_Password = rc_Password cfg, ro_DB = rc_DB cfg,
                           ro_PoolSize = 0, ro_MinIdleConns = 0, ro_MaxRetries = 0, ro_DialTimeout = 0, ro_ReadTimeout = 0,
                           ro_WriteTimeout = 0\<rparr>)
      in case base of
           Inl er \<Rightarrow> Err er
         | Inr o0 \<Rightarrow>
             let o1 = set_if (rc_PoolSize cfg > 0) (\<lambda>x. x\<lparr>ro_PoolSize := rc_PoolSize cfg\<rparr>) o0;
                 o2 = set_if (rc_MinIdleConns cfg > 0) (\<lambda>x. x\<lparr>ro_MinIdleConns := rc_MinIdleConns cfg\<rparr>) o1;
                 o3 = set_if (rc_MaxRetries cfg > 0) (\<lambda>x. x\<lparr>ro_MaxRetries := rc_MaxRetries cfg\<rparr>) o2;
                 o4 = set_if (rc_DialTimeout cfg > 0) (\<lambda>x. x\<lparr>ro_DialTimeout := rc_DialTimeout cfg\<rparr>) o3;
                 o5 = set_if (rc_ReadTimeout cfg > 0) (\<lambda>x. x\<lparr>ro_ReadTimeout := rc_ReadTimeout cfg\<rparr>) o4
             in Ok (set_if (rc_WriteTimeout cfg > 0) (\<lambda>x. x\<lparr>ro_WriteTimeout := rc_WriteTimeout cfg\<rparr>) o5))"


section \<open>Lemmas\<close>

text \<open>The prefix of the variables may be given with or without its underscore.\<close>

lemma env_prefix_idem: "env_prefix (env_prefix p) = env_prefix p"
  by (simp add: env_prefix_def)

text \<open>Whatever the environment holds, counts are never negative and durations always positive.\<close>

lemma storage_int_nonneg: "0 \<le> fallback \<Longrightarrow> 0 \<le> envIntDefault getenv key fallback"
  by (auto simp: envIntDefault_def Let_def split: option.split)

lemma storage_duration_pos: "0 < fallback \<Longrightarrow> 0 < envDurationDefault getenv key fallback"
  by (auto simp: envDurationDefault_def Let_def split: option.split)

theorem LoadPostgresConfigFromEnv_pool:
  "0 \<le> pg_MaxOpenConns (LoadPostgresConfigFromEnv getenv p) \<and> 0 \<le> pg_MaxIdleConns (LoadPostgresConfigFromEnv getenv p) \<and>
   0 < pg_ConnMaxLifetime (LoadPostgresConfigFromEnv getenv p) \<and> 0 < pg_ConnMaxIdleTime (LoadPostgresConfigFromEnv getenv p)"
  by (simp add: LoadPostgresConfigFromEnv_def Let_def storage_int_nonneg storage_duration_pos duration_units)

text \<open>The stores take no pool setting from the environment: their connections are neither limited nor kept, and an
  empty URL gives a connection string without a host.\<close>

lemma open_store_pool: "open_store sqlOpen ping migrate url = Ok pg \<Longrightarrow> pc_pool pg = (0, 0, 0, 0)"
  by (auto simp: open_store_def NewPostgres_def url_config_def split: result_splits)

lemma open_store_empty_url: "ConnectionString (url_config []) = ''host= port=0 user= password= dbname= sslmode=''"
  by code_simp

text \<open>The values of the connection string are not quoted, so that two different configurations can give one string.\<close>

lemma ConnectionString_ambiguous:
  "\<exists>c c'. ConnectionString c = ConnectionString c' \<and> pg_Database c \<noteq> pg_Database c' \<and> pg_Password c \<noteq> pg_Password c'"
proof -
  let ?c = "LoadPostgresConfigFromEnv (\<lambda>_. []) []"
  have "ConnectionString (?c\<lparr>pg_Password := ''x dbname=y'', pg_Database := ''z''\<rparr>) =
      ConnectionString (?c\<lparr>pg_Password := ''x'', pg_Database := ''y dbname=z''\<rparr>)"
    by (simp add: ConnectionString_def LoadPostgresConfigFromEnv_def Let_def)
  then show ?thesis by (intro exI conjI) (assumption, simp_all)
qed

end
