(* ===== verification/Ratelimit_Redis.thy ===== *)
theory Ratelimit_Redis
  imports Ratelimit_Meter Storage
begin

text \<open>
  The package \<open>internal/ratelimit\<close>, file \<open>redis.go\<close>: the token bucket store all gateway processes share through
  Redis. The buckets are kept by two Lua scripts the store sends to the server; the scripts are part of the source
  and are translated here statement by statement. A Lua number is a float64, as in \<open>Go_Float\<close>.

  The Redis server is not part of the repository: its commands are the record \<open>redis_ops\<close>, and the locale
  \<open>redis_server\<close> states what the scripts rely on. The locale is interpreted on a key space with expiry times. What a
  call reads from outside (the gateway's clock, the server's clock, whether the calls to the server fail and whether
  a failed call was executed) is its argument of type \<open>redis_env\<close>.

  Shown here: the admission bound of the in-memory store holds for the Redis store too, for takes of any number of
  gateway processes, provided two windows refill the burst. Where they do not, the expiry of an idle bucket hands out
  a full burst too early.
\<close>

section \<open>The server\<close>

text \<open>The commands the scripts call, with the server's clock in milliseconds. \<open>HMGET\<close> is read through \<open>tonumber\<close>:
  the number a field of a hash holds, if the key exists and has the field.\<close>

record 's redis_ops =
  ro_HMGET :: "int \<Rightarrow> string \<Rightarrow> string \<Rightarrow> 's \<Rightarrow> rat option"
  ro_HMSET :: "int \<Rightarrow> string \<Rightarrow> (string \<times> rat) list \<Rightarrow> 's \<Rightarrow> 's"
  ro_PEXPIRE :: "int \<Rightarrow> string \<Rightarrow> int \<Rightarrow> 's \<Rightarrow> 's"
  ro_DEL :: "int \<Rightarrow> string \<Rightarrow> 's \<Rightarrow> 's"

text \<open>\<open>re_EvalSha\<close>, \<open>re_Eval\<close> and \<open>re_Del\<close> say how the calls go: \<open>None\<close> is an answer of the server, \<open>Some (e, executed)\<close> a
  failure with error text \<open>e\<close>, where \<open>executed\<close> tells whether the server executed the command all the same.\<close>

type_synonym failure = "(string \<times> bool) option"

record redis_env =
  re_Now :: time
  re_Clock :: int
  re_EvalSha :: failure
  re_Eval :: failure
  re_Del :: failure


section \<open>The scripts\<close>

text \<open>The tokens and the time of the last update a script starts from; \<open>None\<close> where the script fails because the
  hash has tokens but no time. The arguments arrive as decimal texts and are read as float64.\<close>

definition script_bucket :: "'s redis_ops \<Rightarrow> int \<Rightarrow> string \<Rightarrow> rat \<Rightarrow> rat \<Rightarrow> 's \<Rightarrow> (rat \<times> rat) option" where
  "script_bucket ops clock key burst now s =
     (case ro_HMGET ops clock key ''tokens'' s of
        None \<Rightarrow> Some (burst, now)
      | Some tokens \<Rightarrow> map_option (\<lambda>last_update. (tokens, last_update)) (ro_HMGET ops clock key ''last_update'' s))"

definition script_refill :: "rat \<Rightarrow> rat \<Rightarrow> rat \<Rightarrow> rat \<Rightarrow> rat \<Rightarrow> rat" where
  "script_refill burst rate now tokens last_update =
     (let elapsed_ms = f64_sub now last_update;
          refill = f64_mul (fl (elapsed_ms / 1000)) rate
      in f64_min burst (f64_add tokens refill))"

definition nil_error :: string where
  "nil_error = ''ERR user_script: attempt to perform arithmetic on local 'last_update' (a nil value)''"

definition tokenBucketScript :: "'s redis_ops \<Rightarrow> int \<Rightarrow> string \<Rightarrow> int \<Rightarrow> rat \<Rightarrow> int \<Rightarrow> int \<Rightarrow> int \<Rightarrow> 's \<Rightarrow>
    (string, any list) result \<times> 's" where
  "tokenBucketScript ops clock key burst0 rate now0 requested0 window0 s =
     (let burst = f64_of_int burst0; now = f64_of_int now0; requested = f64_of_int requested0; window_ms = f64_of_int window0
      in case script_bucket ops clock key burst now s of
           None \<Rightarrow> (Err nil_error, s)
         | Some (tokens0, last_update) \<Rightarrow>
             let tokens1 = script_refill burst rate now tokens0 last_update;
                 (allowed, tokens) = (if tokens1 \<ge> requested then (1, f64_sub tokens1 requested) else (0, tokens1));
                 s1 = ro_HMSET ops clock key [(''tokens'', tokens), (''last_update'', now)] s;
                 s2 = ro_PEXPIRE ops clock key (f64_to_int64 (Some (f64_mul window_ms 2))) s1;
                 reset_at = f64_add now window_ms
             in (Ok [AInt allowed, AInt (f64_to_int64 (Some (of_int \<lfloor>tokens\<rfloor>))), AInt (f64_to_int64 (Some reset_at))], s2))"

definition peekScript :: "'s redis_ops \<Rightarrow> int \<Rightarrow> string \<Rightarrow> int \<Rightarrow> rat \<Rightarrow> int \<Rightarrow> int \<Rightarrow> 's \<Rightarrow> (string, any list) result" where
  "peekScript ops clock key burst0 rate now0 window0 s =
     (let burst = f64_of_int burst0; now = f64_of_int now0; window_ms = f64_of_int window0
      in case script_bucket ops clock key burst now s of
           None \<Rightarrow> Err nil_error
         | Some (tokens0, last_update) \<Rightarrow>
             let tokens = script_refill burst rate now tokens0 last_update;
                 allowed = (if tokens \<ge> 1 then 1 else 0);
                 reset_at = f64_add now window_ms
             in Ok [AInt allowed, AInt (f64_to_int64 (Some (of_int \<lfloor>tokens\<rfloor>))), AInt (f64_to_int64 (Some reset_at))])"


section \<open>The store\<close>

record RedisStore =
  rs_takeScriptSHA :: string
  rs_peekScriptSHA :: string
  rs_keyPrefix :: string

definition WithKeyPrefix :: "string \<Rightarrow> RedisStore \<Rightarrow> RedisStore" where
  "WithKeyPrefix pre s = s\<lparr>rs_keyPrefix := pre\<rparr>"

text \<open>\<open>loadTake\<close> and \<open>loadPeek\<close> are the results of \<open>client.ScriptLoad\<close> for the two scripts.\<close>

definition NewRedisStore :: "(string, string) result \<Rightarrow> (string, string) result \<Rightarrow> (RedisStore \<Rightarrow> RedisStore) list \<Rightarrow>
    (string, RedisStore) result" where
  "NewRedisStore loadTake loadPeek opts =
     (let s = fold (\<lambda>opt s. opt s) opts \<lparr>rs_takeScriptSHA = [], rs_peekScriptSHA = [], rs_keyPrefix = ''ratelimit:''\<rparr>
      in case loadTake of
           Inl er \<Rightarrow> Err (''load take script: '' @ er)
         | Inr sha1 \<Rightarrow>
             (case loadPeek of
                Inl er \<Rightarrow> Err (''load peek script: '' @ er)
              | Inr sha2 \<Rightarrow> Ok (s\<lparr>rs_takeScriptSHA := sha1, rs_peekScriptSHA := sha2\<rparr>)))"

text \<open>Opening the store; \<open>ping\<close> is the error of the first command sent to the server.\<close>

definition newRedisStoreFromConfig ::
    "(string \<Rightarrow> (string, RedisOptions) result) \<Rightarrow> (RedisOptions \<Rightarrow> string option) \<Rightarrow> (string, string) result \<Rightarrow> (string, string) result \<Rightarrow>
     Config \<Rightarrow> (string, RedisStore) result" where
  "newRedisStoreFromConfig parseURL ping loadTake loadPeek cfg =
     (case NewRedis parseURL \<lparr>rc_URL = c_RedisURL cfg, rc_Host = [], rc_Port = 0, rc_Password = [], rc_DB = 0, rc_PoolSize = 0,
         rc_MinIdleConns = 0, rc_MaxRetries = 0, rc_DialTimeout = 0, rc_ReadTimeout = 0, rc_WriteTimeout = 0\<rparr> of
        Inl er \<Rightarrow> Err (''create redis client: '' @ er)
      | Inr opts \<Rightarrow>
          (case ping opts of
             Some er \<Rightarrow> Err (''redis ping: '' @ er)
           | None \<Rightarrow> NewRedisStore loadTake loadPeek []))"

fun type_name :: "any \<Rightarrow> string" where
  "type_name ANil = ''<nil>''"
| "type_name (ABool _) = ''bool''"
| "type_name (AFloat _) = ''float64''"
| "type_name (AInt _) = ''int64''"
| "type_name (ANumber _) = ''json.Number''"
| "type_name (AString _) = ''string''"
| "type_name (ATime _) = ''time.Time''"
| "type_name (AStrings _) = ''[]string''"
| "type_name (AList _) = ''[]interface {}''"
| "type_name (AMap _) = ''map[string]interface {}''"

definition toInt64 :: "any \<Rightarrow> (string, int) result" where
  "toInt64 v =
     (case v of
        AInt n \<Rightarrow> Ok n
      | AFloat q \<Rightarrow> Ok (f64_to_int64 (Some q))
      | _ \<Rightarrow> Err (''cannot convert '' @ type_name v @ '' to int64''))"

definition isNoScriptErr :: "string \<Rightarrow> bool" where
  "isNoScriptErr er \<longleftrightarrow> er = ''NOSCRIPT No matching script. Please use EVAL.''"

text \<open>\<open>time.Duration(tokensNeeded/rate*1000) * time.Millisecond\<close>, where it applies.\<close>

definition redis_retry :: "bool \<Rightarrow> int \<Rightarrow> Limit \<Rightarrow> duration" where
  "redis_retry allowed remaining limit =
     (let tokensNeeded = f64_sub 1 (f64_of_int remaining); rate = RequestsPerSecond limit
      in if \<not> allowed \<and> remaining < EffectiveBurst limit \<and> tokensNeeded > 0 \<and> rate > 0
         then wrap64 (f64_to_int64 (Some (f64_mul (fl (tokensNeeded / rate)) 1000)) * Millisecond) else 0)"

definition parseResult :: "any list \<Rightarrow> Limit \<Rightarrow> (string, Result) result" where
  "parseResult result limit =
     (case result of
        v0 # v1 # v2 # _ \<Rightarrow>
          (case toInt64 v0 of
             Inl er \<Rightarrow> Err (''parse allowed: '' @ er)
           | Inr allowed \<Rightarrow>
               (case toInt64 v1 of
                  Inl er \<Rightarrow> Err (''parse remaining: '' @ er)
                | Inr remaining \<Rightarrow>
                    (case toInt64 v2 of
                       Inl er \<Rightarrow> Err (''parse reset_at: '' @ er)
                     | Inr resetAtMs \<Rightarrow>
                         Ok \<lparr>r_Allowed = (allowed = 1), r_Remaining = remaining, r_ResetAt = unix_epoch + resetAtMs * Millisecond,
                             r_RetryAfter = redis_retry (allowed = 1) remaining limit, r_Limit = limit\<rparr>)))
      | _ \<Rightarrow> Err (''unexpected result length: '' @ Itoa (int (length result))))"

text \<open>One call to the server, and the two calls of \<open>Take\<close> and \<open>Peek\<close>: by digest first, and with the whole script
  when the server does not know the digest.\<close>

definition server_call :: "failure \<Rightarrow> ('s \<Rightarrow> (string, any list) result \<times> 's) \<Rightarrow> 's \<Rightarrow> (string, any list) result \<times> 's" where
  "server_call outcome script s =
     (case outcome of None \<Rightarrow> script s | Some (er, executed) \<Rightarrow> (Err er, if executed then snd (script s) else s))"

definition eval_script :: "redis_env \<Rightarrow> ('s \<Rightarrow> (string, any list) result \<times> 's) \<Rightarrow> 's \<Rightarrow> (string, any list) result \<times> 's" where
  "eval_script env script s =
     (case server_call (re_EvalSha env) script s of
        (Inr r, s1) \<Rightarrow> (Ok r, s1)
      | (Inl er, s1) \<Rightarrow>
          if isNoScriptErr er
          then (case server_call (re_Eval env) script s1 of
                  (Inr r, s2) \<Rightarrow> (Ok r, s2)
                | (Inl er', s2) \<Rightarrow> (Err (''redis eval: '' @ er'), s2))
          else (Err (''redis eval: '' @ er), s1))"

definition redis_Take :: "'s redis_ops \<Rightarrow> RedisStore \<Rightarrow> redis_env \<Rightarrow> string \<Rightarrow> Limit \<Rightarrow> int \<Rightarrow> 's \<Rightarrow> (string, Result) result \<times> 's" where
  "redis_Take ops st env key limit n s =
     (let fullKey = rs_keyPrefix st @ key; nowMs = UnixMilli (re_Now env); burst = EffectiveBurst limit;
          rate = RequestsPerSecond limit; windowMs = Milliseconds (l_Window limit)
      in case eval_script env (tokenBucketScript ops (re_Clock env) fullKey burst rate nowMs n windowMs) s of
           (Inl er, s') \<Rightarrow> (Err er, s')
         | (Inr result, s') \<Rightarrow> (parseResult result limit, s'))"

definition redis_Peek :: "'s redis_ops \<Rightarrow> RedisStore \<Rightarrow> redis_env \<Rightarrow> string \<Rightarrow> Limit \<Rightarrow> 's \<Rightarrow> (string, Result) result" where
  "redis_Peek ops st env key limit s =
     (let fullKey = rs_keyPrefix st @ key; nowMs = UnixMilli (re_Now env); burst = EffectiveBurst limit;
          rate = RequestsPerSecond limit; windowMs = Milliseconds (l_Window limit)
      in case fst (eval_script env (\<lambda>s. (peekScript ops (re_Clock env) fullKey burst rate nowMs windowMs s, s)) s) of
           Inl er \<Rightarrow> Err er
         | Inr result \<Rightarrow> parseResult result limit)"

definition redis_Reset :: "'s redis_ops \<Rightarrow> RedisStore \<Rightarrow> redis_env \<Rightarrow> string \<Rightarrow> 's \<Rightarrow> (string, unit) result \<times> 's" where
  "redis_Reset ops st env key s =
     (let fullKey = rs_keyPrefix st @ key; deleted = ro_DEL ops (re_Clock env) fullKey s
      in case re_Del env of None \<Rightarrow> (Ok (), deleted) | Some (er, executed) \<Rightarrow> (Err er, if executed then deleted else s))"


section \<open>What the scripts rely on\<close>

text \<open>The documented behaviour of the commands: a hash holds the fields written last (a float64 is written with
  enough digits to be read back), a key with an expiry time is gone from that time on, a deleted key is gone, and
  no command touches another key.\<close>

locale redis_server =
  fixes ops :: "'s redis_ops"
  assumes hmset: "distinct (map fst fs) \<Longrightarrow> (f, x) \<in> set fs \<Longrightarrow> fl x = x \<Longrightarrow>
      ro_HMGET ops clock key f (ro_HMSET ops clock key fs s) = Some x"
    and hmset_frame: "key' \<noteq> key \<Longrightarrow> ro_HMGET ops clock' key' f (ro_HMSET ops clock key fs s) = ro_HMGET ops clock' key' f s"
    and pexpire: "clock \<le> clock' \<Longrightarrow> ro_HMGET ops clock' key f (ro_PEXPIRE ops clock key ms s) =
      (if clock' < clock + ms then ro_HMGET ops clock key f s else None)"
    and pexpire_frame: "key' \<noteq> key \<Longrightarrow> ro_HMGET ops clock' key' f (ro_PEXPIRE ops clock key ms s) = ro_HMGET ops clock' key' f s"
    and del: "ro_HMGET ops clock' key f (ro_DEL ops clock key s) = None"
    and del_frame: "key' \<noteq> key \<Longrightarrow> ro_HMGET ops clock' key' f (ro_DEL ops clock key s) = ro_HMGET ops clock' key' f s"
begin

lemma script_frame:
  assumes "key' \<noteq> key"
  shows "ro_HMGET ops clock' key' f (snd (tokenBucketScript ops clock key burst rate now n window s)) = ro_HMGET ops clock' key' f s"
  using assms by (auto simp: tokenBucketScript_def Let_def hmset_frame pexpire_frame split: option.split prod.split)

lemma written:
  assumes "fl tokens = tokens" "fl now = now" "clock \<le> clock'"
    "s' = ro_PEXPIRE ops clock key ms (ro_HMSET ops clock key [(''tokens'', tokens), (''last_update'', now)] s)"
  shows "ro_HMGET ops clock' key ''tokens'' s' = (if clock' < clock + ms then Some tokens else None)"
    "ro_HMGET ops clock' key ''last_update'' s' = (if clock' < clock + ms then Some now else None)"
  using assms by (simp_all add: pexpire hmset)

end

text \<open>A key space: each key with its fields and its expiry time, which a command that finds it passed ignores.\<close>

type_synonym keyspace = "(string, (string, rat) gomap \<times> int option) gomap"

definition live_hash :: "int \<Rightarrow> string \<Rightarrow> keyspace \<Rightarrow> ((string, rat) gomap \<times> int option) option" where
  "live_hash clock key s =
     (case mget s key of
        Some (fs, Some ex) \<Rightarrow> if clock < ex then Some (fs, Some ex) else None
      | h \<Rightarrow> h)"

definition keyspace_ops :: "keyspace redis_ops" where
  "keyspace_ops = \<lparr>
     ro_HMGET = (\<lambda>clock key f s. case live_hash clock key s of None \<Rightarrow> None | Some (fs, _) \<Rightarrow> mget fs f),
     ro_HMSET = (\<lambda>clock key fs s.
       let (old, ex) = (case live_hash clock key s of None \<Rightarrow> ([], None) | Some h \<Rightarrow> h)
       in mput key (fold (\<lambda>(f, x). mput f x) fs old, ex) s),
     ro_PEXPIRE = (\<lambda>clock key ms s.
       case live_hash clock key s of None \<Rightarrow> mdel key s | Some (fs, _) \<Rightarrow> mput key (fs, Some (clock + ms)) s),
     ro_DEL = (\<lambda>clock key s. mdel key s)\<rparr>"

lemma fold_mput:
  "mget (fold (\<lambda>(f, x). mput f x) fs m) f = (case map_of (rev fs) f of Some x \<Rightarrow> Some x | None \<Rightarrow> mget m f)"
  by (induction fs arbitrary: m) (auto simp: map_add_def split: option.split)

lemma hmset_live:
  assumes "live_hash clock key s = h"
  shows "live_hash clock key (ro_HMSET keyspace_ops clock key fs s) =
    Some (fold (\<lambda>(f, x). mput f x) fs (case h of None \<Rightarrow> [] | Some (old, _) \<Rightarrow> old), case h of None \<Rightarrow> None | Some (_, ex) \<Rightarrow> ex)"
  using assms by (auto simp: keyspace_ops_def live_hash_def Let_def split: result_splits)

lemma live_hash_frame: "key' \<noteq> key \<Longrightarrow> live_hash clock key' (mput key h s) = live_hash clock key' s"
  "key' \<noteq> key \<Longrightarrow> live_hash clock key' (mdel key s) = live_hash clock key' s"
  by (simp_all add: live_hash_def)

interpretation keyspace: redis_server keyspace_ops
proof
  fix fs :: "(string \<times> rat) list" and f key :: string and x clock and s :: keyspace
  assume "distinct (map fst fs)" "(f, x) \<in> set fs"
  then have "map_of (rev fs) f = Some x" by (simp add: rev_map [symmetric])
  then show "ro_HMGET keyspace_ops clock key f (ro_HMSET keyspace_ops clock key fs s) = Some x"
    using hmset_live [OF refl, where clock = clock and key = key and s = s and fs = fs] by (simp add: keyspace_ops_def fold_mput split: option.splits)
qed (auto simp: keyspace_ops_def live_hash_frame Let_def live_hash_def split: result_splits)



section \<open>The level of a bucket\<close>

text \<open>The refill in tokens per millisecond, with the four roundings of its computation.\<close>

definition ms_rate :: "Limit \<Rightarrow> rat" where
  "ms_rate L = RequestsPerSecond L * (1 + unit_roundoff) ^ 4 / 1000"

text \<open>Two windows, after which an idle bucket expires, refill the burst; and the counts are exact in float64.\<close>

definition expiry_ok :: "Limit \<Rightarrow> bool" where
  "expiry_ok L \<longleftrightarrow> l_Requests L \<le> 9007199254740992 \<and> EffectiveBurst L \<le> 9007199254740992 \<and>
     EffectiveBurst L * l_Window L \<le> 2 * Milliseconds (l_Window L) * Millisecond * l_Requests L"

lemma ms_rate_nonneg: "limit_ok L \<Longrightarrow> 0 \<le> ms_rate L"
  using roundoff_pos by (simp add: ms_rate_def RequestsPerSecond_nonneg)

lemma window_ms: "limit_ok L \<Longrightarrow> 0 \<le> Milliseconds (l_Window L) \<and> Milliseconds (l_Window L) \<le> 9223372036854"
  by (auto simp: limit_ok_def Milliseconds_def duration_units sdiv_smod_nonneg max_int64_def)

lemma RequestsPerSecond_lower:
  assumes "limit_ok L" "l_Requests L \<le> 9007199254740992"
  shows "of_int (l_Requests L) * (1 - unit_roundoff) \<le> RequestsPerSecond L * (of_int (l_Window L) / of_int Second * (1 + unit_roundoff) ^ 2)"
proof -
  let ?S = "Seconds (l_Window L)" and ?R = "of_int (l_Requests L) :: rat"
  have w: "0 < l_Window L" "l_Window L \<le> max_int64" and r: "0 \<le> l_Requests L" using assms(1) by (auto simp: limit_ok_def)
  have S: "0 < ?S" using w by (intro Seconds_pos) auto
  have R: "fl ?R = ?R" using r assms(2) by simp
  have "?R / ?S * (1 - unit_roundoff) \<le> fl (?R / ?S)"
    using fl_err [of "?R / ?S"] S r by (simp add: unit_roundoff_def abs_le_iff algebra_simps)
  then have "?R * (1 - unit_roundoff) \<le> RequestsPerSecond L * ?S"
    using S w R by (simp add: RequestsPerSecond_def field_simps)
  also have "\<dots> \<le> RequestsPerSecond L * (of_int (l_Window L) / of_int Second * (1 + unit_roundoff) ^ 2)"
    using w Seconds_upper [of "l_Window L"] RequestsPerSecond_nonneg [OF assms(1)] by (intro mult_left_mono) auto
  finally show ?thesis .
qed

lemma expiry_refills:
  assumes "limit_ok L" "expiry_ok L"
  shows "f64_burst L \<le> of_int (2 * Milliseconds (l_Window L)) * ms_rate L"
proof -
  let ?W = "of_int (l_Window L) :: rat" and ?R = "of_int (l_Requests L) :: rat" and ?A = "of_int (2 * Milliseconds (l_Window L)) :: rat"
  let ?b = "of_int (EffectiveBurst L) :: rat" and ?u = unit_roundoff
  have W: "0 < ?W" and b: "0 \<le> ?b" and A: "0 \<le> ?A"
    using assms(1) EffectiveBurst_nonneg [OF assms(1)] window_ms [OF assms(1)] by (auto simp: limit_ok_def)
  have "of_int (EffectiveBurst L * l_Window L) \<le> (of_int (2 * Milliseconds (l_Window L) * Millisecond * l_Requests L) :: rat)"
    using assms(2) by (simp only: of_int_le_iff expiry_ok_def)
  then have bW: "?b * ?W \<le> ?A * 1000000 * ?R" by (simp add: duration_units)
  have one: "1 \<le> (1 - ?u) * (1 + ?u) ^ 2" by (simp add: unit_roundoff_def power2_eq_square)
  have "?b * ?W \<le> ?b * ?W * ((1 - ?u) * (1 + ?u) ^ 2)" using mult_left_mono [OF one, of "?b * ?W"] b W by simp
  also have "\<dots> \<le> ?A * 1000000 * ?R * ((1 - ?u) * (1 + ?u) ^ 2)"
    using bW one by (intro mult_right_mono) auto
  also have "\<dots> = ?A * 1000000 * (1 + ?u) ^ 2 * (?R * (1 - ?u))" by (simp only: ac_simps)
  also have "\<dots> \<le> ?A * 1000000 * (1 + ?u) ^ 2 * (RequestsPerSecond L * (?W / of_int Second * (1 + ?u) ^ 2))"
    using RequestsPerSecond_lower [OF assms(1)] assms(2) A by (intro mult_left_mono mult_nonneg_nonneg) (auto simp: expiry_ok_def)
  also have "\<dots> = ?A * ms_rate L * ?W" by (simp add: ms_rate_def duration_units power2_eq_square power4_eq_xxxx)
  finally have "?b \<le> ?A * ms_rate L" using W by (simp only: mult_le_cancel_right_pos)
  moreover have "f64_burst L = ?b" using assms EffectiveBurst_nonneg [OF assms(1)] by (simp add: expiry_ok_def)
  ultimately show ?thesis by simp
qed

text \<open>What a refill over \<open>d\<close> milliseconds adds.\<close>

lemma ms_refill:
  assumes "limit_ok L" "0 \<le> d"
  shows "0 \<le> fl (fl (of_int d / 1000) * RequestsPerSecond L)"
    "fl (fl (of_int d / 1000) * RequestsPerSecond L) \<le> of_int d * ms_rate L"
proof -
  let ?r = "RequestsPerSecond L" and ?c = "1 + unit_roundoff"
  have r: "0 \<le> ?r" using assms(1) by (rule RequestsPerSecond_nonneg)
  have d: "(0 :: rat) \<le> of_int d / 1000" using assms(2) by simp
  have c: "1 \<le> ?c" using roundoff_pos by simp
  show "0 \<le> fl (fl (of_int d / 1000) * ?r)" using r d by (intro fl_nonneg mult_nonneg_nonneg) auto
  have "fl (fl (of_int d / 1000) * ?r) \<le> fl (of_int d / 1000) * ?r * ?c" using r d by (intro fl_upper mult_nonneg_nonneg) auto
  also have "\<dots> \<le> of_int d / 1000 * ?c * ?r * ?c"
    using fl_upper [OF d] r c by (intro mult_right_mono) auto
  also have "\<dots> = of_int d * (?r * ?c ^ 2 / 1000)" by (simp add: power2_eq_square)
  also have "\<dots> \<le> of_int d * (?r * ?c ^ 4 / 1000)"
    using assms(2) r c power_increasing [of 2 4 ?c] by (intro mult_left_mono divide_right_mono) auto
  finally show "fl (fl (of_int d / 1000) * ?r) \<le> of_int d * ms_rate L" by (simp add: ms_rate_def)
qed



section \<open>Runs of the store\<close>

text \<open>Operations of any number of gateway processes on the shared buckets. The gateways' clocks agree with each
  other, and the server's clock is ahead of them by \<open>ahead\<close> milliseconds.\<close>

datatype redis_op = RTake redis_env string Limit int | RPeek redis_env string Limit | RReset redis_env string

fun rop_env :: "redis_op \<Rightarrow> redis_env" where
  "rop_env (RTake env key limit n) = env"
| "rop_env (RPeek env key limit) = env"
| "rop_env (RReset env key) = env"

definition rop_time :: "redis_op \<Rightarrow> int" where "rop_time op = UnixMilli (re_Now (rop_env op))"

fun rop_step :: "'s redis_ops \<Rightarrow> RedisStore \<Rightarrow> redis_op \<Rightarrow> 's \<Rightarrow> 's" where
  "rop_step ops st (RTake env key limit n) s = snd (redis_Take ops st env key limit n s)"
| "rop_step ops st (RPeek env key limit) s = s"
| "rop_step ops st (RReset env key) s = snd (redis_Reset ops st env key s)"

fun rop_grant :: "'s redis_ops \<Rightarrow> RedisStore \<Rightarrow> string \<Rightarrow> redis_op \<Rightarrow> 's \<Rightarrow> int" where
  "rop_grant ops st k (RTake env key limit n) s =
     (if key = k then (case fst (redis_Take ops st env key limit n s) of Inr r \<Rightarrow> if r_Allowed r then n else 0 | Inl _ \<Rightarrow> 0) else 0)"
| "rop_grant ops st k _ s = 0"

fun rop_resets :: "string \<Rightarrow> redis_op \<Rightarrow> nat" where
  "rop_resets k (RReset env key) = (if key = k then 1 else 0)"
| "rop_resets k _ = 0"

text \<open>The clocks are synchronised and exact in float64, a call that fails with \<open>NOSCRIPT\<close> was not executed, and the key is
  taken with its one limit.\<close>

definition env_ok :: "int \<Rightarrow> redis_env \<Rightarrow> bool" where
  "env_ok ahead env \<longleftrightarrow> re_Clock env = UnixMilli (re_Now env) + ahead \<and> 0 \<le> UnixMilli (re_Now env) \<and>
     UnixMilli (re_Now env) \<le> 9007199254740992 \<and>
     (case re_EvalSha env of None \<Rightarrow> True | Some (er, executed) \<Rightarrow> isNoScriptErr er \<longrightarrow> \<not> executed)"

fun rop_ok :: "string \<Rightarrow> Limit \<Rightarrow> int \<Rightarrow> redis_op \<Rightarrow> bool" where
  "rop_ok k L ahead (RTake env key limit n) \<longleftrightarrow>
     env_ok ahead env \<and> (key = k \<longrightarrow> limit = L \<and> 0 \<le> n \<and> n \<le> 9007199254740992)"
| "rop_ok k L ahead (RPeek env key limit) \<longleftrightarrow> env_ok ahead env"
| "rop_ok k L ahead (RReset env key) \<longleftrightarrow> env_ok ahead env"

definition rop_cost :: "string \<Rightarrow> Limit \<Rightarrow> redis_op \<Rightarrow> rat" where
  "rop_cost k L op = rounding_slack L + of_nat (rop_resets k op) * f64_burst L"

text \<open>The invariant of a bucket seen from an instant on: until its expiry it holds between no tokens and one burst,
  and at its expiry the refill has filled it.\<close>

definition redis_ok :: "'s redis_ops \<Rightarrow> string \<Rightarrow> Limit \<Rightarrow> int \<Rightarrow> int \<Rightarrow> 's \<Rightarrow> bool" where
  "redis_ok ops K L ahead t s \<longleftrightarrow> 0 \<le> t \<and>
     (\<exists>tokens u expiry. 0 \<le> tokens \<and> tokens \<le> f64_burst L \<and> 0 \<le> u \<and> u \<le> t \<and> u \<le> 9007199254740992 \<and>
        f64_burst L \<le> tokens + of_int (expiry - u) * ms_rate L \<and>
        (\<forall>t'\<ge>t. ro_HMGET ops (t' + ahead) K ''tokens'' s = (if t' < expiry then Some tokens else None) \<and>
                 (t' < expiry \<longrightarrow> ro_HMGET ops (t' + ahead) K ''last_update'' s = Some (of_int u))))"

definition redis_level :: "'s redis_ops \<Rightarrow> string \<Rightarrow> Limit \<Rightarrow> int \<Rightarrow> int \<Rightarrow> 's \<Rightarrow> rat" where
  "redis_level ops K L ahead t s =
     (case ro_HMGET ops (t + ahead) K ''tokens'' s of
        None \<Rightarrow> f64_burst L
      | Some tokens \<Rightarrow> min (f64_burst L) (tokens + (of_int t - the (ro_HMGET ops (t + ahead) K ''last_update'' s)) * ms_rate L))"

text \<open>The tokens an execution of the script grants.\<close>

definition script_grant :: "int \<Rightarrow> (string, any list) result \<Rightarrow> int" where
  "script_grant n r = (case r of Inr (v # _) \<Rightarrow> if v = AInt 1 then n else 0 | _ \<Rightarrow> 0)"

lemma to_int64_of_int: "min_int64 \<le> z \<Longrightarrow> z \<le> max_int64 \<Longrightarrow> f64_to_int64 (Some (of_int z)) = z"
  by (simp add: f64_to_int64_def trunc_rat_def Let_def)

lemma window_twice:
  assumes "limit_ok L"
  shows "f64_to_int64 (Some (fl (fl (of_int (Milliseconds (l_Window L))) * 2))) = 2 * Milliseconds (l_Window L)"
proof -
  let ?W = "Milliseconds (l_Window L)"
  have W: "0 \<le> ?W" "?W \<le> 9223372036854" using window_ms [OF assms] by auto
  then have "fl (of_int ?W) = (of_int ?W :: rat)" "fl (of_int (?W * 2)) = (of_int (?W * 2) :: rat)" by (intro fl_of_int; simp)+
  with W show ?thesis using to_int64_of_int [of "?W * 2"] by (simp add: min_int64_def max_int64_def)
qed

lemma nil_error_noscript: "\<not> isNoScriptErr nil_error"
  by (simp add: isNoScriptErr_def nil_error_def)

lemma script_error: "fst (tokenBucketScript ops clock key b r now n w s) = Inl er \<Longrightarrow> er = nil_error"
  by (auto simp: tokenBucketScript_def Let_def split: result_splits)

text \<open>A call either leaves the server alone and fails, or executes the script once.\<close>

lemma eval_script_cases:
  assumes "env_ok ahead env" "\<And>er. fst (script s) = Inl er \<Longrightarrow> \<not> isNoScriptErr er"
  shows "(snd (eval_script env script s) = s \<and> (\<exists>er. fst (eval_script env script s) = Err er)) \<or>
    (snd (eval_script env script s) = snd (script s) \<and> (\<forall>r. fst (eval_script env script s) = Ok r \<longrightarrow> fst (script s) = Ok r))"
  using assms(1)
  by (cases "script s"; cases "fst (script s)")
     (auto simp: eval_script_def server_call_def env_ok_def assms(2) split: result_splits)

lemma parse_allowed:
  assumes "parseResult result limit = Ok r" "r_Allowed r" "fst (tokenBucketScript ops clock key b ra now n w s) = Ok result" "0 \<le> m"
  shows "script_grant m (Ok result) = m"
  using assms by (auto simp: tokenBucketScript_def Let_def parseResult_def toInt64_def script_grant_def split: result_splits)

lemma script_grant_nonneg: "0 \<le> n \<Longrightarrow> 0 \<le> script_grant n r"
  by (auto simp: script_grant_def split: sum.split list.split)

locale redis_bucket = redis_server ops for ops :: "'s redis_ops" +
  fixes st :: RedisStore and k :: string and L :: Limit and ahead :: int
  assumes limit: "limit_ok L" and refills: "expiry_ok L"
begin

abbreviation K where "K \<equiv> rs_keyPrefix st @ k"
abbreviation ok where "ok \<equiv> redis_ok ops K L ahead"
abbreviation level where "level \<equiv> redis_level ops K L ahead"
abbreviation burst where "burst \<equiv> f64_burst L"
abbreviation script where "script now n \<equiv> tokenBucketScript ops (now + ahead) K (EffectiveBurst L) (RequestsPerSecond L) now n (Milliseconds (l_Window L))"

lemma ok_later: "ok t s \<Longrightarrow> t \<le> t' \<Longrightarrow> ok t' s"
  unfolding redis_ok_def by (meson order_trans)

lemma ok_cong:
  assumes "\<And>t f. ro_HMGET ops t K f s' = ro_HMGET ops t K f s"
  shows "ok t s' = ok t s" "level t s' = level t s"
  using assms by (simp_all add: redis_ok_def redis_level_def split: option.split)

lemma ok_bucket:
  assumes "ok t s"
  obtains tokens u where "script_bucket ops (t + ahead) K burst (of_int t) s = Some (tokens, of_int u)"
    "0 \<le> tokens" "tokens \<le> burst" "0 \<le> u" "u \<le> t"
    "level t s = min burst (tokens + of_int (t - u) * ms_rate L)"
proof -
  from assms obtain tokens u expiry where r: "0 \<le> t" "0 \<le> tokens" "tokens \<le> burst" "0 \<le> u" "u \<le> t"
    and h: "\<forall>t'\<ge>t. ro_HMGET ops (t' + ahead) K ''tokens'' s = (if t' < expiry then Some tokens else None) \<and>
      (t' < expiry \<longrightarrow> ro_HMGET ops (t' + ahead) K ''last_update'' s = Some (of_int u))"
    by (auto simp: redis_ok_def)
  show thesis
  proof (cases "t < expiry")
    case True
    with h have "ro_HMGET ops (t + ahead) K ''tokens'' s = Some tokens" "ro_HMGET ops (t + ahead) K ''last_update'' s = Some (of_int u)" by auto
    with r show thesis by (intro that [of tokens u]) (simp_all add: script_bucket_def redis_level_def)
  next
    case False
    with h have "ro_HMGET ops (t + ahead) K ''tokens'' s = None" by auto
    with r f64_burst_nonneg [OF limit] show thesis by (intro that [of burst t]) (simp_all add: script_bucket_def redis_level_def)
  qed
qed

lemma level_nonneg: "ok t s \<Longrightarrow> 0 \<le> level t s"
  by (erule ok_bucket) (use f64_burst_nonneg [OF limit] ms_rate_nonneg [OF limit] in \<open>auto intro!: add_nonneg_nonneg mult_nonneg_nonneg\<close>)

lemma level_upper: "level t s \<le> burst"
  by (auto simp: redis_level_def split: option.split)

lemma level_rises:
  assumes "ok t s" "t \<le> t'"
  shows "level t' s \<le> level t s + of_int (t' - t) * ms_rate L"
proof -
  have g: "0 \<le> of_int d * ms_rate L" if "0 \<le> d" for d :: int
    using that ms_rate_nonneg [OF limit] by (intro mult_nonneg_nonneg) simp_all
  from assms(1) obtain tokens u expiry where r: "burst \<le> tokens + of_int (expiry - u) * ms_rate L"
    and h: "\<forall>t'\<ge>t. ro_HMGET ops (t' + ahead) K ''tokens'' s = (if t' < expiry then Some tokens else None) \<and>
      (t' < expiry \<longrightarrow> ro_HMGET ops (t' + ahead) K ''last_update'' s = Some (of_int u))"
    by (auto simp: redis_ok_def)
  have l: "level x s = (if x < expiry then min burst (tokens + of_int (x - u) * ms_rate L) else burst)" if "t \<le> x" for x
    using h that by (auto simp: redis_level_def)
  have "burst \<le> tokens + of_int (t' - u) * ms_rate L" if "\<not> t' < expiry"
    using r g [of "t' - expiry"] that by (simp add: algebra_simps)
  then show ?thesis
    using l [of t] l [OF assms(2)] assms(2) g [of "t' - t"] by (auto simp: min_def algebra_simps)
qed

text \<open>One execution of the script keeps the invariant and grants no more than it takes from the level.\<close>

lemma script_bound:
  assumes s: "ok t s" and now: "t \<le> now" "now \<le> 9007199254740992" and n: "0 \<le> n" "n \<le> 9007199254740992"
  shows "ok now (snd (script now n s))"
    "of_int (script_grant n (fst (script now n s))) + level now (snd (script now n s)) \<le> level now s + rounding_slack L"
proof -
  let ?W = "Milliseconds (l_Window L)"
  have t0: "0 \<le> now" using s now by (simp add: redis_ok_def)
  have fnow: "fl (of_int now) = (of_int now :: rat)" using t0 now by simp
  obtain tokens u where b: "script_bucket ops (now + ahead) K burst (of_int now) s = Some (tokens, of_int u)"
    "0 \<le> tokens" "tokens \<le> burst" "0 \<le> u" "u \<le> now" "level now s = min burst (tokens + of_int (now - u) * ms_rate L)"
    using ok_bucket [OF ok_later [OF s now(1)]] by blast
  define x where "x = script_refill burst (RequestsPerSecond L) (of_int now) tokens (of_int u)"
  have "fl (of_int (now - u)) = (of_int (now - u) :: rat)" using b(4,5) now by (intro fl_of_int) simp
  then have x_eq: "x = f64_min burst (fl (tokens + fl (fl (of_int (now - u) / 1000) * RequestsPerSecond L)))"
    by (simp add: x_def script_refill_def Let_def)
  have d: "0 \<le> now - u" using b(5) by simp
  have x: "0 \<le> x" "x \<le> burst" "x \<le> level now s + unit_roundoff * burst" "fl x = x"
    unfolding x_eq b(6) using b(2) ms_refill [OF limit d] f64_burst_nonneg [OF limit]
    by (auto intro!: capped_refill simp: capped_range) (simp add: f64_min_def)
  note W = window_twice [OF limit]
  note tk = taken_bounds [OF n x(1,2)]
  have ft: "fl (taken n x) = taken n x" using x(4) by (simp add: taken_def)
  define s' where "s' = ro_PEXPIRE ops (now + ahead) K (2 * ?W) (ro_HMSET ops (now + ahead) K [(''tokens'', taken n x), (''last_update'', of_int now)] s)"
  have s': "snd (script now n s) = s'" "script_grant n (fst (script now n s)) = (if x \<ge> f64_of_int n then n else 0)"
    using b(1) W by (simp_all add: tokenBucketScript_def Let_def fnow x_def [symmetric] s'_def taken_def script_grant_def)
  have h: "ro_HMGET ops (t' + ahead) K ''tokens'' s' = (if t' < now + 2 * ?W then Some (taken n x) else None)"
    "ro_HMGET ops (t' + ahead) K ''last_update'' s' = (if t' < now + 2 * ?W then Some (of_int now) else None)" if "now \<le> t'" for t'
    using written [OF ft fnow _ s'_def, of "t' + ahead"] that by (simp_all add: algebra_simps)
  have full: "burst \<le> taken n x + of_int (2 * ?W) * ms_rate L" using expiry_refills [OF limit refills] tk(1) by linarith
  show "ok now (snd (script now n s))"
    unfolding s'(1) redis_ok_def using t0 tk(1,3) now full h
    by (intro conjI exI [of _ "taken n x"] exI [of _ now] exI [of _ "now + 2 * ?W"]) auto
  have "level now s' = taken n x"
    using h [of now] tk(3) full window_ms [OF limit] by (auto simp: redis_level_def)
  with tk(2) x(3) show "of_int (script_grant n (fst (script now n s))) + level now (snd (script now n s)) \<le> level now s + rounding_slack L"
    by (simp add: s')
qed

lemma take_bound:
  assumes s: "ok t s" and t: "t \<le> UnixMilli (re_Now env)" and e: "env_ok ahead env" and n: "0 \<le> n" "n \<le> 9007199254740992"
  shows "ok (UnixMilli (re_Now env)) (snd (redis_Take ops st env k L n s))"
    "of_int (rop_grant ops st k (RTake env k L n) s) + level (UnixMilli (re_Now env)) (snd (redis_Take ops st env k L n s))
      \<le> level (UnixMilli (re_Now env)) s + rounding_slack L"
proof -
  let ?now = "UnixMilli (re_Now env)"
  have now: "?now \<le> 9007199254740992" "re_Clock env = ?now + ahead" using e by (auto simp: env_ok_def)
  let ?e = "eval_script env (script ?now n) s"
  have tk: "redis_Take ops st env k L n s = (case fst ?e of Inl er \<Rightarrow> Err er | Inr result \<Rightarrow> parseResult result L, snd ?e)"
    by (auto simp: redis_Take_def Let_def now(2) split: prod.split sum.split)
  have u: "0 \<le> rounding_slack L" using slack_nonneg [OF limit] by simp
  note b = script_bound [OF s t now(1) n]
  have "(snd ?e = s \<and> (\<exists>er. fst ?e = Err er)) \<or> (snd ?e = snd (script ?now n s) \<and> (\<forall>r. fst ?e = Ok r \<longrightarrow> fst (script ?now n s) = Ok r))"
    by (rule eval_script_cases [OF e]) (drule script_error, simp add: nil_error_noscript)
  then have "ok ?now (snd ?e) \<and> of_int (rop_grant ops st k (RTake env k L n) s) + level ?now (snd ?e) \<le> level ?now s + rounding_slack L"
  proof (elim disjE conjE exE, goal_cases none one)
    case none
    with ok_later [OF s t] u show ?thesis by (simp add: tk)
  next
    case one
    have "rop_grant ops st k (RTake env k L n) s \<le> script_grant n (fst (script ?now n s))"
    proof (cases "\<exists>result r. fst ?e = Ok result \<and> parseResult result L = Ok r \<and> r_Allowed r")
      case True
      then obtain result r where r: "fst ?e = Ok result" "parseResult result L = Ok r" "r_Allowed r" by blast
      with one(2) have sc: "fst (script ?now n s) = Ok result" by simp
      from r parse_allowed [OF r(2,3) sc n(1)] show ?thesis by (simp add: tk sc)
    next
      case False
      with script_grant_nonneg [OF n(1)] show ?thesis by (auto simp: tk split: sum.split)
    qed
    then have "(of_int (rop_grant ops st k (RTake env k L n) s) :: rat) \<le> of_int (script_grant n (fst (script ?now n s)))"
      by (simp only: of_int_le_iff)
    with b one(1) show ?thesis by (simp del: rop_grant.simps)
  qed
  then show "ok ?now (snd (redis_Take ops st env k L n s))"
    "of_int (rop_grant ops st k (RTake env k L n) s) + level ?now (snd (redis_Take ops st env k L n s)) \<le> level ?now s + rounding_slack L"
    by (simp_all add: tk)
qed

lemma take_other:
  assumes "key \<noteq> k"
  shows "ro_HMGET ops clock K f (snd (redis_Take ops st env key lm n s)) = ro_HMGET ops clock K f s"
proof -
  let ?full = "rs_keyPrefix st @ key"
  have "?full \<noteq> K" using assms by simp
  then show ?thesis
    using script_frame [of K ?full]
    by (auto simp: redis_Take_def eval_script_def server_call_def Let_def split: option.split prod.split sum.split)
       (metis snd_conv)+
qed

lemma reset_bound:
  assumes s: "ok t s" and t: "t \<le> UnixMilli (re_Now env)"
  shows "ok (UnixMilli (re_Now env)) (snd (redis_Reset ops st env key s))"
    "level (UnixMilli (re_Now env)) (snd (redis_Reset ops st env key s)) \<le> level (UnixMilli (re_Now env)) s + of_nat (rop_resets k (RReset env key)) * burst"
proof -
  let ?now = "UnixMilli (re_Now env)"
  have d: "ro_HMGET ops clock K f (ro_DEL ops c K s) = None" for clock f c by (rule del)
  have o: "key \<noteq> k \<Longrightarrow> ro_HMGET ops clock K f (ro_DEL ops c (rs_keyPrefix st @ key) s) = ro_HMGET ops clock K f s" for clock f c
    by (rule del_frame) simp
  note s' = ok_later [OF s t]
  have "ok ?now (ro_DEL ops c K s)" for c
    using s' f64_burst_nonneg [OF limit] d unfolding redis_ok_def
    by (intro conjI exI [of _ burst] exI [of _ "0::int"]) auto
  moreover have "level ?now s' \<le> level ?now s + burst" for s'
    using level_upper [of ?now s'] level_nonneg [OF s'] by linarith
  moreover have "ok ?now (ro_DEL ops c (rs_keyPrefix st @ key) s)" "level ?now (ro_DEL ops c (rs_keyPrefix st @ key) s) = level ?now s" if "key \<noteq> k" for c
    using ok_cong [OF o [OF that]] s' by auto
  ultimately show "ok ?now (snd (redis_Reset ops st env key s))"
    "level ?now (snd (redis_Reset ops st env key s)) \<le> level ?now s + of_nat (rop_resets k (RReset env key)) * burst"
    using s' f64_burst_nonneg [OF limit] by (cases "key = k"; auto simp: redis_Reset_def Let_def split: option.split)+
qed

end


text \<open>The Redis store is metered like the in-memory store.\<close>

sublocale redis_bucket \<subseteq> bucket: meter rop_time "rop_step ops st" "rop_grant ops st k" "rop_cost k L" "rop_ok k L ahead"
  "redis_ok ops (rs_keyPrefix st @ k) L ahead" "redis_level ops (rs_keyPrefix st @ k) L ahead" "ms_rate L"
proof
  fix t s op
  assume s: "ok t s" and t: "t \<le> rop_time op" and adm: "rop_ok k L ahead op"
  have u: "0 \<le> rounding_slack L" using slack_nonneg [OF limit] by simp
  have "ok (rop_time op) (rop_step ops st op s) \<and>
    of_int (rop_grant ops st k op s) + level (rop_time op) (rop_step ops st op s) \<le> level (rop_time op) s + rop_cost k L op"
  proof (cases op)
    case (RTake env key lm n)
    show ?thesis
    proof (cases "key = k")
      case True
      with RTake adm t take_bound [OF s, of env n] show ?thesis by (simp add: rop_time_def rop_cost_def del: rop_grant.simps)
    next
      case False
      with RTake ok_cong [OF take_other [OF False, of _ _ env lm n s]] ok_later [OF s t] u show ?thesis by (simp add: rop_cost_def)
    qed
  next
    case (RPeek env key lm)
    with ok_later [OF s t] u show ?thesis by (simp add: rop_cost_def)
  next
    case (RReset env key)
    with t u reset_bound [OF s, of env key] show ?thesis by (auto simp: rop_time_def rop_cost_def)
  qed
  then show "ok (rop_time op) (rop_step ops st op s)"
    "of_int (rop_grant ops st k op s) + level (rop_time op) (rop_step ops st op s) \<le> level (rop_time op) s + rop_cost k L op" by auto
qed (fact level_rises level_nonneg)+

lemma rop_cost_sum: "sum_list (map (rop_cost k L) run) = of_nat (length run) * rounding_slack L + of_nat (sum_list (map (rop_resets k) run)) * f64_burst L"
  by (induction run) (simp_all add: rop_cost_def algebra_simps)

context redis_bucket
begin

lemma shared_bound:
  assumes "ok t s" "in_order rop_time (rop_ok k L ahead) t run"
  shows "of_int (sum_grants (rop_step ops st) (rop_grant ops st k) run s)
    \<le> burst + of_int (run_until rop_time t run - t) * ms_rate L + of_nat (length run) * rounding_slack L
      + of_nat (sum_list (map (rop_resets k) run)) * burst"
  using bucket.run_bound [OF assms] level_upper [of t s] by (simp add: rop_cost_sum)

end

lemma redis_ok_fresh:
  assumes "0 \<le> t" "limit_ok L" "\<And>clock f. ro_HMGET ops clock K f s = None"
  shows "redis_ok ops K L ahead t s"
  using assms f64_burst_nonneg [OF assms(2)] unfolding redis_ok_def
  by (intro conjI exI [of _ "f64_burst L"] exI [of _ "0::int"]) auto

text \<open>C15. Admission bound of the shared buckets: on a server that behaves as documented, whatever takes, peeks and
  resets any number of gateway processes with synchronised clocks perform, and whichever of their calls fail, with or
  without effect, the tokens granted on a key are at most its burst, one burst more per reset, the refill of the
  elapsed time at the configured rate, and the rounding of two float64 operations per step, provided that the refill
  of two windows, after which an idle bucket expires, covers the burst.\<close>

theorem redis_admission_bound:
  assumes "redis_server ops" "limit_ok L" "expiry_ok L" "redis_ok ops (rs_keyPrefix st @ k) L ahead t s"
    "in_order rop_time (rop_ok k L ahead) t run"
  shows "of_int (sum_grants (rop_step ops st) (rop_grant ops st k) run s)
    \<le> f64_burst L * (1 + of_nat (sum_list (map (rop_resets k) run)))
      + of_int (run_until rop_time t run - t) * (RequestsPerSecond L * (1 + unit_roundoff) ^ 4 / 1000)
      + of_nat (length run) * (2 * unit_roundoff * f64_burst L)"
proof -
  have b: "redis_bucket ops L" using assms(1-3) by (simp add: redis_bucket_def redis_bucket_axioms_def)
  from redis_bucket.shared_bound [OF b assms(4,5)] show ?thesis by (simp add: ms_rate_def algebra_simps)
qed


definition demo_store :: RedisStore where
  "demo_store = \<lparr>rs_takeScriptSHA = ''a'', rs_peekScriptSHA = ''b'', rs_keyPrefix = ''ratelimit:''\<rparr>"

definition demo_at :: "int \<Rightarrow> failure \<Rightarrow> redis_env" where
  "demo_at ms f = \<lparr>re_Now = unix_epoch + ms * Millisecond, re_Clock = ms, re_EvalSha = f, re_Eval = None, re_Del = None\<rparr>"

definition demo_limit :: "int \<Rightarrow> int \<Rightarrow> Limit" where
  "demo_limit requests burst = \<lparr>l_Requests = requests, l_Window = Second, l_Burst = burst\<rparr>"

text \<open>A run on an empty server: takes at once, one with the script unknown to the server, one whose answer is lost,
  a take of another key, a reset and a take.\<close>

definition demo_run :: "redis_op list" where
  "demo_run = (let L = demo_limit 2 4
     in [RTake (demo_at 0 None) ''u:ada'' L 3,
         RTake (demo_at 0 (Some (''NOSCRIPT No matching script. Please use EVAL.'', False))) ''u:ada'' L 1,
         RTake (demo_at 0 None) ''u:ada'' L 1,
         RTake (demo_at 500 (Some (''i/o timeout'', True))) ''u:ada'' L 1,
         RTake (demo_at 600 None) ''u:bob'' L 4,
         RReset (demo_at 700 None) ''u:ada'',
         RTake (demo_at 800 None) ''u:ada'' L 4])"

interpretation demo_bucket: redis_bucket keyspace_ops demo_store "''u:ada''" "demo_limit 2 4" 0
  by unfold_locales (code_simp, code_simp)

lemma UnixMilli_ms [simp]: "UnixMilli (unix_epoch + ms * Millisecond) = ms"
  by (simp add: UnixMilli_def duration_units)

lemma UnixMilli_epoch [simp]: "UnixMilli unix_epoch = 0"
  by (simp add: UnixMilli_def)

theorem redis_admission_bound_witness:
  "of_int (sum_grants (rop_step keyspace_ops demo_store) (rop_grant keyspace_ops demo_store ''u:ada'') demo_run [])
    \<le> 4 * 2 + 800 * (RequestsPerSecond (demo_limit 2 4) * (1 + unit_roundoff) ^ 4 / 1000) + 7 * (2 * unit_roundoff * (4 :: rat))"
proof -
  let ?L = "demo_limit 2 4"
  have L: "limit_ok ?L" "expiry_ok ?L" by code_simp+
  have s: "redis_ok keyspace_ops (rs_keyPrefix demo_store @ ''u:ada'') ?L 0 0 []"
    by (rule redis_ok_fresh [OF _ L(1)]) (simp_all add: keyspace_ops_def live_hash_def)
  have r: "in_order rop_time (rop_ok ''u:ada'' ?L 0) 0 demo_run"
    by (simp add: demo_run_def Let_def rop_time_def env_ok_def demo_at_def isNoScriptErr_def)
  have e: "f64_burst ?L = 4" "sum_list (map (rop_resets ''u:ada'') demo_run) = 1" "run_until rop_time 0 demo_run = 800" "length demo_run = 7"
    by code_simp+
  from redis_admission_bound [OF keyspace.redis_server_axioms L s r] show ?thesis by (simp add: e)
qed

lemma fl_numeral: "(numeral n :: int) \<le> 9007199254740992 \<Longrightarrow> fl (numeral n) = numeral n"
  using fl_of_int [of "numeral n"] by simp

lemma full_take:
  assumes "live_hash ms (rs_keyPrefix demo_store @ k) s = None" "0 \<le> ms" "ms \<le> 9007199254740992"
  shows "\<exists>r. redis_Take keyspace_ops demo_store (demo_at ms None) k (demo_limit 1 10) 10 s =
    (Ok r, mput (rs_keyPrefix demo_store @ k) ([(''tokens'', 0), (''last_update'', of_int ms)], Some (ms + 2000)) s) \<and> r_Allowed r"
proof -
  let ?L = "demo_limit 1 10"
  have e: "RequestsPerSecond ?L = 1" "Milliseconds (l_Window ?L) = 1000" "f64_to_int64 (Some 2000) = 2000" "EffectiveBurst ?L = 10" by code_simp+
  have ms: "fl (of_int ms) = (of_int ms :: rat)" using assms(2,3) by simp
  show ?thesis
    using assms(1) ms
    by (simp add: redis_Take_def eval_script_def server_call_def demo_at_def tokenBucketScript_def script_bucket_def script_refill_def
        keyspace_ops_def parseResult_def toInt64_def f64_min_def fl_numeral e Let_def) (simp add: live_hash_def)
qed

text \<open>Without the condition on the expiry the bound fails: a limit of one request per second with a burst of ten grants
  twenty requests in two seconds, because the drained bucket expires after two windows and starts again full.\<close>

lemma early_expiry_grants:
  "\<not> expiry_ok (demo_limit 1 10)"
  "sum_grants (rop_step keyspace_ops demo_store) (rop_grant keyspace_ops demo_store ''u:ada'')
     [RTake (demo_at 0 None) ''u:ada'' (demo_limit 1 10) 10, RTake (demo_at 2000 None) ''u:ada'' (demo_limit 1 10) 10] [] = 20"
proof -
  show "\<not> expiry_ok (demo_limit 1 10)" by code_simp
  obtain r1 s1 where 1: "redis_Take keyspace_ops demo_store (demo_at 0 None) ''u:ada'' (demo_limit 1 10) 10 [] = (Ok r1, s1)" "r_Allowed r1"
    "s1 = mput (rs_keyPrefix demo_store @ ''u:ada'') ([(''tokens'', 0), (''last_update'', 0)], Some 2000) []"
    using full_take [of 0 "''u:ada''" "[]"] by (auto simp: live_hash_def)
  obtain r2 s2 where 2: "redis_Take keyspace_ops demo_store (demo_at 2000 None) ''u:ada'' (demo_limit 1 10) 10 s1 = (Ok r2, s2)" "r_Allowed r2"
    using full_take [of 2000 "''u:ada''" s1] by (auto simp: live_hash_def 1(3))
  show "sum_grants (rop_step keyspace_ops demo_store) (rop_grant keyspace_ops demo_store ''u:ada'')
     [RTake (demo_at 0 None) ''u:ada'' (demo_limit 1 10) 10, RTake (demo_at 2000 None) ''u:ada'' (demo_limit 1 10) 10] [] = 20"
    using 1(1,2) 2 by simp
qed

text \<open>A request for several tokens that is denied while one is left gets no waiting time.\<close>

lemma denied_without_retry: "1 \<le> remaining \<Longrightarrow> remaining \<le> 9007199254740992 \<Longrightarrow> redis_retry False remaining L = 0"
proof -
  assume r: "1 \<le> remaining" "remaining \<le> 9007199254740992"
  then have "fl (of_int remaining) = (of_int remaining :: rat)" by simp
  moreover have "fl (of_int (1 - remaining)) = (of_int (1 - remaining) :: rat)" using r by (intro fl_of_int) simp
  ultimately show ?thesis using r by (simp add: redis_retry_def Let_def)
qed

end
