(* ===== verification/Disabled.thy ===== *)
theory Disabled
  imports Apikeys Quota Usage_Tracker Ratelimit_Limiter Ratelimit_Redis
begin

text \<open>
  Components that are switched off, and the no-op implementations of their interfaces: \<open>NoopManager\<close> of API keys and of quotas,
  \<open>NoopTracker\<close> and \<open>NoopLimiter\<close>. A call of a component is a value, and so is its answer. At the
  end, what the WebSocket gateway does without a limiter or a router.

  Shown here, once for all in the locale \<open>switched_off\<close> and through its interpretations on the four components: a component that
  its configuration disables goes through any sequence of calls unchanged and answers each as the no-op does, up to
  the calls at which the two differ, which are named.
\<close>

section \<open>Sequences of calls\<close>

fun run_calls :: "('c \<Rightarrow> 'm \<Rightarrow> 'a \<times> 'm) \<Rightarrow> 'c list \<Rightarrow> 'm \<Rightarrow> 'a list \<times> 'm" where
  "run_calls step [] m = ([], m)"
| "run_calls step (c # cs) m =
     (case step c m of (a, m1) \<Rightarrow> (case run_calls step cs m1 of (as, m2) \<Rightarrow> (a # as, m2)))"

locale switched_off =
  fixes step :: "'c \<Rightarrow> 'm \<Rightarrow> 'a \<times> 'm" and off :: "'m \<Rightarrow> bool" and noop :: "'c \<Rightarrow> 'a" and differs :: "'c \<Rightarrow> bool"
  assumes unchanged: "off m \<Longrightarrow> snd (step c m) = m"
    and answers: "off m \<Longrightarrow> \<not> differs c \<Longrightarrow> fst (step c m) = noop c"
begin

lemma run_unchanged: "off m \<Longrightarrow> snd (run_calls step cs m) = m"
proof (induction cs)
  case (Cons c cs)
  with unchanged [OF Cons.prems, of c] show ?case by (cases "step c m") (auto split: prod.split)
qed simp

lemma run_answers: "off m \<Longrightarrow> list_all (\<lambda>c. \<not> differs c) cs \<Longrightarrow> fst (run_calls step cs m) = map noop cs"
proof (induction cs)
  case (Cons c cs)
  with unchanged [OF Cons.prems(1), of c] answers [OF Cons.prems(1), of c] show ?case by (cases "step c m") (auto split: prod.split)
qed simp

lemma run_off: "off m \<Longrightarrow> list_all (\<lambda>c. \<not> differs c) cs \<Longrightarrow> run_calls step cs m = (map noop cs, m)"
  using run_unchanged run_answers by (metis prod.collapse)

end


section \<open>API keys\<close>

datatype key_call =
    Create_key create_inputs CreateKeyRequest | Get_key string | List_keys string string | Validate_key time string
  | Revoke_key time string | Rotate_key rotate_inputs string | Touch_key time string | Close_keys

datatype key_answer =
    Created "(key_error, CreateKeyResult) result" | Found "(key_error, APIKey) result" | Listed "(key_error, APIKey list) result"
  | Done "(key_error, unit) result" | Closed_keys "(string, unit) result"

text \<open>\<open>close_op\<close> closes the store.\<close>

definition key_Close :: "('s \<Rightarrow> (string, unit) result \<times> 's) \<Rightarrow> 's Apikeys.DefaultManager \<Rightarrow> (string, unit) result \<times> 's Apikeys.DefaultManager" where
  "key_Close close_op m =
     (case dm_store m of None \<Rightarrow> (Ok (), m) | Some s \<Rightarrow> (case close_op s of (r, s') \<Rightarrow> (r, m\<lparr>dm_store := Some s'\<rparr>)))"

fun key_step :: "(string \<Rightarrow> string) \<Rightarrow> 's Apikeys.Store \<Rightarrow> ('s \<Rightarrow> (string, unit) result \<times> 's) \<Rightarrow> key_call \<Rightarrow> 's Apikeys.DefaultManager \<Rightarrow>
    key_answer \<times> 's Apikeys.DefaultManager" where
  "key_step sha256 ops close_op (Create_key inp req) m = map_prod Created (\<lambda>m. m) (Create sha256 ops inp req m)"
| "key_step sha256 ops close_op (Get_key kid) m = (Found (Get ops kid m), m)"
| "key_step sha256 ops close_op (List_keys tenantID userID) m = (Listed (Apikeys.List ops tenantID userID m), m)"
| "key_step sha256 ops close_op (Validate_key now plaintextKey) m = (Found (Validate sha256 ops now plaintextKey m), m)"
| "key_step sha256 ops close_op (Revoke_key now kid) m = map_prod Done (\<lambda>m. m) (Revoke ops now kid m)"
| "key_step sha256 ops close_op (Rotate_key inp kid) m = map_prod Created (\<lambda>m. m) (Rotate sha256 ops inp kid m)"
| "key_step sha256 ops close_op (Touch_key now kid) m = map_prod Done (\<lambda>m. m) (UpdateLastUsed ops now kid m)"
| "key_step sha256 ops close_op Close_keys m = map_prod Closed_keys (\<lambda>m. m) (key_Close close_op m)"

fun key_NoopManager :: "key_call \<Rightarrow> key_answer" where
  "key_NoopManager (Create_key inp req) = Created (Err ErrDisabled)"
| "key_NoopManager (Get_key kid) = Found (Err ErrKeyNotFound)"
| "key_NoopManager (List_keys tenantID userID) = Listed (Ok [])"
| "key_NoopManager (Validate_key now plaintextKey) = Found (Err ErrKeyNotFound)"
| "key_NoopManager (Revoke_key now kid) = Done (Err ErrKeyNotFound)"
| "key_NoopManager (Rotate_key inp kid) = Created (Err ErrKeyNotFound)"
| "key_NoopManager (Touch_key now kid) = Done (Ok ())"
| "key_NoopManager Close_keys = Closed_keys (Ok ())"

definition key_Enabled :: "'s Apikeys.DefaultManager \<Rightarrow> bool" where "key_Enabled m = dm_enabled m"

text \<open>Revoking and rotating differ in the error: the manager says that it is disabled, the no-op that there is no such key.\<close>

fun key_differs :: "key_call \<Rightarrow> bool" where
  "key_differs (Revoke_key now kid) \<longleftrightarrow> True"
| "key_differs (Rotate_key inp kid) \<longleftrightarrow> True"
| "key_differs c \<longleftrightarrow> False"

lemma keys_off_unchanged: "\<not> key_Enabled m \<and> dm_store m = None \<Longrightarrow> snd (key_step sha256 ops close_op c m) = m"
  by (cases c) (simp_all add: key_Enabled_def Create_def Revoke_def Rotate_def UpdateLastUsed_def key_Close_def)

lemma keys_off_answers: "\<not> key_Enabled m \<and> dm_store m = None \<Longrightarrow> \<not> key_differs c \<Longrightarrow> fst (key_step sha256 ops close_op c m) = key_NoopManager c"
  by (cases c) (simp_all add: key_Enabled_def Create_def Get_def List_def Validate_def UpdateLastUsed_def key_Close_def)

interpretation keys_off: switched_off "key_step sha256 ops close_op" "\<lambda>m. \<not> key_Enabled m \<and> dm_store m = None" key_NoopManager key_differs
  by unfold_locales (use keys_off_unchanged keys_off_answers in \<open>blast+\<close>)

lemma key_differences:
  "\<not> key_Enabled m \<Longrightarrow> fst (key_step sha256 ops close_op (Revoke_key now kid) m) = Done (Err ErrDisabled)"
  "\<not> key_Enabled m \<Longrightarrow> fst (key_step sha256 ops close_op (Rotate_key inp kid) m) = Created (Err ErrDisabled)"
  by (simp_all add: key_Enabled_def Revoke_def Rotate_def)


section \<open>Quotas\<close>

datatype quota_call =
    Check_quota time string string string int | Increment_usage time string string string int | Get_usage time string string string
  | Set_quota time Quota | Get_quota string string string | Close_quotas

datatype quota_answer =
    Checked "CheckResult \<times> quota_error option \<times> Billing.Event list" | Counted "(quota_error, unit) result"
  | Used "(quota_error, Usage) result" | Defined "(quota_error, Quota) result" | Closed_quotas "(string, unit) result"

definition quota_Close :: "('s \<Rightarrow> (string, unit) result \<times> 's) \<Rightarrow> 's Quota.DefaultManager \<Rightarrow> (string, unit) result \<times> 's Quota.DefaultManager" where
  "quota_Close close_op m =
     (case qm_store m of None \<Rightarrow> (Ok (), m) | Some s \<Rightarrow> (case close_op s of (r, s') \<Rightarrow> (r, m\<lparr>qm_store := Some s'\<rparr>)))"

fun quota_call_step :: "'s Quota.Store \<Rightarrow> ('s \<Rightarrow> (string, unit) result \<times> 's) \<Rightarrow> quota_call \<Rightarrow> 's Quota.DefaultManager \<Rightarrow> quota_answer \<times> 's Quota.DefaultManager" where
  "quota_call_step ops close_op (Check_quota now tn us ty cost) m = (Checked (Check ops now tn us ty cost m), m)"
| "quota_call_step ops close_op (Increment_usage now tn us ty amount) m = map_prod Counted (\<lambda>m. m) (Increment ops now tn us ty amount m)"
| "quota_call_step ops close_op (Get_usage now tn us ty) m = (Used (GetUsage ops now tn us ty m), m)"
| "quota_call_step ops close_op (Set_quota now quota) m = map_prod Counted (\<lambda>m. m) (SetQuota ops now quota m)"
| "quota_call_step ops close_op (Get_quota tn us ty) m = (Defined (GetQuota ops tn us ty m), m)"
| "quota_call_step ops close_op Close_quotas m = map_prod Closed_quotas (\<lambda>m. m) (quota_Close close_op m)"

definition zero_Usage :: Usage where
  "zero_Usage = \<lparr>us_TenantID = [], us_UserID = [], us_Type = [], us_PeriodStart = 0, us_PeriodEnd = 0, us_Current = 0, us_LastUpdated = 0\<rparr>"

fun quota_NoopManager :: "quota_call \<Rightarrow> quota_answer" where
  "quota_NoopManager (Check_quota now tn us ty cost) = Checked (allowed_check, None, [])"
| "quota_NoopManager (Increment_usage now tn us ty amount) = Counted (Ok ())"
| "quota_NoopManager (Get_usage now tn us ty) = Used (Ok zero_Usage)"
| "quota_NoopManager (Set_quota now quota) = Counted (Ok ())"
| "quota_NoopManager (Get_quota tn us ty) = Defined (Err ErrQuotaNotFound)"
| "quota_NoopManager Close_quotas = Closed_quotas (Ok ())"

text \<open>Setting a quota differs: the no-op accepts it, the manager has no store to put it in. A manager that \<open>New\<close> built disabled
  has no store.\<close>

fun quota_differs :: "quota_call \<Rightarrow> bool" where
  "quota_differs (Set_quota now quota) \<longleftrightarrow> True"
| "quota_differs c \<longleftrightarrow> False"

lemma quotas_off_unchanged: "\<not> Quota.Enabled m \<and> qm_store m = None \<Longrightarrow> snd (quota_call_step ops close_op c m) = m"
  by (cases c) (simp_all add: Quota.Enabled_def Increment_def SetQuota_def quota_Close_def)

lemma quotas_off_answers: "\<not> Quota.Enabled m \<and> qm_store m = None \<Longrightarrow> \<not> quota_differs c \<Longrightarrow> fst (quota_call_step ops close_op c m) = quota_NoopManager c"
  by (cases c) (simp_all add: Quota.Enabled_def Check_def Increment_def GetUsage_def GetQuota_def zero_Usage_def quota_Close_def)

interpretation quotas_off: switched_off "quota_call_step ops close_op" "\<lambda>m. \<not> Quota.Enabled m \<and> qm_store m = None" quota_NoopManager quota_differs
  by unfold_locales (use quotas_off_unchanged quotas_off_answers in \<open>blast+\<close>)

lemma quota_difference:
  "qm_store m = None \<Longrightarrow> fst (quota_call_step ops close_op (Set_quota now quota) m) = Counted (Err (ErrStoreFailure ''quota store not initialized''))"
  by (simp add: SetQuota_def)


section \<open>Usage\<close>

datatype tracker_call =
    Track_event string time Usage_Store.Event | Query_events flush_env QueryParams | Summarize flush_env string string time time
  | Close_tracker flush_env

datatype tracker_answer = Nothing | Events "(string, Usage_Store.Event list) result" | Summed "(string, Summary) result"

fun tracker_step :: "'s Usage_Tracker.Store \<Rightarrow> tracker_call \<Rightarrow> 's DefaultTracker \<Rightarrow> tracker_answer \<times> 's DefaultTracker" where
  "tracker_step ops (Track_event uuid now event) t = (Nothing, Track uuid now event t)"
| "tracker_step ops (Query_events env params) t = map_prod Events (\<lambda>t. t) (Query ops env params t)"
| "tracker_step ops (Summarize env tenantID userID start end_time) t =
     map_prod Summed (\<lambda>t. t) (GetSummary ops env tenantID userID start end_time t)"
| "tracker_step ops (Close_tracker env) t = (Nothing, Usage_Tracker.Close ops env t)"

fun NoopTracker :: "tracker_call \<Rightarrow> tracker_answer" where
  "NoopTracker (Track_event uuid now event) = Nothing"
| "NoopTracker (Query_events env params) = Events (Ok [])"
| "NoopTracker (Summarize env tenantID userID start end_time) = Summed (Ok empty_summary)"
| "NoopTracker (Close_tracker env) = Nothing"

lemma tracker_off_unchanged: "\<not> Usage_Tracker.Enabled t \<Longrightarrow> snd (tracker_step ops c t) = t"
  by (cases c) (simp_all add: Usage_Tracker.Enabled_def Track_def Query_def GetSummary_def Usage_Tracker.Close_def)

lemma tracker_off_answers: "\<not> Usage_Tracker.Enabled t \<Longrightarrow> fst (tracker_step ops c t) = NoopTracker c"
  by (cases c) (simp_all add: Usage_Tracker.Enabled_def Query_def GetSummary_def)

interpretation tracker_off: switched_off "tracker_step ops" "\<lambda>t. \<not> Usage_Tracker.Enabled t" NoopTracker "\<lambda>c. False"
  by unfold_locales (use tracker_off_unchanged tracker_off_answers in \<open>blast+\<close>)


section \<open>Rate limits\<close>

datatype limiter_call = Allow_n call_envs Key int | Peek_at call_envs Key | Reset_key call_env Key

text \<open>The answer of a limiter; \<open>None\<close> is a nil dereference.\<close>

datatype limiter_answer = Limited "(Result \<times> limit_error option) option" | Was_reset "(string, unit) result"

fun limiter_step :: "'s take_fn \<Rightarrow> 's peek_fn \<Rightarrow> 's reset_fn \<Rightarrow> limiter_call \<Rightarrow> 's HierarchicalLimiter \<Rightarrow> limiter_answer \<times> 's HierarchicalLimiter" where
  "limiter_step take_op peek_op reset_op (Allow_n env key n) l =
     (case AllowN take_op env key n l of None \<Rightarrow> (Limited None, l) | Some (r, er, l') \<Rightarrow> (Limited (Some (r, er)), l'))"
| "limiter_step take_op peek_op reset_op (Peek_at env key) l = (Limited (map_option (\<lambda>r. (r, None)) (Limiter_Peek peek_op env key l)), l)"
| "limiter_step take_op peek_op reset_op (Reset_key e key) l = map_prod Was_reset (\<lambda>l. l) (Limiter_Reset reset_op e key l)"

fun NoopLimiter :: "limiter_call \<Rightarrow> limiter_answer" where
  "NoopLimiter (Allow_n env key n) = Limited (Some (Noop_AllowN key n))"
| "NoopLimiter (Peek_at env key) = Limited (Some (allowed_Result, None))"
| "NoopLimiter (Reset_key e key) = Was_reset (Ok ())"

definition limiter_Enabled :: "'s HierarchicalLimiter \<Rightarrow> bool" where "limiter_Enabled l = h_enabled l"

lemma limiter_off_unchanged: "\<not> limiter_Enabled l \<Longrightarrow> snd (limiter_step take_op peek_op reset_op c l) = l"
  by (cases c) (auto simp: limiter_Enabled_def AllowN_def Limiter_Reset_def split: option.split)

lemma limiter_off_answers: "\<not> limiter_Enabled l \<Longrightarrow> fst (limiter_step take_op peek_op reset_op c l) = NoopLimiter c"
  by (cases c) (auto simp: limiter_Enabled_def AllowN_def Noop_AllowN_def Limiter_Peek_def Limiter_Reset_def split: option.split)

interpretation limiter_off: switched_off "limiter_step take_op peek_op reset_op" "\<lambda>l. \<not> limiter_Enabled l" NoopLimiter "\<lambda>c. False"
  by unfold_locales (use limiter_off_unchanged limiter_off_answers in \<open>blast+\<close>)

text \<open>A limiter on a client that is already connected; the client's answers to the loading of the two scripts are parameters.\<close>

definition NewFromRedisClient :: "(string, string) result \<Rightarrow> (string, string) result \<Rightarrow> Ratelimit.Config \<Rightarrow> (string, RedisStore HierarchicalLimiter) result" where
  "NewFromRedisClient loadTake loadPeek cfg =
     (if \<not> c_Enabled cfg then Ok \<lparr>h_store = None, h_cfg = cfg, h_enabled = False\<rparr>
      else (case NewRedisStore loadTake loadPeek [] of
              Inl er \<Rightarrow> Err er
            | Inr store \<Rightarrow> Ok \<lparr>h_store = Some store, h_cfg = cfg, h_enabled = True\<rparr>))"

lemma NewFromRedisClient_store:
  "NewFromRedisClient loadTake loadPeek cfg = Ok l \<Longrightarrow> limiter_Enabled l = c_Enabled cfg \<and> (h_store l \<noteq> None \<longleftrightarrow> limiter_Enabled l)"
  by (auto simp: NewFromRedisClient_def limiter_Enabled_def split: if_splits sum.splits)


section \<open>Absent parts of the WebSocket gateway\<close>

text \<open>\<open>isNilRateLimiter\<close>: an interface value is nil, or it holds a value of some kind, which for a kind with a nil may be that nil
  (\<open>nil_inside\<close>): a nil pointer in an interface is not a nil interface.\<close>

datatype kind = Chan | Func | Interface | Map | Pointer | Slice | Other_kind

record interface_value =
  iv_Kind :: kind
  iv_nil_inside :: bool

definition isNilRateLimiter :: "interface_value option \<Rightarrow> bool" where
  "isNilRateLimiter limiter =
     (case limiter of
        None \<Rightarrow> True
      | Some v \<Rightarrow> if iv_Kind v \<in> {Chan, Func, Interface, Map, Pointer, Slice} then iv_nil_inside v else False)"

text \<open>A limiter is consulted exactly if there is one: its adapter is a pointer, which may be nil.\<close>

lemma isNilRateLimiter_adapter:
  "isNilRateLimiter None" "isNilRateLimiter (Some \<lparr>iv_Kind = Pointer, iv_nil_inside = b\<rparr>) = b"
  "isNilRateLimiter (Some \<lparr>iv_Kind = Other_kind, iv_nil_inside = b\<rparr>) = False"
  by (simp_all add: isNilRateLimiter_def)

text \<open>\<open>ResolveServer\<close> of a gateway that may be nil and whose router may be; the router belongs to a library.\<close>

definition ResolveServer :: "(string \<Rightarrow> string \<Rightarrow> 'a \<Rightarrow> (string, string) result) option option \<Rightarrow> string \<Rightarrow> string \<Rightarrow> 'a \<Rightarrow>
    (string, string) result" where
  "ResolveServer g profile tool args =
     (case g of
        Some (Some router) \<Rightarrow> router profile tool args
      | _ \<Rightarrow> Err ''router not initialized'')"

end
