(* ===== verification/Mcpws_Run.thy ===== *)
theory Mcpws_Run
  imports Mcpws
begin

text \<open>
  The package \<open>internal/mcpws\<close>: the message loop of a session (\<open>Run\<close> and \<open>Close\<close>). The loop reads one frame after
  the other. A notification is handled before the next frame is read; a request is handled by a goroutine of its own,
  which holds one of the ten slots of the channel \<open>concurrency\<close>. When the client is gone, \<open>Close\<close> closes the
  backends and waits for these goroutines.

  The loop is a machine whose actions are chosen from outside: what the client sends, which goroutine is scheduled and
  what the world around a message is. The handling of one message is one action here; how the handlings of messages
  interleave inside is the matter of \<open>conn_step\<close> (connections) and of \<open>check_increment_race\<close> (quotas).

  Shown here: there are never more than ten requests under way; every message received is handled exactly once, is
  under way or is waited for; notifications are handled in the order received, although not in their order with
  requests; what a run does to the shared components is what \<open>serve\<close> does for the handled messages, one after the
  other; and a session whose client is gone is closed after at most twelve further actions.
\<close>

section \<open>Serving messages one after the other\<close>

text \<open>A schedule of messages, each with the session it came from and its environment; the components they share
  are threaded through.\<close>

type_synonym ('l, 'p) arrival = "('l, 'p) msg_env \<times> any option \<times> 'p session"

fun serve :: "resolver \<Rightarrow> 'q Quota.Store \<Rightarrow> Config \<Rightarrow> ('l, 'p) arrival list \<Rightarrow> ('l, 'q, 'u) services \<Rightarrow> ('l, 'q, 'u) services" where
  "serve resolve qops cfg [] g = g"
| "serve resolve qops cfg ((env, json, s) # ms) g = serve resolve qops cfg ms (fst (handleMessage resolve qops cfg env json g s))"

lemma serve_append: "serve resolve qops cfg (xs @ ys) g = serve resolve qops cfg ys (serve resolve qops cfg xs g)"
  by (induction xs arbitrary: g) auto


section \<open>The loop\<close>

definition max_concurrency :: nat where "max_concurrency = 10"

text \<open>Where the loop is: at \<open>ReadMessage\<close>, at the send to the channel with a request in hand, inside the handling of a
  notification, in \<open>Close\<close> before and after the backends are closed, or past \<open>wg.Wait\<close>.\<close>

datatype loop_state = Reading | Blocked "any option" | Notifying "any option" | Stopped | Closing | Closed

record ('l, 'q, 'u, 'p) runner =
  rn_loop :: loop_state
  rn_flight :: "any option list"
  rn_services :: "('l, 'q, 'u) services"
  rn_session :: "'p session"

text \<open>A frame with the time it is read at; a slot becomes free; a notification or the request at a position of those
  under way is handled; reading fails or the context is done; and the two halves of \<open>Close\<close>.\<close>

datatype ('l, 'p) action =
    Receive frame_type "any option" time
  | Start
  | Notify "('l, 'p) msg_env"
  | Finish nat "('l, 'p) msg_env"
  | Disconnect
  | CloseBackends "'p pool_ops"
  | Waited

definition handle :: "resolver \<Rightarrow> 'q Quota.Store \<Rightarrow> Config \<Rightarrow> ('l, 'p) msg_env \<Rightarrow> any option \<Rightarrow> ('l, 'q, 'u, 'p) runner \<Rightarrow>
    ('l, 'q, 'u, 'p) runner" where
  "handle resolve qops cfg env json y =
     (case handleMessage resolve qops cfg env json (rn_services y) (rn_session y) of
        (g, s) \<Rightarrow> y\<lparr>rn_services := g, rn_session := s\<rparr>)"

definition Run_receive :: "frame_type \<Rightarrow> any option \<Rightarrow> time \<Rightarrow> ('l, 'q, 'u, 'p) runner \<Rightarrow> ('l, 'q, 'u, 'p) runner" where
  "Run_receive msgType json now y =
     (if msgType = OtherMessage then y
      else let s = (rn_session y)\<lparr>ss_lastActive := now\<rparr>
           in case unmarshal_envelope json of
                None \<Rightarrow> y\<lparr>rn_session := sendJSONRPCError json ''invalid json-rpc message'' s\<rparr>
              | Some env \<Rightarrow> y\<lparr>rn_session := s, rn_loop := (if en_ID env = ANil then Notifying json else Blocked json)\<rparr>)"

fun run_action :: "resolver \<Rightarrow> 'q Quota.Store \<Rightarrow> Config \<Rightarrow> ('l, 'p) action \<Rightarrow> ('l, 'q, 'u, 'p) runner \<Rightarrow>
    ('l, 'q, 'u, 'p) runner option" where
  "run_action resolve qops cfg (Receive msgType json now) y =
     (if rn_loop y = Reading then Some (Run_receive msgType json now y) else None)"
| "run_action resolve qops cfg Start y =
     (case rn_loop y of
        Blocked json \<Rightarrow>
          if length (rn_flight y) < max_concurrency then Some (y\<lparr>rn_loop := Reading, rn_flight := rn_flight y @ [json]\<rparr>) else None
      | _ \<Rightarrow> None)"
| "run_action resolve qops cfg (Notify env) y =
     (case rn_loop y of Notifying json \<Rightarrow> Some ((handle resolve qops cfg env json y)\<lparr>rn_loop := Reading\<rparr>) | _ \<Rightarrow> None)"
| "run_action resolve qops cfg (Finish i env) y =
     (if i < length (rn_flight y)
      then Some ((handle resolve qops cfg env (rn_flight y ! i) y)\<lparr>rn_flight := take i (rn_flight y) @ drop (Suc i) (rn_flight y)\<rparr>)
      else None)"
| "run_action resolve qops cfg Disconnect y = (if rn_loop y = Reading then Some (y\<lparr>rn_loop := Stopped\<rparr>) else None)"
| "run_action resolve qops cfg (CloseBackends ops) y =
     (if rn_loop y = Stopped
      then Some (y\<lparr>rn_loop := Closing, rn_session := (rn_session y)\<lparr>ss_conns := close_backends ops (ss_conns (rn_session y))\<rparr>\<rparr>)
      else None)"
| "run_action resolve qops cfg Waited y =
     (if rn_loop y = Closing \<and> rn_flight y = [] then Some (y\<lparr>rn_loop := Closed\<rparr>) else None)"

fun run_actions :: "resolver \<Rightarrow> 'q Quota.Store \<Rightarrow> Config \<Rightarrow> ('l, 'p) action list \<Rightarrow> ('l, 'q, 'u, 'p) runner \<Rightarrow>
    ('l, 'q, 'u, 'p) runner option" where
  "run_actions resolve qops cfg [] y = Some y"
| "run_actions resolve qops cfg (a # as) y = Option.bind (run_action resolve qops cfg a y) (run_actions resolve qops cfg as)"

definition Run_start :: "('l, 'q, 'u) services \<Rightarrow> 'p session \<Rightarrow> ('l, 'q, 'u, 'p) runner" where
  "Run_start g s = \<lparr>rn_loop = Reading, rn_flight = [], rn_services = g, rn_session = s\<rparr>"


section \<open>What a run does\<close>

text \<open>Reading a run: the messages received, the messages handled with the session they were handled for, and the message
  the loop holds.\<close>

definition is_message :: "frame_type \<Rightarrow> any option \<Rightarrow> bool" where
  "is_message msgType json \<longleftrightarrow> msgType \<noteq> OtherMessage \<and> unmarshal_envelope json \<noteq> None"

definition is_notification :: "any option \<Rightarrow> bool" where
  "is_notification json \<longleftrightarrow> (case unmarshal_envelope json of None \<Rightarrow> False | Some env \<Rightarrow> en_ID env = ANil)"

fun received :: "('l, 'p) action list \<Rightarrow> any option list" where
  "received [] = []"
| "received (Receive msgType json now # as) = (if is_message msgType json then json # received as else received as)"
| "received (_ # as) = received as"

definition handles :: "('l, 'p) action \<Rightarrow> ('l, 'q, 'u, 'p) runner \<Rightarrow> ('l, 'p) arrival list" where
  "handles a y =
     (case a of
        Notify env \<Rightarrow> (case rn_loop y of Notifying json \<Rightarrow> [(env, json, rn_session y)] | _ \<Rightarrow> [])
      | Finish i env \<Rightarrow> if i < length (rn_flight y) then [(env, rn_flight y ! i, rn_session y)] else []
      | _ \<Rightarrow> [])"

fun handled :: "resolver \<Rightarrow> 'q Quota.Store \<Rightarrow> Config \<Rightarrow> ('l, 'p) action list \<Rightarrow> ('l, 'q, 'u, 'p) runner \<Rightarrow> ('l, 'p) arrival list" where
  "handled resolve qops cfg [] y = []"
| "handled resolve qops cfg (a # as) y =
     handles a y @ (case run_action resolve qops cfg a y of None \<Rightarrow> [] | Some y' \<Rightarrow> handled resolve qops cfg as y')"

definition in_hand :: "('l, 'q, 'u, 'p) runner \<Rightarrow> any option list" where
  "in_hand y = (case rn_loop y of Blocked json \<Rightarrow> [json] | Notifying json \<Rightarrow> [json] | _ \<Rightarrow> [])"

definition message_of :: "('l, 'p) arrival \<Rightarrow> any option" where "message_of m = fst (snd m)"

definition same_client :: "'p session \<Rightarrow> 'p session \<Rightarrow> bool" where
  "same_client s s' \<longleftrightarrow> ss_id s' = ss_id s \<and> ss_principal s' = ss_principal s \<and> ss_tenantID s' = ss_tenantID s \<and>
     ss_profile s' = ss_profile s \<and> ss_boundServer s' = ss_boundServer s"

lemma same_client_refl [simp]: "same_client s s" by (simp add: same_client_def)

lemma same_client_trans: "same_client s s' \<Longrightarrow> same_client s' s'' \<Longrightarrow> same_client s s''" by (simp add: same_client_def)

lemma handleMessage_client: "same_client s (snd (handleMessage resolve qops cfg env json g s))"
  by (auto simp: handleMessage_def forward_def same_client_def sendJSONRPCError_def Let_def
      split: sum.split option.split prod.split)

text \<open>A run never has more requests under way than the channel has room for, and only requests.\<close>

definition run_inv :: "('l, 'q, 'u, 'p) runner \<Rightarrow> bool" where
  "run_inv y \<longleftrightarrow> length (rn_flight y) \<le> max_concurrency \<and> (\<forall>json\<in>set (rn_flight y). \<not> is_notification json) \<and>
     (case rn_loop y of Blocked json \<Rightarrow> \<not> is_notification json | Notifying json \<Rightarrow> is_notification json | _ \<Rightarrow> True)"

lemma handle_parts [simp]:
  "rn_loop (handle resolve qops cfg env json y) = rn_loop y" "rn_flight (handle resolve qops cfg env json y) = rn_flight y"
  "rn_services (handle resolve qops cfg env json y) = fst (handleMessage resolve qops cfg env json (rn_services y) (rn_session y))"
  "rn_session (handle resolve qops cfg env json y) = snd (handleMessage resolve qops cfg env json (rn_services y) (rn_session y))"
  by (simp_all add: handle_def split: prod.split)

text \<open>What an action does, seen from outside.\<close>

definition seen_step :: "resolver \<Rightarrow> 'q Quota.Store \<Rightarrow> Config \<Rightarrow> ('l, 'p) action \<Rightarrow> ('l, 'q, 'u, 'p) runner \<Rightarrow> ('l, 'q, 'u, 'p) runner \<Rightarrow> bool" where
  "seen_step resolve qops cfg a y y' \<longleftrightarrow> run_inv y' \<and>
     rn_services y' = serve resolve qops cfg (handles a y) (rn_services y) \<and> same_client (rn_session y) (rn_session y') \<and>
     mset (rn_flight y @ in_hand y @ received [a]) = mset (map message_of (handles a y)) + mset (rn_flight y' @ in_hand y') \<and>
     filter is_notification (in_hand y @ received [a]) =
       filter is_notification (map message_of (handles a y)) @ filter is_notification (in_hand y')"

lemma receive_seen:
  assumes "run_inv y" "rn_loop y = Reading"
  shows "seen_step resolve qops cfg (Receive msgType json now) y (Run_receive msgType json now y)"
  using assms
  by (auto simp: seen_step_def Run_receive_def run_inv_def is_message_def is_notification_def in_hand_def handles_def same_client_def
      sendJSONRPCError_def Let_def split: option.split)

lemma finish_seen:
  assumes "run_inv y" "i < length (rn_flight y)"
  shows "seen_step resolve qops cfg (Finish i env) y
    ((handle resolve qops cfg env (rn_flight y ! i) y)\<lparr>rn_flight := take i (rn_flight y) @ drop (Suc i) (rn_flight y)\<rparr>)"
proof -
  have "mset (rn_flight y) = {# rn_flight y ! i #} + mset (take i (rn_flight y) @ drop (Suc i) (rn_flight y))"
    using id_take_nth_drop [OF assms(2)] by (metis mset_append mset.simps(2) union_mset_add_mset_right add_mset_add_single union_commute)
  moreover have "set (take i (rn_flight y) @ drop (Suc i) (rn_flight y)) \<subseteq> set (rn_flight y)"
    using set_take_subset set_drop_subset by fastforce
  moreover have "rn_flight y ! i \<in> set (rn_flight y)" using assms(2) by simp
  ultimately show ?thesis using assms handleMessage_client [of "rn_session y" resolve qops cfg env]
    by (auto simp: seen_step_def run_inv_def in_hand_def handles_def message_of_def split: loop_state.splits)
qed

lemma action_seen:
  assumes "run_inv y" "run_action resolve qops cfg a y = Some y'"
  shows "seen_step resolve qops cfg a y y'"
proof (cases a)
  case (Receive msgType json now)
  with assms receive_seen show ?thesis by (auto split: if_splits)
next
  case (Finish i env)
  with assms finish_seen show ?thesis by (auto split: if_splits)
next
  case Start
  with assms show ?thesis
    by (auto simp: seen_step_def run_inv_def in_hand_def handles_def split: loop_state.splits if_splits)
next
  case (Notify env)
  with assms handleMessage_client [of "rn_session y" resolve qops cfg env] show ?thesis
    by (auto simp: seen_step_def run_inv_def in_hand_def handles_def message_of_def split: loop_state.splits)
qed (use assms in \<open>auto simp: seen_step_def run_inv_def in_hand_def handles_def same_client_def split: if_splits\<close>)

lemma received_Cons: "received (a # as) = received [a] @ received as"
  by (cases a) auto

lemma actions_seen:
  assumes "run_inv y" "run_actions resolve qops cfg as y = Some y'"
  shows "run_inv y' \<and>
     rn_services y' = serve resolve qops cfg (handled resolve qops cfg as y) (rn_services y) \<and> same_client (rn_session y) (rn_session y') \<and>
     mset (rn_flight y @ in_hand y @ received as) = mset (map message_of (handled resolve qops cfg as y)) + mset (rn_flight y' @ in_hand y') \<and>
     filter is_notification (in_hand y @ received as) =
       filter is_notification (map message_of (handled resolve qops cfg as y)) @ filter is_notification (in_hand y') \<and>
     (\<forall>(env, json, s)\<in>set (handled resolve qops cfg as y). same_client (rn_session y) s)"
  using assms
proof (induction as arbitrary: y)
  case (Cons a as)
  obtain y1 where y1: "run_action resolve qops cfg a y = Some y1" "run_actions resolve qops cfg as y1 = Some y'"
    using Cons.prems(2) by (auto split: Option.bind_splits)
  note st = action_seen [OF Cons.prems(1) y1(1), unfolded seen_step_def]
  have h: "\<forall>(env, json, s)\<in>set (handles a y). s = rn_session y"
    by (auto simp: handles_def split: action.splits loop_state.splits if_splits)
  note IH = Cons.IH [OF conjunct1 [OF st] y1(2)]
  have "mset (rn_flight y @ in_hand y @ received (a # as)) = mset (map message_of (handles a y)) +
      mset (rn_flight y1 @ in_hand y1 @ received as)"
    using st by (simp add: received_Cons [of a as])
  moreover have "filter is_notification (in_hand y @ received (a # as)) = filter is_notification (map message_of (handles a y)) @
      filter is_notification (in_hand y1 @ received as)"
    using st by (simp add: received_Cons [of a as])
  ultimately show ?case using st IH h y1(1) same_client_trans [of "rn_session y" "rn_session y1"]
    by (auto simp: serve_append)
qed simp


lemma run_actions_append:
  "run_actions resolve qops cfg (as @ bs) y = Option.bind (run_actions resolve qops cfg as y) (run_actions resolve qops cfg bs)"
  by (induction as arbitrary: y) (auto split: Option.bind_splits)

lemma Run_start_inv [simp]: "run_inv (Run_start g s)" "in_hand (Run_start g s) = []" "rn_flight (Run_start g s) = []"
  "rn_services (Run_start g s) = g" "rn_session (Run_start g s) = s" "rn_loop (Run_start g s) = Reading"
  by (simp_all add: run_inv_def in_hand_def Run_start_def)



section \<open>Closing\<close>

text \<open>How many actions are left for a session whose client is gone.\<close>

definition actions_left :: "('l, 'q, 'u, 'p) runner \<Rightarrow> nat" where
  "actions_left y = length (rn_flight y) + (case rn_loop y of Stopped \<Rightarrow> 2 | Closing \<Rightarrow> 1 | _ \<Rightarrow> 0)"

definition closing :: "('l, 'q, 'u, 'p) runner \<Rightarrow> bool" where
  "closing y \<longleftrightarrow> rn_loop y = Stopped \<or> rn_loop y = Closing \<or> rn_loop y = Closed \<and> rn_flight y = []"

lemma closing_step:
  assumes "closing y" "run_action resolve qops cfg a y = Some y'"
  shows "closing y' \<and> actions_left y = actions_left y' + 1"
  using assms
  by (cases a) (auto simp: closing_def actions_left_def split: if_splits loop_state.splits)

lemma closing_steps:
  assumes "closing y" "run_actions resolve qops cfg as y = Some y'"
  shows "closing y' \<and> actions_left y = actions_left y' + length as"
  using assms
proof (induction as arbitrary: y)
  case (Cons a as)
  then obtain y1 where y1: "run_action resolve qops cfg a y = Some y1" "run_actions resolve qops cfg as y1 = Some y'"
    by (auto split: Option.bind_splits)
  from closing_step [OF Cons.prems(1) y1(1)] Cons.IH [OF _ y1(2)] show ?case by auto
qed simp

lemma closing_progress:
  assumes "closing y" "rn_loop y \<noteq> Closed"
  shows "\<exists>a\<in>{Finish 0 env, CloseBackends ops, Waited}. run_action resolve qops cfg a y \<noteq> None"
  using assms by (auto simp: closing_def)


definition demo_request :: "any option" where
  "demo_request = Some (AMap [(''jsonrpc'', AString ''2.0''), (''id'', AInt 1), (''method'', AString ''initialize'')])"

definition demo_notification :: "any option" where
  "demo_notification = Some (AMap [(''jsonrpc'', AString ''2.0''), (''method'', AString ''notifications/initialized'')])"

text \<open>The client sends a request and a notification; the request is still under way when the notification is handled.\<close>

definition demo_run :: "(unit, nat) action list" where
  "demo_run = [Receive TextMessage demo_request 1, Start, Receive TextMessage demo_notification 2, Notify demo_env, Finish 0 demo_env]"

abbreviation run_demo :: "(unit, nat) action list \<Rightarrow> (unit, Quota.MemoryStore, Usage_Store.MemoryStore, nat) runner \<Rightarrow>
    (unit, Quota.MemoryStore, Usage_Store.MemoryStore, nat) runner option" where
  "run_demo \<equiv> run_actions (\<lambda>p t a. Ok []) Quota.memory_ops demo_gateway"

lemma demo_run_state: "map_option (\<lambda>y. (rn_loop y, rn_flight y, gs_written (rn_services y))) (run_demo demo_run (Run_start demo_services demo_session)) =
    Some (Reading, [], [(''fs'', demo_notification), (''fs'', demo_request)])"
  by code_simp



text \<open>The comment on \<open>Run\<close> says that notifications are handled synchronously to preserve ordering. A notification can still
  overtake a request sent before it: here \<open>notifications/initialized\<close> reaches the backend before \<open>initialize\<close>.\<close>

lemma notification_overtakes:
  "received demo_run = [demo_request, demo_notification] \<and>
   map_option (\<lambda>y. gs_written (rn_services y)) (run_demo demo_run (Run_start demo_services demo_session)) =
     Some [(''fs'', demo_notification), (''fs'', demo_request)]"
  by code_simp

end
