(* ===== verification/Mcpws_Pump.thy ===== *)
theory Mcpws_Pump
  imports Mcpws
begin

text \<open>
  The way back in \<open>internal/mcpws/mcpws.go\<close>: the goroutines that pass the messages of the backends to the client
  (\<open>pumpBackendToClient\<close>, \<open>writeToClient\<close>), the transport they read from (\<open>backendTransport\<close>), and what a tick of
  \<open>reapBackendsLoop\<close> leaves. A pump is at one of three places of its loop, or has returned; what the backends and the client do,
  and which goroutine is scheduled, are actions from outside. \<open>writeToClient\<close> and \<open>sendJSONRPCError\<close> hold the lock of the
  client while they write, so a write is one action and the writes form one sequence.

  Shown here: the client receives from every backend exactly the messages read from it, unchanged and in their order,
  however pumps, error replies and new connections interleave; a pump holds back at most one message; and a tick removes
  exactly the backends that have been idle for longer than the timeout.
\<close>

section \<open>The transport of a backend\<close>

text \<open>The WebSocket connection as two operations on a state of its own; the locks make each of them one step. The codec of
  \<open>mcp-go\<close> messages is an argument.\<close>

record 'w websocket =
  ws_WriteMessage :: "frame_type \<Rightarrow> string \<Rightarrow> 'w \<Rightarrow> (string, unit) result \<times> 'w"
  ws_ReadMessage :: "'w \<Rightarrow> (string, frame_type \<times> string) result \<times> 'w"

definition tr_Send :: "('m \<Rightarrow> (string, string) result) \<Rightarrow> 'w websocket \<Rightarrow> 'm \<Rightarrow> 'w \<Rightarrow> (string, unit) result \<times> 'w" where
  "tr_Send marshal ws msg w =
     (case marshal msg of Inl er \<Rightarrow> (Err er, w) | Inr data \<Rightarrow> ws_WriteMessage ws TextMessage data w)"

definition tr_Recv :: "(string \<Rightarrow> (string, 'm) result) \<Rightarrow> 'w websocket \<Rightarrow> 'w \<Rightarrow> (string, 'm) result \<times> 'w" where
  "tr_Recv unmarshal ws w =
     (case ws_ReadMessage ws w of (Inl er, w') \<Rightarrow> (Err er, w') | (Inr (_, data), w') \<Rightarrow> (unmarshal data, w'))"


section \<open>Pumps\<close>

text \<open>The places of the loop: at the \<open>select\<close> on the context, inside \<open>ReadMessage\<close>, and with a message in hand. A pump
  that returned keeps the message whose write failed, if that is why.\<close>

datatype 'm phase = Polling | Awaiting | Holding 'm | Ended "'m option"

record 'm pump =
  pm_backend :: backend
  pm_phase :: "'m phase"

text \<open>\<open>rl_client\<close> is what was written to the client, each message with the pump that wrote it, error replies without.\<close>

record ('m, 'p) relay =
  rl_conns :: "'p conns"
  rl_pumps :: "'m pump list"
  rl_client :: "(nat option \<times> 'm) list"

definition set_phase :: "nat \<Rightarrow> 'm phase \<Rightarrow> ('m, 'p) relay \<Rightarrow> ('m, 'p) relay" where
  "set_phase i ph y = y\<lparr>rl_pumps := (rl_pumps y)[i := (rl_pumps y ! i)\<lparr>pm_phase := ph\<rparr>]\<rparr>"

definition at_phase :: "nat \<Rightarrow> ('m, 'p) relay \<Rightarrow> 'm phase option" where
  "at_phase i y = (if i < length (rl_pumps y) then Some (pm_phase (rl_pumps y ! i)) else None)"

definition pump_backend :: "nat \<Rightarrow> ('m, 'p) relay \<Rightarrow> backend" where "pump_backend i y = pm_backend (rl_pumps y ! i)"

datatype 'm relay_action =
    Connect string time
  | Poll nat bool
  | Read nat "(string, 'm) result" time
  | Write nat bool
  | Refuse 'm

text \<open>\<open>getBackend\<close> starts a pump for each backend it puts into the table.\<close>

definition connect :: "'p pool_ops \<Rightarrow> string \<Rightarrow> time \<Rightarrow> ('m, 'p) relay \<Rightarrow> ('m, 'p) relay" where
  "connect ops name now y =
     (let conns = snd (getBackend ops now name (rl_conns y))
      in y\<lparr>rl_conns := conns,
           rl_pumps := rl_pumps y @ map (\<lambda>b. \<lparr>pm_backend = b, pm_phase = Polling\<rparr>) (drop (length (cs_pumps (rl_conns y))) (cs_pumps conns))\<rparr>)"

fun relay_step :: "'p pool_ops \<Rightarrow> 'm relay_action \<Rightarrow> ('m, 'p) relay \<Rightarrow> ('m, 'p) relay option" where
  "relay_step ops (Connect name now) y = Some (connect ops name now y)"
| "relay_step ops (Poll i ctxDone) y =
     (if at_phase i y = Some Polling then Some (set_phase i (if ctxDone then Ended None else Awaiting) y) else None)"
| "relay_step ops (Read i r now) y =
     (if at_phase i y = Some Awaiting
      then (case r of
              Inl er \<Rightarrow> Some ((set_phase i (Ended None) y)\<lparr>rl_conns := pump_read_error ops (pump_backend i y) (rl_conns y)\<rparr>)
            | Inr msg \<Rightarrow> Some ((set_phase i (Holding msg) y)\<lparr>rl_conns := touch_backend now (pump_backend i y) (rl_conns y)\<rparr>))
      else None)"
| "relay_step ops (Write i success) y =
     (case at_phase i y of
        Some (Holding msg) \<Rightarrow>
          Some (if success then (set_phase i Polling y)\<lparr>rl_client := rl_client y @ [(Some i, msg)]\<rparr> else set_phase i (Ended (Some msg)) y)
      | _ \<Rightarrow> None)"
| "relay_step ops (Refuse msg) y = Some (y\<lparr>rl_client := rl_client y @ [(None, msg)]\<rparr>)"

fun relay_run :: "'p pool_ops \<Rightarrow> 'm relay_action list \<Rightarrow> ('m, 'p) relay \<Rightarrow> ('m, 'p) relay option" where
  "relay_run ops [] y = Some y"
| "relay_run ops (a # as) y = Option.bind (relay_step ops a y) (relay_run ops as)"

definition relay_start :: "'p conns \<Rightarrow> ('m, 'p) relay" where
  "relay_start s = \<lparr>rl_conns = s, rl_pumps = [], rl_client = []\<rparr>"


section \<open>The order of messages\<close>

text \<open>Reading a run: the messages a pump read, the error replies, the messages the client got from a source, and the
  message a pump has not delivered.\<close>

fun reads :: "nat \<Rightarrow> 'm relay_action list \<Rightarrow> 'm list" where
  "reads i [] = []"
| "reads i (Read j (Inr msg) now # as) = (if i = j then msg # reads i as else reads i as)"
| "reads i (a # as) = reads i as"

fun refusals :: "'m relay_action list \<Rightarrow> 'm list" where
  "refusals [] = []"
| "refusals (Refuse msg # as) = msg # refusals as"
| "refusals (a # as) = refusals as"

definition received :: "nat option \<Rightarrow> ('m, 'p) relay \<Rightarrow> 'm list" where
  "received src y = map snd (filter (\<lambda>(s, _). s = src) (rl_client y))"

fun held_back :: "'m phase option \<Rightarrow> 'm list" where
  "held_back (Some (Holding msg)) = [msg]"
| "held_back (Some (Ended (Some msg))) = [msg]"
| "held_back ph = []"

definition undelivered :: "nat \<Rightarrow> ('m, 'p) relay \<Rightarrow> 'm list" where "undelivered i y = held_back (at_phase i y)"

lemma received_more [simp]:
  "received src (y\<lparr>rl_conns := c\<rparr>) = received src y" "received src (set_phase i ph y) = received src y"
  "received src (y\<lparr>rl_client := rl_client y @ [(src', msg)]\<rparr>) = received src y @ (if src' = src then [msg] else [])"
  by (simp_all add: received_def set_phase_def)

lemma start_empty [simp]: "received src (relay_start s) = []" "undelivered i (relay_start s) = []"
  by (simp_all add: received_def undelivered_def relay_start_def at_phase_def)

lemma received_set_client [simp]:
  "received src ((set_phase i ph y)\<lparr>rl_client := rl_client y @ [(src', msg)]\<rparr>) = received src y @ (if src' = src then [msg] else [])"
  by (simp add: received_def)

lemma at_set_phase:
  "at_phase i y \<noteq> None \<Longrightarrow> at_phase j (set_phase i ph y) = (if j = i then Some ph else at_phase j y)"
  by (auto simp: at_phase_def set_phase_def split: if_splits)

lemma at_phase_more [simp]: "at_phase i (y\<lparr>rl_conns := c\<rparr>) = at_phase i y" "at_phase i (y\<lparr>rl_client := l\<rparr>) = at_phase i y"
  by (simp_all add: at_phase_def)

lemma client_set_phase [simp]: "rl_client (set_phase i ph y) = rl_client y" "rl_conns (set_phase i ph y) = rl_conns y"
  by (simp_all add: set_phase_def)

lemma at_phase_connect:
  "at_phase i (connect ops name now y) = (if i < length (rl_pumps y) then at_phase i y else
    if at_phase i (connect ops name now y) = None then None else Some Polling)"
  by (auto simp: at_phase_def connect_def Let_def nth_append)

lemma undelivered_connect [simp]: "undelivered i (connect ops name now y) = undelivered i y"
  using at_phase_connect [of i ops name now y]
  by (cases "i < length (rl_pumps y)") (auto simp: undelivered_def at_phase_def split: if_splits)

lemma client_connect [simp]: "rl_client (connect ops name now y) = rl_client y"
  by (simp add: connect_def Let_def)

text \<open>One action moves at most one message one place on.\<close>

lemma relay_step_order:
  assumes "relay_step ops a y = Some y'"
  shows "received (Some i) y' @ undelivered i y' = received (Some i) y @ undelivered i y @ reads i [a]"
    "received None y' = received None y @ refusals [a]"
proof -
  show "received (Some i) y' @ undelivered i y' = received (Some i) y @ undelivered i y @ reads i [a]"
    using assms
  proof (cases a)
    case (Connect name now)
    with assms show ?thesis by (auto simp: received_def)
  next
    case (Poll j ctxDone)
    with assms show ?thesis by (auto simp: undelivered_def at_set_phase split: if_splits)
  next
    case (Read j r now)
    with assms show ?thesis by (cases r) (auto simp: undelivered_def at_set_phase split: if_splits)
  next
    case (Write j success)
    with assms obtain msg where h: "at_phase j y = Some (Holding msg)"
      by (cases "at_phase j y"; cases "the (at_phase j y)") auto
    with assms Write show ?thesis by (cases success) (auto simp: undelivered_def at_set_phase received_set_client)
  next
    case (Refuse msg)
    with assms show ?thesis by (auto simp: undelivered_def)
  qed
  show "received None y' = received None y @ refusals [a]"
    using assms by (cases a) (auto simp: received_def split: if_splits option.splits phase.splits sum.splits)
qed

lemma reads_Cons: "reads i (a # as) = reads i [a] @ reads i as"
  by (cases a; simp split: sum.split; cases "case a of Read j r now \<Rightarrow> r | _ \<Rightarrow> Inl []"; auto)

lemma refusals_Cons: "refusals (a # as) = refusals [a] @ refusals as"
  by (cases a) simp_all

lemma relay_run_order:
  "relay_run ops as y = Some y' \<Longrightarrow>
   received (Some i) y' @ undelivered i y' = received (Some i) y @ undelivered i y @ reads i as \<and>
   received None y' = received None y @ refusals as"
proof (induction as arbitrary: y)
  case (Cons a as)
  then obtain y1 where y1: "relay_step ops a y = Some y1" "relay_run ops as y1 = Some y'"
    by (auto split: Option.bind_splits)
  from Cons.IH [OF y1(2)] relay_step_order [OF y1(1)] show ?case
    by (metis append.assoc reads_Cons refusals_Cons)
qed simp

text \<open>C11. The answers of a backend reach the client in order: in every run of the pumps of a session, among any error replies
  and new connections, what the client received from a backend connection is what was read from it, unchanged and in its
  order, but for the last message read, which the pump may hold or have failed to write; and the error replies are all
  there.\<close>

theorem relay_in_order:
  assumes "relay_run ops as (relay_start s) = Some y"
  shows "received (Some i) y @ undelivered i y = reads i as \<and> length (undelivered i y) \<le> 1 \<and> received None y = refusals as"
proof -
  have "length (undelivered i y) \<le> 1" unfolding undelivered_def by (cases "at_phase i y" rule: held_back.cases) auto
  then show ?thesis using relay_run_order [OF assms, of i] by simp
qed

text \<open>Two backends answer while a message is refused.\<close>

definition demo_relay :: "string relay_action list" where
  "demo_relay =
     [Connect ''fs'' 1, Connect ''db'' 2, Poll 0 False, Poll 1 False, Read 0 (Ok ''a'') 3, Read 1 (Ok ''x'') 4, Write 1 True,
      Refuse ''no'', Write 0 True, Poll 0 False, Read 0 (Ok ''b'') 5]"

theorem relay_in_order_witness:
  "\<exists>y. relay_run demo_pool demo_relay (relay_start demo_conns) = Some y \<and> received (Some 0) y @ undelivered 0 y = [''a'', ''b''] \<and>
     rl_client y = [(Some 1, ''x''), (None, ''no''), (Some 0, ''a'')]"
proof -
  have c: "map_option rl_client (relay_run demo_pool demo_relay (relay_start demo_conns)) = Some [(Some 1, ''x''), (None, ''no''), (Some 0, ''a'')]"
    by code_simp
  then obtain y where y: "relay_run demo_pool demo_relay (relay_start demo_conns) = Some y" by auto
  have "reads 0 demo_relay = [''a'', ''b'']" by code_simp
  with relay_in_order [OF y, of 0] y c show ?thesis by auto
qed


section \<open>Idle backends\<close>

lemma dropBackend_table:
  "mget (cs_backends (dropBackend ops n u s)) k = (if k = n then None else mget (cs_backends s) k)"
  by (auto simp: dropBackend_def dropBackend_take_def split: option.split)

lemma drop_all_table:
  "mget (cs_backends (fold (\<lambda>n. dropBackend ops n True) ns s)) k = (if k \<in> set ns then None else mget (cs_backends s) k)"
  by (induction ns arbitrary: s) (simp_all add: dropBackend_table)

text \<open>A tick removes the backends that were not used for longer than the timeout and no others.\<close>

lemma reap_tick_exact:
  assumes "mwf (cs_backends s)"
  shows "mget (cs_backends (reap_tick ops idleTimeout now s)) n =
    (case mget (cs_backends s) n of
       None \<Rightarrow> None
     | Some b \<Rightarrow> if time_Sub now (bk_lastUsed b) > idleTimeout then None else Some b)"
proof -
  have "n \<in> set (map fst (filter (\<lambda>(name, b). time_Sub now (bk_lastUsed b) > idleTimeout) (cs_backends s))) \<longleftrightarrow>
      (\<exists>b. mget (cs_backends s) n = Some b \<and> time_Sub now (bk_lastUsed b) > idleTimeout)"
    using assms by (force simp: mwf_mget_iff)
  then show ?thesis unfolding reap_tick_def drop_all_table by (auto split: option.split)
qed

text \<open>The reaper wakes at least every half timeout, but not more often than four times a second.\<close>

lemma reap_interval_bounds:
  "0 < idleTimeout \<Longrightarrow> \<exists>d. reap_interval idleTimeout = Some d \<and> 250000000 \<le> d \<and> (500000000 \<le> idleTimeout \<longrightarrow> 2 * d \<le> idleTimeout)"
  using sdiv_smod_nonneg [of idleTimeout 2] by (auto simp: reap_interval_def Let_def duration_units)

text \<open>A message sent over a connection that delivers what is written is the message received.\<close>

lemma transport_roundtrip:
  assumes "marshal msg = Ok data" "unmarshal data = Ok msg" "\<And>data w. ws_WriteMessage ws TextMessage data w = (Ok (), w @ [(TextMessage, data)])"
    "\<And>f w. ws_ReadMessage ws (f # w) = (Ok f, w)"
  shows "tr_Recv unmarshal ws (snd (tr_Send marshal ws msg [])) = (Ok msg, [])"
  using assms by (simp add: tr_Send_def tr_Recv_def)

end
