(* ===== verification/Apikeys_Postgres.thy ===== *)
theory Apikeys_Postgres
  imports Apikeys Storage
begin

text \<open>
  The package \<open>internal/apikeys\<close>, file \<open>postgres.go\<close>: the API key store over Postgres. An operation sends one
  statement with its arguments and turns the answer of the database into a result; the database is the record
  \<open>sql_db\<close> of \<open>Storage\<close>. The locale \<open>key_table\<close> states what each statement does to the table \<open>api_keys\<close>, whose primary
  key is the ID and whose hashes are unique. A statement may fail at any time, and one that fails may have been
  applied. The locale is interpreted on a table kept as a list of rows.

  Shown here: with this store too a revoked key never validates again, in any run of the manager and whichever
  statements fail; and where the store differs from the in-memory one: expired keys count against the limit of keys
  per user, and the list for an empty user holds no other user's keys.
\<close>

section \<open>Statements\<close>

definition key_columns :: string where
  "key_columns = ''id, tenant_id, user_id, name, key_hash, key_prefix, scopes, created_at, expires_at, last_used_at, revoked_at''"

definition sql_insert_key :: string where
  "sql_insert_key = ''INSERT INTO api_keys ('' @ key_columns @ '') VALUES ($1, $2, $3, $4, $5, $6, $7, $8, $9, $10, $11)''"

definition sql_get_key :: string where
  "sql_get_key = ''SELECT '' @ key_columns @ '' FROM api_keys WHERE id = $1''"

definition sql_get_hash :: string where
  "sql_get_hash = ''SELECT '' @ key_columns @ '' FROM api_keys WHERE key_hash = $1''"

definition sql_list_keys :: string where
  "sql_list_keys = ''SELECT '' @ key_columns @ '' FROM api_keys WHERE tenant_id = $1 AND user_id = $2 ORDER BY created_at DESC''"

definition sql_update_key :: string where
  "sql_update_key = ''UPDATE api_keys SET name = $2, scopes = $3, expires_at = $4, last_used_at = $5, revoked_at = $6 WHERE id = $1''"

definition sql_delete_key :: string where "sql_delete_key = ''DELETE FROM api_keys WHERE id = $1''"

definition sql_count_keys :: string where
  "sql_count_keys = ''SELECT COUNT(*) FROM api_keys WHERE tenant_id = $1 AND user_id = $2 AND revoked_at IS NULL''"

definition sql_cleanup_keys :: string where
  "sql_cleanup_keys = ''DELETE FROM api_keys WHERE expires_at < $1 OR (revoked_at IS NOT NULL AND revoked_at < $1)''"

definition key_args :: "APIKey \<Rightarrow> any list" where
  "key_args key =
     [AString (ak_ID key), AString (ak_TenantID key), AString (ak_UserID key), AString (ak_Name key), AString (ak_KeyHash key),
      AString (ak_KeyPrefix key), AStrings (ak_Scopes key), ATime (ak_CreatedAt key), null_time (ak_ExpiresAt key),
      null_time (ak_LastUsedAt key), null_time (ak_RevokedAt key)]"

definition scan_key :: "any list \<Rightarrow> APIKey option" where
  "scan_key row =
     (case row of
        [i, t, u, n, h, p, sc, c, e, l, r] \<Rightarrow>
          (case (scan_text i, scan_text t, scan_text u, scan_text n, scan_text h, scan_text p, scan_texts sc, scan_time c,
                 scan_null_time e, scan_null_time l, scan_null_time r) of
             (Some i', Some t', Some u', Some n', Some h', Some p', Some sc', Some c', Some e', Some l', Some r') \<Rightarrow>
               Some \<lparr>ak_ID = i', ak_TenantID = t', ak_UserID = u', ak_Name = n', ak_KeyHash = h', ak_KeyPrefix = p', ak_Scopes = sc',
                     ak_ExpiresAt = e', ak_CreatedAt = c', ak_LastUsedAt = l', ak_RevokedAt = r'\<rparr>
           | _ \<Rightarrow> None)
      | _ \<Rightarrow> None)"

lemma scan_key_args [simp]: "scan_key (key_args key) = Some key"
  by (simp add: scan_key_def key_args_def scan_defs split: option.split)


section \<open>The store\<close>

definition pg_Create :: "('d, 't) sql_db \<Rightarrow> APIKey \<Rightarrow> 'd \<Rightarrow> (key_error, unit) result \<times> 'd" where
  "pg_Create db key d =
     (case db_Exec db sql_insert_key (key_args key) d of
        (Inl er, d') \<Rightarrow> (Err (ErrStore er), d')
      | (Inr _, d') \<Rightarrow> (Ok (), d'))"

text \<open>\<open>Get\<close> and \<open>GetByHash\<close> differ in their statement only.\<close>

definition one_key :: "(row_error, any list) result \<Rightarrow> (key_error, APIKey) result" where
  "one_key r =
     (case r of
        Inl ErrNoRows \<Rightarrow> Err ErrKeyNotFound
      | Inl (RowError er) \<Rightarrow> Err (ErrStore er)
      | Inr row \<Rightarrow> (case scan_key row of None \<Rightarrow> Err (ErrStore scan_error) | Some key \<Rightarrow> Ok key))"

definition pg_Get :: "('d, 't) sql_db \<Rightarrow> string \<Rightarrow> 'd \<Rightarrow> (key_error, APIKey) result" where
  "pg_Get db kid d = one_key (fst (db_QueryRow db sql_get_key [AString kid] d))"

definition pg_GetByHash :: "('d, 't) sql_db \<Rightarrow> string \<Rightarrow> 'd \<Rightarrow> (key_error, APIKey) result" where
  "pg_GetByHash db keyHash d = one_key (fst (db_QueryRow db sql_get_hash [AString keyHash] d))"

fun scan_keys :: "any list list \<Rightarrow> (key_error, APIKey list) result" where
  "scan_keys [] = Ok []"
| "scan_keys (row # rows) =
     (case scan_key row of
        None \<Rightarrow> Err (ErrStore scan_error)
      | Some key \<Rightarrow> (case scan_keys rows of Inl er \<Rightarrow> Err er | Inr keys \<Rightarrow> Ok (key # keys)))"

text \<open>Where the iteration ends with an error the code returns the keys so far beside the error.\<close>

definition pg_List :: "('d, 't) sql_db \<Rightarrow> string \<Rightarrow> string \<Rightarrow> 'd \<Rightarrow> (key_error, APIKey list) result" where
  "pg_List db tenantID userID d =
     (case db_Query db sql_list_keys [AString tenantID, AString userID] d of
        Inl er \<Rightarrow> Err (ErrStore er)
      | Inr (rows, er) \<Rightarrow>
          (case scan_keys rows of
             Inl e \<Rightarrow> Err e
           | Inr keys \<Rightarrow> (case er of None \<Rightarrow> Ok keys | Some e \<Rightarrow> Err (ErrStore e))))"

text \<open>The driver's \<open>RowsAffected\<close> does not fail for Postgres.\<close>

definition affected :: "(string, int) result \<Rightarrow> (key_error, unit) result" where
  "affected r =
     (case r of Inl er \<Rightarrow> Err (ErrStore er) | Inr rowsAffected \<Rightarrow> if rowsAffected = 0 then Err ErrKeyNotFound else Ok ())"

definition pg_Update :: "('d, 't) sql_db \<Rightarrow> APIKey \<Rightarrow> 'd \<Rightarrow> (key_error, unit) result \<times> 'd" where
  "pg_Update db key d =
     (case db_Exec db sql_update_key
             [AString (ak_ID key), AString (ak_Name key), AStrings (ak_Scopes key), null_time (ak_ExpiresAt key),
              null_time (ak_LastUsedAt key), null_time (ak_RevokedAt key)] d of
        (r, d') \<Rightarrow> (affected r, d'))"

definition pg_Delete :: "('d, 't) sql_db \<Rightarrow> string \<Rightarrow> 'd \<Rightarrow> (key_error, unit) result \<times> 'd" where
  "pg_Delete db kid d = (case db_Exec db sql_delete_key [AString kid] d of (r, d') \<Rightarrow> (affected r, d'))"

definition pg_CountByUser :: "('d, 't) sql_db \<Rightarrow> string \<Rightarrow> string \<Rightarrow> 'd \<Rightarrow> (key_error, int) result" where
  "pg_CountByUser db tenantID userID d =
     (case fst (db_QueryRow db sql_count_keys [AString tenantID, AString userID] d) of
        Inl ErrNoRows \<Rightarrow> Err (ErrStore ''sql: no rows in result set'')
      | Inl (RowError er) \<Rightarrow> Err (ErrStore er)
      | Inr row \<Rightarrow> (case row of [AInt n] \<Rightarrow> Ok n | _ \<Rightarrow> Err (ErrStore scan_error)))"

definition pg_CleanupExpired :: "('d, 't) sql_db \<Rightarrow> time \<Rightarrow> duration \<Rightarrow> 'd \<Rightarrow> (string, int) result \<times> 'd" where
  "pg_CleanupExpired db now olderThan d = db_Exec db sql_cleanup_keys [ATime (time_Add now (wrap64 (- olderThan)))] d"

text \<open>Opening the store; \<open>migrate\<close> is the error of the migration that creates its tables.\<close>

definition newPostgresStoreFromConfig ::
    "(string \<Rightarrow> (string, 'h) result) \<Rightarrow> ('h \<Rightarrow> string option) \<Rightarrow> ('h \<Rightarrow> string option) \<Rightarrow> Config \<Rightarrow> (string, 'h Postgres) result" where
  "newPostgresStoreFromConfig sqlOpen ping migrate cfg = open_store sqlOpen ping migrate (kc_PostgresURL cfg)"

definition postgres_ops :: "('d, 't) sql_db \<Rightarrow> 'd Store" where
  "postgres_ops db = \<lparr>st_Create = pg_Create db, st_Get = pg_Get db, st_GetByHash = pg_GetByHash db, st_List = pg_List db,
     st_Update = pg_Update db, st_Delete = pg_Delete db, st_CountByUser = (\<lambda>now. pg_CountByUser db)\<rparr>"

declare postgres_ops_def [store_ops]



section \<open>What the store relies on\<close>

text \<open>The times a row gives back are those written, as the column type keeps them.\<close>

definition kept_times :: "(time \<Rightarrow> time) \<Rightarrow> APIKey \<Rightarrow> APIKey" where
  "kept_times stored k = k\<lparr>ak_CreatedAt := stored (ak_CreatedAt k), ak_ExpiresAt := map_option stored (ak_ExpiresAt k),
     ak_LastUsedAt := map_option stored (ak_LastUsedAt k), ak_RevokedAt := map_option stored (ak_RevokedAt k)\<rparr>"

definition updated_row :: "(time \<Rightarrow> time) \<Rightarrow> APIKey \<Rightarrow> APIKey \<Rightarrow> APIKey" where
  "updated_row stored key row = row\<lparr>ak_Name := ak_Name key, ak_Scopes := ak_Scopes key, ak_ExpiresAt := map_option stored (ak_ExpiresAt key),
     ak_LastUsedAt := map_option stored (ak_LastUsedAt key), ak_RevokedAt := map_option stored (ak_RevokedAt key)\<rparr>"

text \<open>What a statement does to the table \<open>api_keys\<close>, read by ID. The two constraints of the schema are its primary key
  and the unique index on the hashes.\<close>

locale key_table =
  fixes db :: "('d, 't) sql_db" and wf :: "'d \<Rightarrow> bool" and table :: "'d \<Rightarrow> string \<Rightarrow> APIKey option" and stored :: "time \<Rightarrow> time"
  assumes own_id: "wf d \<Longrightarrow> table d i = Some k \<Longrightarrow> ak_ID k = i"
    and unique_hash: "wf d \<Longrightarrow> table d i = Some k \<Longrightarrow> table d j = Some k' \<Longrightarrow> ak_KeyHash k = ak_KeyHash k' \<Longrightarrow> i = j"
    and insert: "wf d \<Longrightarrow> db_Exec db sql_insert_key (key_args k) d = (r, d') \<Longrightarrow> wf d' \<and>
      ((\<exists>er. r = Inl er) \<and> table d' = table d \<or>
       table d (ak_ID k) = None \<and> (\<forall>i k'. table d i = Some k' \<longrightarrow> ak_KeyHash k' \<noteq> ak_KeyHash k) \<and>
         table d' = (table d)(ak_ID k \<mapsto> kept_times stored k))"
    and update: "wf d \<Longrightarrow> db_Exec db sql_update_key
        [AString (ak_ID k), AString (ak_Name k), AStrings (ak_Scopes k), null_time (ak_ExpiresAt k), null_time (ak_LastUsedAt k),
         null_time (ak_RevokedAt k)] d = (r, d') \<Longrightarrow> wf d' \<and>
      ((\<exists>er. r = Inl er) \<and> table d' = table d \<or>
       r = Inr 0 \<and> table d (ak_ID k) = None \<and> table d' = table d \<or>
       (r = Inr 1 \<or> (\<exists>er. r = Inl er)) \<and> (\<exists>k0. table d (ak_ID k) = Some k0 \<and> table d' = (table d)(ak_ID k \<mapsto> updated_row stored k k0)))"
    and delete: "wf d \<Longrightarrow> db_Exec db sql_delete_key [AString i] d = (r, d') \<Longrightarrow> wf d' \<and>
      ((\<exists>er. r = Inl er) \<and> table d' = table d \<or>
       (r = Inr (if table d i = None then 0 else 1) \<or> (\<exists>er. r = Inl er)) \<and> table d' = (table d)(i := None))"
    and get: "wf d \<Longrightarrow> fst (db_QueryRow db sql_get_key [AString i] d) = q \<Longrightarrow>
      (\<exists>er. q = Inl (RowError er)) \<or> q = (case table d i of None \<Rightarrow> Inl ErrNoRows | Some k \<Rightarrow> Inr (key_args k))"
    and get_hash: "wf d \<Longrightarrow> fst (db_QueryRow db sql_get_hash [AString h] d) = q \<Longrightarrow>
      (\<exists>er. q = Inl (RowError er)) \<or> q = Inl ErrNoRows \<and> (\<forall>i k. table d i = Some k \<longrightarrow> ak_KeyHash k \<noteq> h) \<or>
      (\<exists>i k. table d i = Some k \<and> ak_KeyHash k = h \<and> q = Inr (key_args k))"
    and list: "wf d \<Longrightarrow> db_Query db sql_list_keys [AString t, AString u] d = Inr (rows, None) \<Longrightarrow>
      \<exists>ks. rows = map key_args ks \<and> set ks = {k. \<exists>i. table d i = Some k \<and> ak_TenantID k = t \<and> ak_UserID k = u}"
    and count: "wf d \<Longrightarrow> fst (db_QueryRow db sql_count_keys [AString t, AString u] d) = q \<Longrightarrow>
      (\<exists>er. q = Inl (RowError er)) \<or>
      q = Inr [AInt (int (card {i. \<exists>k. table d i = Some k \<and> ak_TenantID k = t \<and> ak_UserID k = u \<and> ak_RevokedAt k = None}))]"
begin

lemma pg_Get_Ok: "wf d \<Longrightarrow> st_Get (postgres_ops db) i d = Ok k \<Longrightarrow> table d i = Some k"
  using get [of d i, OF _ refl] by (auto simp: store_ops pg_Get_def one_key_def split: option.splits)

lemma pg_GetByHash_Ok: "wf d \<Longrightarrow> st_GetByHash (postgres_ops db) h d = Ok k \<Longrightarrow> \<exists>i. table d i = Some k \<and> ak_KeyHash k = h"
  using get_hash [of d h, OF _ refl] by (auto simp: store_ops pg_GetByHash_def one_key_def)

lemma pg_Create_cases:
  assumes "wf d"
  shows "wf (snd (st_Create (postgres_ops db) k d)) \<and>
    (table (snd (st_Create (postgres_ops db) k d)) = table d \<or>
     table d (ak_ID k) = None \<and> (\<forall>i k'. table d i = Some k' \<longrightarrow> ak_KeyHash k' \<noteq> ak_KeyHash k) \<and>
       table (snd (st_Create (postgres_ops db) k d)) = (table d)(ak_ID k \<mapsto> kept_times stored k))"
  using insert [OF assms, of k] by (auto simp: store_ops pg_Create_def split: prod.split sum.split)

lemma pg_Update_cases:
  assumes "wf d"
  shows "wf (snd (st_Update (postgres_ops db) k d)) \<and>
    (fst (st_Update (postgres_ops db) k d) \<noteq> Ok () \<and> table (snd (st_Update (postgres_ops db) k d)) = table d \<or>
     (\<exists>k0. table d (ak_ID k) = Some k0 \<and> table (snd (st_Update (postgres_ops db) k d)) = (table d)(ak_ID k \<mapsto> updated_row stored k k0)))"
  using update [OF assms, of k] by (auto simp: store_ops pg_Update_def affected_def split: prod.split)

text \<open>A hash is dead when a row has it and every row that has it is revoked.\<close>

definition dead :: "string \<Rightarrow> 'd \<Rightarrow> bool" where
  "dead h d \<longleftrightarrow> wf d \<and> (\<exists>i k. table d i = Some k \<and> ak_KeyHash k = h) \<and>
     (\<forall>i k. table d i = Some k \<longrightarrow> ak_KeyHash k = h \<longrightarrow> ak_RevokedAt k \<noteq> None)"

definition dead_in :: "string \<Rightarrow> 'd DefaultManager \<Rightarrow> bool" where
  "dead_in h m \<longleftrightarrow> (\<exists>d. dm_store m = Some d \<and> dead h d)"

lemma dead_insert:
  assumes "dead h d" "wf d'" "table d' = (table d)(i \<mapsto> k)" "table d i = None" "ak_KeyHash k \<noteq> h"
  shows "dead h d'"
proof -
  obtain i0 k0 where "table d i0 = Some k0" "ak_KeyHash k0 = h" using assms(1) by (auto simp: dead_def)
  moreover from this assms(4) have "i0 \<noteq> i" by auto
  ultimately show ?thesis using assms by (auto simp: dead_def)
qed

lemma dead_replace:
  assumes "dead h d" "wf d'" "table d' = (table d)(i \<mapsto> k')" "table d i = Some k" "ak_KeyHash k' = ak_KeyHash k"
    "ak_RevokedAt k \<noteq> None \<Longrightarrow> ak_RevokedAt k' \<noteq> None"
  shows "dead h d'"
proof -
  obtain i0 k0 where "table d i0 = Some k0" "ak_KeyHash k0 = h" using assms(1) by (auto simp: dead_def)
  with assms(3-5) have "\<exists>k. table d' i0 = Some k \<and> ak_KeyHash k = h" by (cases "i0 = i") auto
  moreover have "ak_RevokedAt k'' \<noteq> None" if "table d' j = Some k''" "ak_KeyHash k'' = h" for j k''
  proof (cases "j = i")
    case True
    with that assms(3,5) have "k'' = k'" "ak_KeyHash k = h" by auto
    with assms(1,4,6) show ?thesis by (auto simp: dead_def)
  next
    case False
    with that assms(1,3) show ?thesis by (auto simp: dead_def)
  qed
  ultimately show ?thesis using assms(2) by (auto simp: dead_def)
qed

lemma dead_create:
  assumes "dead h d"
  shows "dead h (snd (st_Create (postgres_ops db) k d))"
proof -
  have w: "wf d" using assms by (simp add: dead_def)
  show ?thesis
  proof (cases "table (snd (st_Create (postgres_ops db) k d)) = table d")
    case True
    with assms pg_Create_cases [OF w, of k] show ?thesis by (simp add: dead_def)
  next
    case False
    with pg_Create_cases [OF w, of k] have c: "wf (snd (st_Create (postgres_ops db) k d))" "table d (ak_ID k) = None"
      "\<forall>i k'. table d i = Some k' \<longrightarrow> ak_KeyHash k' \<noteq> ak_KeyHash k"
      "table (snd (st_Create (postgres_ops db) k d)) = (table d)(ak_ID k \<mapsto> kept_times stored k)" by auto
    from assms obtain i0 k0 where "table d i0 = Some k0" "ak_KeyHash k0 = h" by (auto simp: dead_def)
    with c(3) [rule_format, of i0 k0] have "ak_KeyHash (kept_times stored k) \<noteq> h" by (auto simp: kept_times_def)
    with dead_insert [OF assms c(1,4,2)] show ?thesis by simp
  qed
qed

lemma dead_update:
  assumes "dead h d" "table d i = Some k" "k' = k\<lparr>ak_RevokedAt := Some now\<rparr> \<or> k' = k\<lparr>ak_LastUsedAt := Some now\<rparr>"
  shows "dead h (snd (st_Update (postgres_ops db) k' d))"
proof -
  have w: "wf d" using assms(1) by (simp add: dead_def)
  have i: "ak_ID k' = i" using own_id [OF w assms(2)] assms(3) by auto
  show ?thesis
  proof (cases "table (snd (st_Update (postgres_ops db) k' d)) = table d")
    case True
    with assms(1) pg_Update_cases [OF w, of k'] show ?thesis by (auto simp: dead_def)
  next
    case False
    with pg_Update_cases [OF w, of k'] i assms(2)
    have c: "wf (snd (st_Update (postgres_ops db) k' d))" "table (snd (st_Update (postgres_ops db) k' d)) = (table d)(i \<mapsto> updated_row stored k' k)" by auto
    from dead_replace [OF assms(1) c assms(2)] assms(3) show ?thesis by (auto simp: updated_row_def)
  qed
qed

lemma dead_Create: "dead_in h m \<Longrightarrow> dead_in h (snd (Create sha256 (postgres_ops db) inp req m))"
  using Create_store [of sha256 "postgres_ops db" inp req m] dead_create by (auto simp: dead_in_def)

lemma dead_Update:
  assumes "dead_in h m"
  shows "dead_in h (snd (Revoke (postgres_ops db) now kid m))" "dead_in h (snd (UpdateLastUsed (postgres_ops db) now kid m))"
  using Update_store [of "postgres_ops db" now kid m] assms pg_Get_Ok [of _ kid] dead_update
  by (auto simp: dead_in_def) (metis dead_def)+

lemma dead_run: "dead_in h m \<Longrightarrow> dead_in h (run_manager sha256 (postgres_ops db) opl m)"
proof (induction opl arbitrary: m)
  case (Cons op opl)
  have "dead_in h (run_op sha256 (postgres_ops db) op m)"
  proof (cases op)
    case (OpRotate inp kid)
    with Rotate_state [of sha256 "postgres_ops db" inp kid m] Cons.prems show ?thesis by (auto simp: dead_Create dead_Update)
  qed (simp_all add: Cons.prems dead_Create dead_Update)
  with Cons.IH show ?case by simp
qed simp

lemma dead_validate: "dead_in (HashKey sha256 p) m \<Longrightarrow> Validate sha256 (postgres_ops db) now p m \<noteq> Ok k"
proof
  assume m: "dead_in (HashKey sha256 p) m" "Validate sha256 (postgres_ops db) now p m = Ok k"
  then obtain d where d: "dm_store m = Some d" "dead (HashKey sha256 p) d" by (auto simp: dead_in_def)
  with m(2) have v: "st_GetByHash (postgres_ops db) (HashKey sha256 p) d = Ok k" "\<not> IsRevoked k"
    by (auto simp: Validate_def split: result_splits)
  have "wf d" using d(2) by (simp add: dead_def)
  with pg_GetByHash_Ok [OF this v(1)] d(2) v(2) show False unfolding dead_def IsRevoked_def by metis
qed

lemma dead_by_Revoke:
  assumes "dm_store m = Some d" "wf d" "table d kid = Some k" "fst (Revoke (postgres_ops db) now kid m) = Ok ()"
  shows "dead_in (ak_KeyHash k) (snd (Revoke (postgres_ops db) now kid m))"
proof -
  let ?k = "k\<lparr>ak_RevokedAt := Some now\<rparr>"
  have id: "ak_ID ?k = kid" using own_id [OF assms(2,3)] by simp
  have g: "st_Get (postgres_ops db) kid d = Ok k" "fst (st_Update (postgres_ops db) ?k d) = Ok ()"
    "snd (Revoke (postgres_ops db) now kid m) = m\<lparr>dm_store := Some (snd (st_Update (postgres_ops db) ?k d))\<rparr>"
    using assms pg_Get_Ok [OF assms(2), of kid] by (auto simp: Revoke_def split: result_splits)
  from pg_Update_cases [OF assms(2), of ?k] g(2) id assms(3)
  have "wf (snd (st_Update (postgres_ops db) ?k d))" "table (snd (st_Update (postgres_ops db) ?k d)) = (table d)(kid \<mapsto> updated_row stored ?k k)" by auto
  with unique_hash [OF assms(2) _ assms(3)] g(3) show ?thesis
    by (auto simp: dead_in_def dead_def updated_row_def split: if_splits)
qed

end

text \<open>C16. With the Postgres store too a revoked key is dead: once \<open>Revoke\<close> of a stored key has returned without an error, no
  run of the manager, whatever it creates, rotates, revokes or touches and whichever of its statements fail, with or
  without effect, makes the key's plaintext pass \<open>Validate\<close> again.\<close>

theorem pg_revoked_never_validates:
  assumes "key_table db valid table stored" "dm_store m = Some d" "valid d" "table d kid = Some k" "ak_KeyHash k = HashKey sha256 p"
    "fst (Revoke (postgres_ops db) now kid m) = Ok ()"
  shows "\<nexists>k'. Validate sha256 (postgres_ops db) now' p
    (run_manager sha256 (postgres_ops db) opl (snd (Revoke (postgres_ops db) now kid m))) = Ok k'"
  using key_table.dead_validate [OF assms(1) key_table.dead_run [OF assms(1) key_table.dead_by_Revoke [OF assms(1-4,6), unfolded assms(5)]]] by blast



section \<open>A table\<close>

text \<open>The table as a list of rows, with the failures the next statements meet: \<open>Some (e, applied)\<close> is an error that reaches
  the caller although the statement may have been applied.\<close>

type_synonym key_rows = "APIKey list \<times> (string \<times> bool) option list"

definition same_key :: "APIKey \<Rightarrow> APIKey \<Rightarrow> bool" where
  "same_key k r \<longleftrightarrow> ak_ID r = ak_ID k \<or> ak_KeyHash r = ak_KeyHash k"

definition exec_insert :: "any list \<Rightarrow> APIKey list \<Rightarrow> (string, int) result \<times> APIKey list" where
  "exec_insert args rows =
     (case scan_key args of
        None \<Rightarrow> (Inl ''invalid input'', rows)
      | Some k \<Rightarrow> if list_ex (same_key k) rows then (Inl ''duplicate key value violates unique constraint'', rows) else (Inr 1, k # rows))"

definition exec_update :: "any list \<Rightarrow> APIKey list \<Rightarrow> (string, int) result \<times> APIKey list" where
  "exec_update args rows =
     (case args of
        [i, n, sc, e, l, r] \<Rightarrow>
          (case (scan_text i, scan_text n, scan_texts sc, scan_null_time e, scan_null_time l, scan_null_time r) of
             (Some i', Some n', Some sc', Some e', Some l', Some r') \<Rightarrow>
               (Inr (int (length (filter (\<lambda>k. ak_ID k = i') rows))),
                map (\<lambda>k. if ak_ID k = i' then k\<lparr>ak_Name := n', ak_Scopes := sc', ak_ExpiresAt := e', ak_LastUsedAt := l', ak_RevokedAt := r'\<rparr> else k) rows)
           | _ \<Rightarrow> (Inl ''invalid input'', rows))
      | _ \<Rightarrow> (Inl ''wrong number of arguments'', rows))"

definition exec_delete :: "any list \<Rightarrow> APIKey list \<Rightarrow> (string, int) result \<times> APIKey list" where
  "exec_delete args rows =
     (case args of
        [AString i] \<Rightarrow> (Inr (int (length (filter (\<lambda>k. ak_ID k = i) rows))), filter (\<lambda>k. ak_ID k \<noteq> i) rows)
      | _ \<Rightarrow> (Inl ''wrong arguments'', rows))"

definition with_failure :: "(APIKey list \<Rightarrow> (string, int) result \<times> APIKey list) \<Rightarrow> key_rows \<Rightarrow> (string, int) result \<times> key_rows" where
  "with_failure run d =
     (case snd d of
        Some (er, applied) # fs \<Rightarrow> (Inl er, (if applied then snd (run (fst d)) else fst d, fs))
      | fs \<Rightarrow> (fst (run (fst d)), (snd (run (fst d)), drop 1 fs)))"

definition table_db :: "(key_rows, unit) sql_db" where
  "table_db = \<lparr>
     db_Exec = (\<lambda>sql args. with_failure
       (if sql = sql_insert_key then exec_insert args else if sql = sql_update_key then exec_update args
        else if sql = sql_delete_key then exec_delete args else (\<lambda>rows. (Inl ''unknown statement'', rows)))),
     db_QueryRow = (\<lambda>sql args d.
       (if sql = sql_count_keys
        then (case args of [AString t, AString u] \<Rightarrow>
                Inr [AInt (int (length (filter (\<lambda>k. ak_TenantID k = t \<and> ak_UserID k = u \<and> ak_RevokedAt k = None) (fst d))))]
              | _ \<Rightarrow> Inl (RowError ''wrong arguments''))
        else (case (case args of [AString x] \<Rightarrow> find (\<lambda>k. (if sql = sql_get_key then ak_ID k else ak_KeyHash k) = x) (fst d) | _ \<Rightarrow> None) of
                None \<Rightarrow> Inl ErrNoRows | Some k \<Rightarrow> Inr (key_args k)), d)),
     db_Query = (\<lambda>sql args d. case args of
         [AString t, AString u] \<Rightarrow>
           Inr (map key_args (rev (sort_key ak_CreatedAt (filter (\<lambda>k. ak_TenantID k = t \<and> ak_UserID k = u) (fst d)))), None)
       | _ \<Rightarrow> Inl ''wrong arguments''),
     db_Begin = (\<lambda>d. Inl ''no transactions''), db_Prepare = (\<lambda>sql t. Inl ''no transactions''),
     db_TxExec = (\<lambda>sql args t. (Inl ''no transactions'', t)), db_Commit = (\<lambda>t d. (Inl ''no transactions'', d)),
     db_Rollback = (\<lambda>t d. d)\<rparr>"

definition rows_wf :: "key_rows \<Rightarrow> bool" where
  "rows_wf d \<longleftrightarrow> distinct (map ak_ID (fst d)) \<and> distinct (map ak_KeyHash (fst d))"

definition row_at :: "key_rows \<Rightarrow> string \<Rightarrow> APIKey option" where "row_at d i = find (\<lambda>k. ak_ID k = i) (fst d)"

lemma sql_texts_distinct [simp]:
  "sql_update_key \<noteq> sql_insert_key" "sql_delete_key \<noteq> sql_insert_key" "sql_delete_key \<noteq> sql_update_key"
  "sql_get_hash \<noteq> sql_get_key" "sql_get_key \<noteq> sql_count_keys" "sql_get_hash \<noteq> sql_count_keys"
  by (simp_all add: sql_insert_key_def sql_update_key_def sql_delete_key_def sql_get_key_def sql_get_hash_def sql_count_keys_def key_columns_def)

lemma kept_times_id [simp]: "kept_times (\<lambda>t. t) k = k"
  by (simp add: kept_times_def option.map_ident)

lemma row_at_iff: "distinct (map ak_ID rows) \<Longrightarrow> row_at (rows, fs) i = Some k \<longleftrightarrow> k \<in> set rows \<and> ak_ID k = i"
  by (induction rows) (auto simp: row_at_def image_iff)

lemma row_at_None: "row_at (rows, fs) i = None \<longleftrightarrow> (\<forall>k\<in>set rows. ak_ID k \<noteq> i)"
  by (auto simp: row_at_def find_None_iff)

lemma run_cases:
  assumes "with_failure run d = (r, d')"
  shows "(\<exists>er. r = Inl er) \<and> fst d' = fst d \<or> (r = fst (run (fst d)) \<or> (\<exists>er. r = Inl er)) \<and> fst d' = snd (run (fst d))"
  using assms by (auto simp: with_failure_def split: list.splits option.splits prod.splits if_splits)

lemma row_at_fst: "fst d = rows \<Longrightarrow> row_at d = row_at (rows, [])"
  by (auto simp: row_at_def fun_eq_iff)


lemma find_update:
  assumes "\<And>k. ak_ID (f k) = ak_ID k"
  shows "find (\<lambda>k. ak_ID k = j) (map (\<lambda>k. if ak_ID k = i then f k else k) rows) =
    (if j = i then map_option f (find (\<lambda>k. ak_ID k = i) rows) else find (\<lambda>k. ak_ID k = j) rows)"
  using assms by (induction rows) auto

lemma find_delete:
  "find (\<lambda>k. ak_ID k = j) (filter (\<lambda>k. ak_ID k \<noteq> i) rows) = (if j = i then None else find (\<lambda>k. ak_ID k = j) rows)"
  by (induction rows) auto

lemma count_id:
  "distinct (map ak_ID rows) \<Longrightarrow> length (filter (\<lambda>k. ak_ID k = i) rows) = (if find (\<lambda>k. ak_ID k = i) rows = None then 0 else 1)"
proof (induction rows)
  case (Cons k rows)
  then have "ak_ID k = i \<Longrightarrow> filter (\<lambda>k. ak_ID k = i) rows = []" by (auto simp: filter_empty_conv image_iff)
  with Cons show ?case by auto
qed simp

lemma count_rows:
  assumes "distinct (map ak_ID rows)"
  shows "card {i. \<exists>k. row_at (rows, fs) i = Some k \<and> P k} = length (filter P rows)"
proof -
  have "{i. \<exists>k. row_at (rows, fs) i = Some k \<and> P k} = set (map ak_ID (filter P rows))"
    by (auto simp: row_at_iff [OF assms])
  then show ?thesis using distinct_card [OF distinct_map_filter [OF assms, of P]] by simp
qed

lemma exec_insert_rows:
  assumes "rows_wf d" "with_failure (exec_insert (key_args k)) d = (r, d')"
  shows "rows_wf d' \<and> ((\<exists>er. r = Inl er) \<and> row_at d' = row_at d \<or>
    row_at d (ak_ID k) = None \<and> (\<forall>i k'. row_at d i = Some k' \<longrightarrow> ak_KeyHash k' \<noteq> ak_KeyHash k) \<and> row_at d' = (row_at d)(ak_ID k \<mapsto> k))"
proof -
  obtain rows fs rows' fs' where d: "d = (rows, fs)" "d' = (rows', fs')" by (cases d; cases d')
  have "fst d' = fst d \<and> (\<exists>er. r = Inl er) \<or> \<not> list_ex (same_key k) rows \<and> rows' = k # rows"
    using run_cases [OF assms(2)] by (auto simp: d exec_insert_def split: if_splits)
  then show ?thesis
  proof
    assume "fst d' = fst d \<and> (\<exists>er. r = Inl er)"
    with assms(1) show ?thesis by (simp add: d rows_wf_def row_at_def fun_eq_iff)
  next
    assume *: "\<not> list_ex (same_key k) rows \<and> rows' = k # rows"
    then have f: "\<forall>r\<in>set rows. ak_ID r \<noteq> ak_ID k \<and> ak_KeyHash r \<noteq> ak_KeyHash k" by (auto simp: list_ex_iff same_key_def)
    then have "rows_wf d'" using assms(1) * by (auto simp: d rows_wf_def)
    moreover have "row_at d' = (row_at d)(ak_ID k \<mapsto> k)" using * by (auto simp: d row_at_def fun_eq_iff)
    moreover have "row_at d (ak_ID k) = None" using f by (simp add: d row_at_None)
    moreover have "ak_KeyHash k' \<noteq> ak_KeyHash k" if "row_at d i = Some k'" for i k'
      using f that assms(1) by (auto simp: d rows_wf_def row_at_iff)
    ultimately show ?thesis by blast
  qed
qed

lemma exec_update_rows:
  assumes "rows_wf d" "with_failure (exec_update [AString (ak_ID k), AString (ak_Name k), AStrings (ak_Scopes k), null_time (ak_ExpiresAt k),
      null_time (ak_LastUsedAt k), null_time (ak_RevokedAt k)]) d = (r, d')"
  shows "rows_wf d' \<and> ((\<exists>er. r = Inl er) \<and> row_at d' = row_at d \<or>
    r = Inr 0 \<and> row_at d (ak_ID k) = None \<and> row_at d' = row_at d \<or>
    (r = Inr 1 \<or> (\<exists>er. r = Inl er)) \<and> (\<exists>k0. row_at d (ak_ID k) = Some k0 \<and> row_at d' = (row_at d)(ak_ID k \<mapsto> updated_row (\<lambda>t. t) k k0)))"
proof -
  obtain rows fs rows' fs' where d: "d = (rows, fs)" "d' = (rows', fs')" by (cases d; cases d')
  let ?u = "updated_row (\<lambda>t. t) k" and ?n = "length (filter (\<lambda>x. ak_ID x = ak_ID k) rows)"
  have e: "exec_update [AString (ak_ID k), AString (ak_Name k), AStrings (ak_Scopes k), null_time (ak_ExpiresAt k),
      null_time (ak_LastUsedAt k), null_time (ak_RevokedAt k)] rows =
      (Inr (int ?n), map (\<lambda>x. if ak_ID x = ak_ID k then ?u x else x) rows)"
    by (simp add: exec_update_def scan_defs updated_row_def option.map_ident split: option.split)
  have n: "?n = (if row_at d (ak_ID k) = None then 0 else 1)"
    using count_id [of rows "ak_ID k"] assms(1) by (simp add: d rows_wf_def row_at_def)
  have "fst d' = fst d \<and> (\<exists>er. r = Inl er) \<or> (r = Inr (int ?n) \<or> (\<exists>er. r = Inl er)) \<and> rows' = map (\<lambda>x. if ak_ID x = ak_ID k then ?u x else x) rows"
    using run_cases [OF assms(2)] by (auto simp: d e)
  then show ?thesis
  proof
    assume "fst d' = fst d \<and> (\<exists>er. r = Inl er)"
    with assms(1) show ?thesis by (simp add: d rows_wf_def row_at_def fun_eq_iff)
  next
    assume *: "(r = Inr (int ?n) \<or> (\<exists>er. r = Inl er)) \<and> rows' = map (\<lambda>x. if ak_ID x = ak_ID k then ?u x else x) rows"
    have keep: "ak_ID (?u x) = ak_ID x" "ak_KeyHash (?u x) = ak_KeyHash x" for x by (simp_all add: updated_row_def)
    then have ids: "map ak_ID rows' = map ak_ID rows" "map ak_KeyHash rows' = map ak_KeyHash rows" using * by auto
    then have "rows_wf d'" using assms(1) by (simp add: d rows_wf_def)
    moreover have "row_at d' = (\<lambda>j. if j = ak_ID k then map_option ?u (row_at d (ak_ID k)) else row_at d j)"
      using * by (auto simp: d row_at_def fun_eq_iff find_update keep)
    then have "row_at d' = (case row_at d (ak_ID k) of None \<Rightarrow> row_at d | Some k0 \<Rightarrow> (row_at d)(ak_ID k \<mapsto> ?u k0))"
      by (auto simp: fun_eq_iff split: option.split)
    ultimately show ?thesis using * n by (cases "row_at d (ak_ID k)") auto
  qed
qed

lemma exec_delete_rows:
  assumes "rows_wf d" "with_failure (exec_delete [AString i]) d = (r, d')"
  shows "rows_wf d' \<and> ((\<exists>er. r = Inl er) \<and> row_at d' = row_at d \<or>
    (r = Inr (if row_at d i = None then 0 else 1) \<or> (\<exists>er. r = Inl er)) \<and> row_at d' = (row_at d)(i := None))"
proof -
  obtain rows fs rows' fs' where d: "d = (rows, fs)" "d' = (rows', fs')" by (cases d; cases d')
  have n: "length (filter (\<lambda>k. ak_ID k = i) rows) = (if row_at d i = None then 0 else 1)"
    using count_id [of rows i] assms(1) by (simp add: d rows_wf_def row_at_def)
  have "fst d' = fst d \<and> (\<exists>er. r = Inl er) \<or>
    (r = Inr (if row_at d i = None then 0 else 1) \<or> (\<exists>er. r = Inl er)) \<and> rows' = filter (\<lambda>k. ak_ID k \<noteq> i) rows"
    using run_cases [OF assms(2)] n by (auto simp: d exec_delete_def)
  then show ?thesis
  proof
    assume "fst d' = fst d \<and> (\<exists>er. r = Inl er)"
    with assms(1) show ?thesis by (simp add: d rows_wf_def row_at_def fun_eq_iff)
  next
    assume *: "(r = Inr (if row_at d i = None then 0 else 1) \<or> (\<exists>er. r = Inl er)) \<and> rows' = filter (\<lambda>k. ak_ID k \<noteq> i) rows"
    then have "rows_wf d'" using assms(1) by (simp add: d rows_wf_def distinct_map_filter)
    moreover have "row_at d' = (row_at d)(i := None)" using * by (auto simp: d row_at_def fun_eq_iff find_delete)
    ultimately show ?thesis using * by auto
  qed
qed

interpretation keys_table: key_table table_db rows_wf row_at "\<lambda>t. t"
proof
  fix d i k
  assume "rows_wf d" "row_at d i = Some k"
  then show "ak_ID k = i" by (cases d) (simp add: rows_wf_def row_at_iff)
next
  fix d i j k k'
  assume "rows_wf d" "row_at d i = Some k" "row_at d j = Some k'" "ak_KeyHash k = ak_KeyHash k'"
  then show "i = j" by (cases d) (auto simp: rows_wf_def row_at_iff distinct_map inj_on_def)
next
  fix d r d' and k :: APIKey
  assume "rows_wf d" "db_Exec table_db sql_insert_key (key_args k) d = (r, d')"
  with exec_insert_rows [of d k r d'] show "rows_wf d' \<and> ((\<exists>er. r = Inl er) \<and> row_at d' = row_at d \<or>
      row_at d (ak_ID k) = None \<and> (\<forall>i k'. row_at d i = Some k' \<longrightarrow> ak_KeyHash k' \<noteq> ak_KeyHash k) \<and>
      row_at d' = (row_at d)(ak_ID k \<mapsto> kept_times (\<lambda>t. t) k))"
    by (simp add: table_db_def)
next
  fix d r d' and k :: APIKey
  assume "rows_wf d" "db_Exec table_db sql_update_key [AString (ak_ID k), AString (ak_Name k), AStrings (ak_Scopes k), null_time (ak_ExpiresAt k),
      null_time (ak_LastUsedAt k), null_time (ak_RevokedAt k)] d = (r, d')"
  with exec_update_rows [of d k r d'] show "rows_wf d' \<and> ((\<exists>er. r = Inl er) \<and> row_at d' = row_at d \<or>
      r = Inr 0 \<and> row_at d (ak_ID k) = None \<and> row_at d' = row_at d \<or>
      (r = Inr 1 \<or> (\<exists>er. r = Inl er)) \<and> (\<exists>k0. row_at d (ak_ID k) = Some k0 \<and> row_at d' = (row_at d)(ak_ID k \<mapsto> updated_row (\<lambda>t. t) k k0)))"
    by (simp add: table_db_def)
next
  fix d i r d'
  assume "rows_wf d" "db_Exec table_db sql_delete_key [AString i] d = (r, d')"
  with exec_delete_rows [of d i r d'] show "rows_wf d' \<and> ((\<exists>er. r = Inl er) \<and> row_at d' = row_at d \<or>
      (r = Inr (if row_at d i = None then 0 else 1) \<or> (\<exists>er. r = Inl er)) \<and> row_at d' = (row_at d)(i := None))"
    by (simp add: table_db_def)
next
  fix d i q
  assume "rows_wf d" "fst (db_QueryRow table_db sql_get_key [AString i] d) = q"
  then show "(\<exists>er. q = Inl (RowError er)) \<or> q = (case row_at d i of None \<Rightarrow> Inl ErrNoRows | Some k \<Rightarrow> Inr (key_args k))"
    by (simp add: table_db_def row_at_def)
next
  fix d h q
  assume w: "rows_wf d" and q: "fst (db_QueryRow table_db sql_get_hash [AString h] d) = q"
  show "(\<exists>er. q = Inl (RowError er)) \<or> q = Inl ErrNoRows \<and> (\<forall>i k. row_at d i = Some k \<longrightarrow> ak_KeyHash k \<noteq> h) \<or>
      (\<exists>i k. row_at d i = Some k \<and> ak_KeyHash k = h \<and> q = Inr (key_args k))"
  proof (cases "find (\<lambda>k. ak_KeyHash k = h) (fst d)")
    case None
    then have "\<forall>k\<in>set (fst d). ak_KeyHash k \<noteq> h" by (auto simp: find_None_iff)
    with None q w show ?thesis by (cases d) (auto simp: table_db_def rows_wf_def row_at_iff)
  next
    case (Some k)
    then have "k \<in> set (fst d)" "ak_KeyHash k = h" by (auto simp: find_Some_iff)
    with Some q w show ?thesis by (cases d) (auto simp: table_db_def rows_wf_def row_at_iff)
  qed
next
  fix d t u rows
  assume "rows_wf d" "db_Query table_db sql_list_keys [AString t, AString u] d = Inr (rows, None)"
  then show "\<exists>ks. rows = map key_args ks \<and> set ks = {k. \<exists>i. row_at d i = Some k \<and> ak_TenantID k = t \<and> ak_UserID k = u}"
    by (cases d) (auto simp: table_db_def rows_wf_def row_at_iff)
next
  fix d t u q
  assume "rows_wf d" "fst (db_QueryRow table_db sql_count_keys [AString t, AString u] d) = q"
  then show "(\<exists>er. q = Inl (RowError er)) \<or>
      q = Inr [AInt (int (card {i. \<exists>k. row_at d i = Some k \<and> ak_TenantID k = t \<and> ak_UserID k = u \<and> ak_RevokedAt k = None}))]"
    by (cases d) (auto simp: table_db_def rows_wf_def count_rows)
qed


definition demo_pg :: "(string \<times> bool) option list \<Rightarrow> key_rows DefaultManager" where
  "demo_pg fails = \<lparr>dm_store = Some ([demo_key 0 ''a''], fails), dm_cfg = demo_config, dm_enabled = True\<rparr>"

theorem pg_revoked_never_validates_witness:
  "\<nexists>k'. Validate demo_hash (postgres_ops table_db) 100 (''fmg_'' @ EncodeToString ''a'')
    (run_manager demo_hash (postgres_ops table_db) [OpUpdateLastUsed 6 ''a'', OpCreate (demo_inputs 7 ''a'') demo_request, OpUpdateLastUsed 8 ''a'']
      (snd (Revoke (postgres_ops table_db) 5 ''a'' (demo_pg [None, Some (''connection reset'', True)])))) = Ok k'"
proof -
  let ?d = "([demo_key 0 ''a''], [None, Some (''connection reset'', True)])" and ?m = "demo_pg [None, Some (''connection reset'', True)]"
  have s: "dm_store ?m = Some ?d" by (simp add: demo_pg_def)
  have t: "rows_wf ?d" "row_at ?d ''a'' = Some (demo_key 0 ''a'')" "ak_KeyHash (demo_key 0 ''a'') = HashKey demo_hash (''fmg_'' @ EncodeToString ''a'')"
    by code_simp+
  have r: "fst (Revoke (postgres_ops table_db) 5 ''a'' ?m) = Ok ()" by code_simp
  show ?thesis
    by (rule pg_revoked_never_validates [where table = row_at and kid = "''a''" and d = ?d, OF keys_table.key_table_axioms s t r])
qed


section \<open>Where the two stores differ\<close>

context key_table
begin

lemma pg_count_unrevoked:
  assumes "wf d" "pg_CountByUser db t u d = Ok n"
  shows "n = int (card {i. \<exists>k. table d i = Some k \<and> ak_TenantID k = t \<and> ak_UserID k = u \<and> ak_RevokedAt k = None})"
  using count [OF assms(1) refl, of t u] assms(2) by (auto simp: pg_CountByUser_def)

lemma scan_keys_args: "scan_keys (map key_args ks) = Ok ks"
  by (induction ks) simp_all

lemma pg_list_exact:
  assumes "wf d" "pg_List db t u d = Ok ks"
  shows "set ks = {k. \<exists>i. table d i = Some k \<and> ak_TenantID k = t \<and> ak_UserID k = u}"
proof -
  obtain rows where "db_Query db sql_list_keys [AString t, AString u] d = Inr (rows, None)" "scan_keys rows = Ok ks"
    using assms(2) by (auto simp: pg_List_def split: result_splits)
  with list [OF assms(1), of t u rows] show ?thesis by (auto simp: scan_keys_args)
qed

end

text \<open>An expired key counts against the limit of keys with Postgres and not in memory; listing the keys of a tenant with
  an empty user finds all keys of the tenant in memory and none of them with Postgres.\<close>

lemma expired_key_counts:
  "let k = (demo_key 0 ''a'')\<lparr>ak_ExpiresAt := Some 10\<rparr>
   in pg_CountByUser table_db ''acme'' ''ada'' ([k], []) = Ok 1 \<and>
      mem_CountByUser 20 ''acme'' ''ada'' (snd (mem_Create k NewMemoryStore)) = Ok 0"
  by code_simp

lemma tenant_list_differs:
  "let k = demo_key 0 ''a''
   in pg_List table_db ''acme'' [] ([k], []) = Ok [] \<and> mem_List ''acme'' [] (snd (mem_Create k NewMemoryStore)) = Ok [k]"
  by code_simp

end
