(* ===== verification/Quota_Postgres.thy ===== *)
theory Quota_Postgres
  imports Quota Storage
begin

text \<open>
  The package \<open>internal/quota\<close>, file \<open>postgres.go\<close>: the quota store over Postgres. The locale \<open>quota_tables\<close> states what its
  statements do to the tables \<open>quotas\<close> and \<open>quota_usage\<close> of a database whose statements succeed; a sum that does not
  fit the column type is an error, not a wrap-around. The locale gives the contract \<open>quota_store\<close> of the manager, and
  is interpreted on a pair of maps.

  Shown here: checked calls never pass the limit with this store either, and a quota that is set is read back, its
  soft limit cut off at zero.
\<close>

section \<open>Statements\<close>

definition sql_get_quota :: string where
  "sql_get_quota = ''SELECT tenant_id, user_id, quota_type, limit_value, soft_limit, period, created_at, updated_at FROM quotas '' @
     ''WHERE tenant_id = $1 AND user_id = $2 AND quota_type = $3''"

definition sql_set_quota :: string where
  "sql_set_quota = ''INSERT INTO quotas (tenant_id, user_id, quota_type, limit_value, soft_limit, period, created_at, updated_at) '' @
     ''VALUES ($1, $2, $3, $4, $5, $6, NOW(), NOW()) ON CONFLICT (tenant_id, user_id, quota_type) DO UPDATE SET '' @
     ''limit_value = EXCLUDED.limit_value, soft_limit = EXCLUDED.soft_limit, period = EXCLUDED.period, updated_at = NOW()''"

definition sql_delete_quota :: string where
  "sql_delete_quota = ''DELETE FROM quotas WHERE tenant_id = $1 AND user_id = $2 AND quota_type = $3''"

definition usage_columns :: string where
  "usage_columns = ''tenant_id, user_id, quota_type, period_start, period_end, current_usage, last_updated''"

definition sql_get_usage :: string where
  "sql_get_usage = ''SELECT '' @ usage_columns @ '' FROM quota_usage WHERE tenant_id = $1 AND user_id = $2 AND quota_type = $3 AND period_start = $4''"

definition sql_increment :: string where
  "sql_increment = ''INSERT INTO quota_usage ('' @ usage_columns @ '') VALUES ($1, $2, $3, $4, $5, $6, NOW()) '' @
     ''ON CONFLICT (tenant_id, user_id, quota_type, period_start) DO UPDATE SET '' @
     ''current_usage = quota_usage.current_usage + EXCLUDED.current_usage, last_updated = NOW() RETURNING current_usage''"

definition sql_history :: string where
  "sql_history = ''SELECT '' @ usage_columns @ '' FROM quota_usage WHERE tenant_id = $1 AND quota_type = $2 AND period_start >= $3 ORDER BY period_start DESC''"

text \<open>The columns of a quota, with a soft limit that may be absent, and of a counter.\<close>

definition quota_row :: "Quota \<Rightarrow> int option \<Rightarrow> any list" where
  "quota_row q soft =
     [AString (qt_TenantID q), AString (qt_UserID q), AString (qt_Type q), AInt (qt_Limit q),
      (case soft of None \<Rightarrow> ANil | Some n \<Rightarrow> AInt n), AString (qt_Period q), ATime (qt_CreatedAt q), ATime (qt_UpdatedAt q)]"

definition usage_row :: "Usage \<Rightarrow> any list" where
  "usage_row u =
     [AString (us_TenantID u), AString (us_UserID u), AString (us_Type u), ATime (us_PeriodStart u), ATime (us_PeriodEnd u),
      AInt (us_Current u), ATime (us_LastUpdated u)]"

definition scan_quota :: "any list \<Rightarrow> Quota option" where
  "scan_quota row =
     (case row of
        [t, u, y, l, s, p, c, a] \<Rightarrow>
          (case (scan_text t, scan_text u, scan_text y, scan_int l, scan_null_int s, scan_text p, scan_time c, scan_time a) of
             (Some t', Some u', Some y', Some l', Some soft, Some p', Some c', Some a') \<Rightarrow>
               Some \<lparr>qt_TenantID = t', qt_UserID = u', qt_Type = y', qt_Limit = l',
                     qt_SoftLimit = (case soft of None \<Rightarrow> 0 | Some n \<Rightarrow> n), qt_Period = p', qt_CreatedAt = c', qt_UpdatedAt = a'\<rparr>
           | _ \<Rightarrow> None)
      | _ \<Rightarrow> None)"

definition scan_usage :: "any list \<Rightarrow> Usage option" where
  "scan_usage row =
     (case row of
        [t, u, y, s, e, c, a] \<Rightarrow>
          (case (scan_text t, scan_text u, scan_text y, scan_time s, scan_time e, scan_int c, scan_time a) of
             (Some t', Some u', Some y', Some s', Some e', Some c', Some a') \<Rightarrow>
               Some \<lparr>us_TenantID = t', us_UserID = u', us_Type = y', us_PeriodStart = s', us_PeriodEnd = e', us_Current = c', us_LastUpdated = a'\<rparr>
           | _ \<Rightarrow> None)
      | _ \<Rightarrow> None)"

lemma scan_quota_row [simp]: "scan_quota (quota_row q soft) = Some (q\<lparr>qt_SoftLimit := (case soft of None \<Rightarrow> 0 | Some n \<Rightarrow> n)\<rparr>)"
  by (cases soft) (simp_all add: scan_quota_def quota_row_def scan_defs)

lemma scan_usage_row [simp]: "scan_usage (usage_row u) = Some u"
  by (simp add: scan_usage_def usage_row_def scan_defs)


section \<open>The store\<close>

definition pg_GetQuota :: "('d, 't) sql_db \<Rightarrow> string \<Rightarrow> string \<Rightarrow> string \<Rightarrow> 'd \<Rightarrow> (quota_error, Quota) result" where
  "pg_GetQuota db tenantID userID quotaType d =
     (case fst (db_QueryRow db sql_get_quota [AString tenantID, AString userID, AString quotaType] d) of
        Inl ErrNoRows \<Rightarrow> Err ErrQuotaNotFound
      | Inl (RowError er) \<Rightarrow> Err (ErrStoreFailure er)
      | Inr row \<Rightarrow> (case scan_quota row of None \<Rightarrow> Err (ErrStoreFailure scan_error) | Some q \<Rightarrow> Ok q))"

definition soft_arg :: "int \<Rightarrow> any" where "soft_arg soft = (if soft > 0 then AInt soft else ANil)"

definition exec_ok :: "(string, int) result \<Rightarrow> (quota_error, unit) result" where
  "exec_ok r = (case r of Inl er \<Rightarrow> Err (ErrStoreFailure er) | Inr _ \<Rightarrow> Ok ())"

definition pg_SetQuota :: "('d, 't) sql_db \<Rightarrow> Quota \<Rightarrow> 'd \<Rightarrow> (quota_error, unit) result \<times> 'd" where
  "pg_SetQuota db quota d =
     (case db_Exec db sql_set_quota
             [AString (qt_TenantID quota), AString (qt_UserID quota), AString (qt_Type quota), AInt (qt_Limit quota),
              soft_arg (qt_SoftLimit quota), AString (qt_Period quota)] d of
        (r, d') \<Rightarrow> (exec_ok r, d'))"

definition pg_DeleteQuota :: "('d, 't) sql_db \<Rightarrow> string \<Rightarrow> string \<Rightarrow> string \<Rightarrow> 'd \<Rightarrow> (quota_error, unit) result \<times> 'd" where
  "pg_DeleteQuota db tenantID userID quotaType d =
     (case db_Exec db sql_delete_quota [AString tenantID, AString userID, AString quotaType] d of (r, d') \<Rightarrow> (exec_ok r, d'))"

definition pg_GetUsage :: "('d, 't) sql_db \<Rightarrow> string \<Rightarrow> string \<Rightarrow> string \<Rightarrow> time \<Rightarrow> 'd \<Rightarrow> (quota_error, Usage) result" where
  "pg_GetUsage db tenantID userID quotaType periodStart d =
     (case fst (db_QueryRow db sql_get_usage [AString tenantID, AString userID, AString quotaType, ATime periodStart] d) of
        Inl ErrNoRows \<Rightarrow> Ok \<lparr>us_TenantID = tenantID, us_UserID = userID, us_Type = quotaType, us_PeriodStart = periodStart,
                             us_PeriodEnd = 0, us_Current = 0, us_LastUpdated = 0\<rparr>
      | Inl (RowError er) \<Rightarrow> Err (ErrStoreFailure er)
      | Inr row \<Rightarrow> (case scan_usage row of None \<Rightarrow> Err (ErrStoreFailure scan_error) | Some u \<Rightarrow> Ok u))"

definition pg_IncrementUsage :: "('d, 't) sql_db \<Rightarrow> string \<Rightarrow> string \<Rightarrow> string \<Rightarrow> int \<Rightarrow> time \<Rightarrow> time \<Rightarrow> 'd \<Rightarrow>
    (quota_error, int) result \<times> 'd" where
  "pg_IncrementUsage db tenantID userID quotaType amount periodStart periodEnd d =
     (case db_QueryRow db sql_increment
             [AString tenantID, AString userID, AString quotaType, ATime periodStart, ATime periodEnd, AInt amount] d of
        (Inl ErrNoRows, d') \<Rightarrow> (Err (ErrStoreFailure ''sql: no rows in result set''), d')
      | (Inl (RowError er), d') \<Rightarrow> (Err (ErrStoreFailure er), d')
      | (Inr row, d') \<Rightarrow> (case row of [AInt newUsage] \<Rightarrow> (Ok newUsage, d') | _ \<Rightarrow> (Err (ErrStoreFailure scan_error), d')))"

fun scan_usages :: "any list list \<Rightarrow> (quota_error, Usage list) result" where
  "scan_usages [] = Ok []"
| "scan_usages (row # rows) =
     (case scan_usage row of
        None \<Rightarrow> Err (ErrStoreFailure scan_error)
      | Some u \<Rightarrow> (case scan_usages rows of Inl er \<Rightarrow> Err er | Inr us \<Rightarrow> Ok (u # us)))"

definition pg_GetUsageHistory :: "('d, 't) sql_db \<Rightarrow> string \<Rightarrow> string \<Rightarrow> time \<Rightarrow> 'd \<Rightarrow> (quota_error, Usage list) result" where
  "pg_GetUsageHistory db tenantID quotaType since d =
     (case db_Query db sql_history [AString tenantID, AString quotaType, ATime since] d of
        Inl er \<Rightarrow> Err (ErrStoreFailure er)
      | Inr (rows, er) \<Rightarrow>
          (case scan_usages rows of
             Inl e \<Rightarrow> Err e
           | Inr usages \<Rightarrow> (case er of None \<Rightarrow> Ok usages | Some e \<Rightarrow> Err (ErrStoreFailure e))))"

text \<open>Opening the store; \<open>migrate\<close> is the error of the migration that creates its tables.\<close>

definition newPostgresStoreFromConfig ::
    "(string \<Rightarrow> (string, 'h) result) \<Rightarrow> ('h \<Rightarrow> string option) \<Rightarrow> ('h \<Rightarrow> string option) \<Rightarrow> Config \<Rightarrow> (string, 'h Postgres) result" where
  "newPostgresStoreFromConfig sqlOpen ping migrate cfg = open_store sqlOpen ping migrate (qc_PostgresURL cfg)"

definition postgres_ops :: "('d, 't) sql_db \<Rightarrow> 'd Store" where
  "postgres_ops db = \<lparr>qs_GetQuota = pg_GetQuota db, qs_SetQuota = (\<lambda>now. pg_SetQuota db), qs_DeleteQuota = pg_DeleteQuota db,
     qs_GetUsage = pg_GetUsage db, qs_IncrementUsage = (\<lambda>now. pg_IncrementUsage db)\<rparr>"

declare postgres_ops_def [store_ops]



section \<open>What the store relies on\<close>

text \<open>The rows of the two tables by their primary keys: a quota with its soft limit, which may be absent, and a counter. A
  period start is compared as the column keeps it. The statements of a healthy database succeed.\<close>

locale quota_tables =
  fixes db :: "('d, 't) sql_db" and healthy :: "'d \<Rightarrow> bool"
    and quotas :: "'d \<Rightarrow> string \<times> string \<times> string \<Rightarrow> (Quota \<times> int option) option"
    and counters :: "'d \<Rightarrow> string \<times> string \<times> string \<times> time \<Rightarrow> Usage option" and stored :: "time \<Rightarrow> time"
  assumes get_quota: "healthy d \<Longrightarrow> fst (db_QueryRow db sql_get_quota [AString tn, AString us, AString ty] d) =
      (case quotas d (tn, us, ty) of None \<Rightarrow> Inl ErrNoRows | Some (q, soft) \<Rightarrow> Inr (quota_row q soft))"
    and set_quota: "healthy d \<Longrightarrow> db_Exec db sql_set_quota [AString tn, AString us, AString ty, AInt limit, s, AString p] d = (r, d') \<Longrightarrow>
      scan_null_int s = Some soft \<Longrightarrow> healthy d' \<and> r = Inr 1 \<and> counters d' = counters d \<and>
      (\<exists>c a. quotas d' = (quotas d)((tn, us, ty) \<mapsto>
         (\<lparr>qt_TenantID = tn, qt_UserID = us, qt_Type = ty, qt_Limit = limit, qt_SoftLimit = 0, qt_Period = p, qt_CreatedAt = c, qt_UpdatedAt = a\<rparr>, soft)))"
    and delete_quota: "healthy d \<Longrightarrow> db_Exec db sql_delete_quota [AString tn, AString us, AString ty] d = (r, d') \<Longrightarrow>
      healthy d' \<and> (\<exists>n. r = Inr n) \<and> counters d' = counters d \<and> quotas d' = (quotas d)((tn, us, ty) := None)"
    and get_usage: "healthy d \<Longrightarrow> fst (db_QueryRow db sql_get_usage [AString tn, AString us, AString ty, ATime ps] d) =
      (case counters d (tn, us, ty, stored ps) of None \<Rightarrow> Inl ErrNoRows | Some u \<Rightarrow> Inr (usage_row u))"
    and increment: "healthy d \<Longrightarrow>
      db_QueryRow db sql_increment [AString tn, AString us, AString ty, ATime ps, ATime pe, AInt a] d = (q, d') \<Longrightarrow>
      tot = (case counters d (tn, us, ty, stored ps) of None \<Rightarrow> 0 | Some u \<Rightarrow> us_Current u) + a \<Longrightarrow>
      healthy d' \<and> quotas d' = quotas d \<and>
      (if fits_int64 tot
       then q = Inr [AInt tot] \<and> (\<exists>u. us_Current u = tot \<and> counters d' = (counters d)((tn, us, ty, stored ps) \<mapsto> u))
       else (\<exists>er. q = Inl (RowError er)) \<and> counters d' = counters d)"
begin

definition used :: "'d \<Rightarrow> string \<Rightarrow> string \<Rightarrow> string \<Rightarrow> time \<Rightarrow> int" where
  "used d tn us ty ps = (case counters d (tn, us, ty, stored ps) of None \<Rightarrow> 0 | Some u \<Rightarrow> us_Current u)"

lemma increment_result:
  assumes "healthy d"
  shows "healthy (snd (qs_IncrementUsage (postgres_ops db) now tn us ty a ps pe d)) \<and>
    quotas (snd (qs_IncrementUsage (postgres_ops db) now tn us ty a ps pe d)) = quotas d \<and>
    (fits_int64 (used d tn us ty ps + a) \<longrightarrow>
      fst (qs_IncrementUsage (postgres_ops db) now tn us ty a ps pe d) = Ok (used d tn us ty ps + a) \<and>
      used (snd (qs_IncrementUsage (postgres_ops db) now tn us ty a ps pe d)) tn us ty ps = used d tn us ty ps + a)"
proof -
  obtain q d' where e: "db_QueryRow db sql_increment [AString tn, AString us, AString ty, ATime ps, ATime pe, AInt a] d = (q, d')" by force
  note i = increment [OF assms e, of "used d tn us ty ps + a"]
  have s: "snd (qs_IncrementUsage (postgres_ops db) now tn us ty a ps pe d) = d'"
    by (auto simp: store_ops pg_IncrementUsage_def e split: sum.split row_error.split list.split any.split)
  from i show ?thesis
    unfolding s by (auto simp: used_def store_ops pg_IncrementUsage_def e split: if_splits)
qed

lemma get_quota_row:
  "healthy d \<Longrightarrow> qs_GetQuota (postgres_ops db) tn us ty d =
    (case quotas d (tn, us, ty) of None \<Rightarrow> Err ErrQuotaNotFound
     | Some (q, soft) \<Rightarrow> Ok (q\<lparr>qt_SoftLimit := (case soft of None \<Rightarrow> 0 | Some n \<Rightarrow> n)\<rparr>))"
  by (simp add: store_ops pg_GetQuota_def get_quota split: option.split prod.split)

text \<open>A quota that is set is read back.\<close>

lemma set_get:
  assumes "healthy d" "qs_SetQuota (postgres_ops db) now q d = (r, d')"
  shows "r = Ok () \<and> healthy d' \<and> (\<exists>c a. qs_GetQuota (postgres_ops db) (qt_TenantID q) (qt_UserID q) (qt_Type q) d' =
    Ok (q\<lparr>qt_SoftLimit := max 0 (qt_SoftLimit q), qt_CreatedAt := c, qt_UpdatedAt := a\<rparr>))"
proof -
  let ?args = "[AString (qt_TenantID q), AString (qt_UserID q), AString (qt_Type q), AInt (qt_Limit q), soft_arg (qt_SoftLimit q), AString (qt_Period q)]"
  have soft: "scan_null_int (soft_arg (qt_SoftLimit q)) = Some (if qt_SoftLimit q > 0 then Some (qt_SoftLimit q) else None)"
    by (simp add: scan_defs soft_arg_def)
  obtain r0 where e: "db_Exec db sql_set_quota ?args d = (r0, d')" "r = exec_ok r0"
    using assms(2) by (auto simp: store_ops pg_SetQuota_def split: prod.splits)
  from set_quota [OF assms(1) e(1) soft] show ?thesis
    by (cases q) (auto simp: e(2) exec_ok_def get_quota_row)
qed

end

text \<open>The contract of the quota manager.\<close>

sublocale quota_tables \<subseteq> pgq: quota_store "postgres_ops db" healthy used
proof
  fix tn us ty ps s
  assume "healthy s"
  then show "\<exists>u. qs_GetUsage (postgres_ops db) tn us ty ps s = Ok u \<and> us_Current u = used s tn us ty ps"
    by (auto simp: store_ops pg_GetUsage_def get_usage used_def split: option.split)
next
  fix tn us ty ps a now pe s
  assume "healthy s" "fits_int64 (used s tn us ty ps + a)"
  then show "fst (qs_IncrementUsage (postgres_ops db) now tn us ty a ps pe s) = Ok (used s tn us ty ps + a) \<and>
      used (snd (qs_IncrementUsage (postgres_ops db) now tn us ty a ps pe s)) tn us ty ps = used s tn us ty ps + a"
    using increment_result by blast
next
  fix tn us ty ps a now pe s
  assume "healthy s"
  then show "healthy (snd (qs_IncrementUsage (postgres_ops db) now tn us ty a ps pe s))" using increment_result by blast
next
  fix tn' us' ty' tn us ty ps a now pe s
  assume "healthy s"
  then show "qs_GetQuota (postgres_ops db) tn' us' ty' (snd (qs_IncrementUsage (postgres_ops db) now tn us ty a ps pe s)) =
      qs_GetQuota (postgres_ops db) tn' us' ty' s"
    using increment_result [of s now tn us ty a ps pe] by (simp add: get_quota_row)
qed

context quota_tables
begin

lemma metered_counter:
  assumes "qm_enabled m" "qm_store m = Some d" "healthy d" "qc_EnforceHard (qm_cfg m)"
    "q = applicable_quota (postgres_ops db) (qm_cfg m) tn us ty d" "PeriodBounds (qt_Period q) now = (ps, pe)"
    "\<forall>(t, c)\<in>set calls. ps \<le> t \<and> t < pe \<and> 0 \<le> c \<and> qt_Limit q + c \<le> max_int64"
    "0 \<le> used d tn us ty ps" "used d tn us ty ps \<le> qt_Limit q"
  shows "\<exists>d'. qm_store (metered_run (postgres_ops db) tn us ty calls m) = Some d' \<and> healthy d' \<and>
    used d tn us ty ps \<le> used d' tn us ty ps \<and> used d' tn us ty ps \<le> qt_Limit q"
  using assms by (rule pgq.metered_bound)

lemma read_usage: "healthy d \<Longrightarrow> \<exists>u. pg_GetUsage db tn us ty ps d = Ok u \<and> us_Current u = used d tn us ty ps"
  using pgq.usage [of d tn us ty ps] by (simp add: store_ops)

end




section \<open>A pair of tables\<close>

type_synonym quota_maps = "(string \<times> string \<times> string, Quota \<times> int option) gomap \<times> (string \<times> string \<times> string \<times> time, Usage) gomap"

definition quota_key :: "any \<Rightarrow> any \<Rightarrow> any \<Rightarrow> (string \<times> string \<times> string) option" where
  "quota_key t u y = (case (scan_text t, scan_text u, scan_text y) of (Some t', Some u', Some y') \<Rightarrow> Some (t', u', y') | _ \<Rightarrow> None)"

definition exec_set :: "any list \<Rightarrow> quota_maps \<Rightarrow> (string, int) result \<times> quota_maps" where
  "exec_set args d =
     (case args of
        [t, u, y, l, s, p] \<Rightarrow>
          (case (quota_key t u y, scan_int l, scan_null_int s, scan_text p) of
             (Some (tn, us, ty), Some l', Some soft, Some p') \<Rightarrow>
               (Inr 1, (mput (tn, us, ty) (\<lparr>qt_TenantID = tn, qt_UserID = us, qt_Type = ty, qt_Limit = l', qt_SoftLimit = 0, qt_Period = p',
                                         qt_CreatedAt = 0, qt_UpdatedAt = 0\<rparr>, soft) (fst d), snd d))
           | _ \<Rightarrow> (Inl ''invalid input'', d))
      | _ \<Rightarrow> (Inl ''wrong number of arguments'', d))"

definition exec_drop :: "any list \<Rightarrow> quota_maps \<Rightarrow> (string, int) result \<times> quota_maps" where
  "exec_drop args d =
     (case args of
        [t, u, y] \<Rightarrow> (case quota_key t u y of Some k \<Rightarrow> (Inr 1, (mdel k (fst d), snd d)) | None \<Rightarrow> (Inl ''invalid input'', d))
      | _ \<Rightarrow> (Inl ''wrong number of arguments'', d))"

definition query_quota :: "any list \<Rightarrow> quota_maps \<Rightarrow> (row_error, any list) result" where
  "query_quota args d =
     (case args of
        [t, u, y] \<Rightarrow> (case Option.bind (quota_key t u y) (mget (fst d)) of None \<Rightarrow> Inl ErrNoRows | Some (q, soft) \<Rightarrow> Inr (quota_row q soft))
      | _ \<Rightarrow> Inl (RowError ''wrong number of arguments''))"

definition query_usage :: "any list \<Rightarrow> quota_maps \<Rightarrow> (row_error, any list) result" where
  "query_usage args d =
     (case args of
        [t, u, y, s] \<Rightarrow>
          (case (quota_key t u y, scan_time s) of
             (Some (tn, us, ty), Some ps) \<Rightarrow> (case mget (snd d) (tn, us, ty, ps) of None \<Rightarrow> Inl ErrNoRows | Some c \<Rightarrow> Inr (usage_row c))
           | _ \<Rightarrow> Inl (RowError ''invalid input''))
      | _ \<Rightarrow> Inl (RowError ''wrong number of arguments''))"

definition add_usage :: "any list \<Rightarrow> quota_maps \<Rightarrow> (row_error, any list) result \<times> quota_maps" where
  "add_usage args d =
     (case args of
        [t, u, y, s, e, a] \<Rightarrow>
          (case (quota_key t u y, scan_time s, scan_time e, scan_int a) of
             (Some (tn, us, ty), Some ps, Some pe, Some amount) \<Rightarrow>
               let c = (case mget (snd d) (tn, us, ty, ps) of
                          None \<Rightarrow> \<lparr>us_TenantID = tn, us_UserID = us, us_Type = ty, us_PeriodStart = ps, us_PeriodEnd = pe, us_Current = 0, us_LastUpdated = 0\<rparr>
                        | Some c \<Rightarrow> c);
                   tot = us_Current c + amount
               in if fits_int64 tot then (Inr [AInt tot], (fst d, mput (tn, us, ty, ps) (c\<lparr>us_Current := tot\<rparr>) (snd d)))
                  else (Inl (RowError ''bigint out of range''), d)
           | _ \<Rightarrow> (Inl (RowError ''invalid input''), d))
      | _ \<Rightarrow> (Inl (RowError ''wrong number of arguments''), d))"

definition quota_db :: "(quota_maps, unit) sql_db" where
  "quota_db = \<lparr>
     db_Exec = (\<lambda>sql. if sql = sql_set_quota then exec_set else if sql = sql_delete_quota then exec_drop else (\<lambda>args d. (Inl ''unknown statement'', d))),
     db_QueryRow = (\<lambda>sql args d. if sql = sql_increment then add_usage args d
                                 else (if sql = sql_get_quota then query_quota args d else query_usage args d, d)),
     db_Query = (\<lambda>sql args d. Inl ''unknown statement''),
     db_Begin = (\<lambda>d. Inl ''no transactions''), db_Prepare = (\<lambda>sql t. Inl ''no transactions''),
     db_TxExec = (\<lambda>sql args t. (Inl ''no transactions'', t)), db_Commit = (\<lambda>t d. (Inl ''no transactions'', d)),
     db_Rollback = (\<lambda>t d. d)\<rparr>"

lemma quota_texts_distinct [simp]:
  "sql_delete_quota \<noteq> sql_set_quota" "sql_get_quota \<noteq> sql_increment" "sql_get_usage \<noteq> sql_increment" "sql_get_usage \<noteq> sql_get_quota"
  by (simp_all add: sql_delete_quota_def sql_set_quota_def sql_get_quota_def sql_increment_def sql_get_usage_def usage_columns_def)

lemma quota_key_text [simp]: "quota_key (AString t) (AString u) (AString y) = Some (t, u, y)"
  by (simp add: quota_key_def scan_defs)

interpretation quota_maps: quota_tables quota_db "\<lambda>_. True" "\<lambda>d. mget (fst d)" "\<lambda>d. mget (snd d)" "\<lambda>t. t"
proof
  fix d tn us ty limit s p r d' soft
  assume "db_Exec quota_db sql_set_quota [AString tn, AString us, AString ty, AInt limit, s, AString p] d = (r, d')" "scan_null_int s = Some soft"
  then have "r = Inr 1 \<and> d' = (mput (tn, us, ty) (\<lparr>qt_TenantID = tn, qt_UserID = us, qt_Type = ty, qt_Limit = limit, qt_SoftLimit = 0,
      qt_Period = p, qt_CreatedAt = 0, qt_UpdatedAt = 0\<rparr>, soft) (fst d), snd d)"
    by (simp add: quota_db_def exec_set_def scan_text_def scan_int_def)
  then show "True \<and> r = Inr 1 \<and> mget (snd d') = mget (snd d) \<and> (\<exists>c a. mget (fst d') = (mget (fst d))((tn, us, ty) \<mapsto>
      (\<lparr>qt_TenantID = tn, qt_UserID = us, qt_Type = ty, qt_Limit = limit, qt_SoftLimit = 0, qt_Period = p, qt_CreatedAt = c, qt_UpdatedAt = a\<rparr>, soft)))"
    by (intro conjI exI [of _ "0 :: time"]) (auto simp: fun_eq_iff)
next
  fix d tn us ty ps pe a q d' tot
  assume "db_QueryRow quota_db sql_increment [AString tn, AString us, AString ty, ATime ps, ATime pe, AInt a] d = (q, d')"
    "tot = (case mget (snd d) (tn, us, ty, ps) of None \<Rightarrow> 0 | Some u \<Rightarrow> us_Current u) + a"
  then show "True \<and> mget (fst d') = mget (fst d) \<and>
      (if fits_int64 tot
       then q = Inr [AInt tot] \<and> (\<exists>u. us_Current u = tot \<and> mget (snd d') = (mget (snd d))((tn, us, ty, ps) \<mapsto> u))
       else (\<exists>er. q = Inl (RowError er)) \<and> mget (snd d') = mget (snd d))"
    by (auto simp: quota_db_def add_usage_def scan_time_def scan_int_def Let_def fun_eq_iff split: option.splits if_splits intro!: exI)
qed (auto simp: quota_db_def exec_drop_def query_quota_def query_usage_def scan_time_def fun_eq_iff split: option.split)

definition demo_pg :: "quota_maps DefaultManager" where
  "demo_pg = \<lparr>qm_store = Some ([((''acme'', ''ann'', ''requests''),
       (\<lparr>qt_TenantID = ''acme'', qt_UserID = ''ann'', qt_Type = ''requests'', qt_Limit = 7, qt_SoftLimit = 0, qt_Period = PeriodDaily,
         qt_CreatedAt = 0, qt_UpdatedAt = 0\<rparr>, Some 5))], []), qm_cfg = demo_config, qm_enabled = True, qm_webhooks = False\<rparr>"


end
