(* ===== verification/Usage_Export.thy ===== *)
theory Usage_Export
  imports Usage_Tracker
begin

text \<open>
  The exporter of \<open>internal/usage\<close> (\<open>exporter.go\<close>) and the statements the Postgres store builds
  (\<open>postgres.go\<close>); running them is in \<open>Usage_Postgres\<close>. JSON documents are the value handed to the encoder, as \<open>any\<close>; CSV is the text that
  \<open>encoding/csv\<close> writes. The writer behind an export does not fail here.

  Shown here: an RFC 4180 reader gets back the rows of a CSV export, and the filter of the SQL statements
  is the filter of the in-memory store, with every placeholder naming its own argument.
\<close>

section \<open>CSV\<close>

text \<open>\<open>csv.Writer\<close> with its default comma: which fields it quotes and how it writes a record.\<close>

definition fieldNeedsQuotes :: "string \<Rightarrow> bool" where
  "fieldNeedsQuotes field =
     (if field = [] then False
      else if field = [CHR 0x5C, CHR ''.''] then True
      else if list_ex (\<lambda>c. c = CHR 0x0A \<or> c = CHR 0x0D \<or> c = CHR 0x22 \<or> c = CHR '','') field then True
      else list_ex (\<lambda>e. prefix e field) space_encodings)"

definition csv_field :: "string \<Rightarrow> string" where
  "csv_field field =
     (if fieldNeedsQuotes field
      then CHR 0x22 # concat (map (\<lambda>c. if c = CHR 0x22 then [CHR 0x22, CHR 0x22] else [c]) field) @ [CHR 0x22]
      else field)"

definition csv_record :: "string list \<Rightarrow> string" where
  "csv_record record = Join (map csv_field record) '','' @ [CHR 0x0A]"

definition csv_write :: "string list list \<Rightarrow> string" where
  "csv_write rows = concat (map csv_record rows)"

text \<open>A reader in the sense of RFC 4180, one character at a time.\<close>

datatype csv_state = FieldStart | Plain | Quoted | QuoteEnd

fun csv_read :: "csv_state \<Rightarrow> string \<Rightarrow> string list \<Rightarrow> string list list \<Rightarrow> string \<Rightarrow> string list list option" where
  "csv_read st fld row rows [] = (if st = FieldStart \<and> row = [] then Some rows else None)"
| "csv_read st fld row rows (c # cs) =
     (if st = Quoted then
        (if c = CHR 0x22 then csv_read QuoteEnd fld row rows cs else csv_read Quoted (fld @ [c]) row rows cs)
      else if c = CHR '','' then csv_read FieldStart [] (row @ [fld]) rows cs
      else if c = CHR 0x0A then csv_read FieldStart [] [] (rows @ [row @ [fld]]) cs
      else if st = QuoteEnd then (if c = CHR 0x22 then csv_read Quoted (fld @ [c]) row rows cs else None)
      else if c = CHR 0x22 then (if st = FieldStart then csv_read Quoted fld row rows cs else None)
      else csv_read Plain (fld @ [c]) row rows cs)"

definition csv_parse :: "string \<Rightarrow> string list list option" where
  "csv_parse = csv_read FieldStart [] [] []"

abbreviation field_end :: "char \<Rightarrow> bool" where "field_end c \<equiv> c = CHR '','' \<or> c = CHR 0x0A"

lemma read_plain:
  "\<forall>c\<in>set f. c \<noteq> CHR '','' \<and> c \<noteq> CHR 0x0A \<and> c \<noteq> CHR 0x22 \<Longrightarrow>
   csv_read Plain fld row rows (f @ cs) = csv_read Plain (fld @ f) row rows cs"
  by (induction f arbitrary: fld) simp_all

lemma read_plain_start:
  assumes "\<forall>c\<in>set f. c \<noteq> CHR '','' \<and> c \<noteq> CHR 0x0A \<and> c \<noteq> CHR 0x22" "f \<noteq> []"
  shows "csv_read FieldStart [] row rows (f @ cs) = csv_read Plain f row rows cs"
proof -
  obtain c g where "f = c # g" using assms(2) by (cases f) auto
  with assms(1) read_plain [of g "[c]"] show ?thesis by simp
qed

lemma read_quoted:
  "csv_read Quoted fld row rows (concat (map (\<lambda>c. if c = CHR 0x22 then [CHR 0x22, CHR 0x22] else [c]) f) @ cs) =
   csv_read Quoted (fld @ f) row rows cs"
  by (induction f arbitrary: fld) auto

lemma not_quoted_plain:
  assumes "\<not> fieldNeedsQuotes f"
  shows "\<forall>c\<in>set f. c \<noteq> CHR '','' \<and> c \<noteq> CHR 0x0A \<and> c \<noteq> CHR 0x22"
  using assms by (auto simp: fieldNeedsQuotes_def list_ex_iff split: if_splits)

lemma read_field:
  assumes "field_end c"
  shows "csv_read FieldStart [] row rows (csv_field f @ c # cs) =
    (if c = CHR '','' then csv_read FieldStart [] (row @ [f]) rows cs else csv_read FieldStart [] [] (rows @ [row @ [f]]) cs)"
proof (cases "fieldNeedsQuotes f")
  case True
  with assms show ?thesis by (auto simp: csv_field_def read_quoted)
next
  case False
  show ?thesis
  proof (cases "f = []")
    case True
    with False assms show ?thesis by (auto simp: csv_field_def)
  next
    case ne: False
    with False not_quoted_plain [OF False] assms show ?thesis by (auto simp: csv_field_def read_plain_start)
  qed
qed

lemma read_record:
  "r \<noteq> [] \<Longrightarrow> csv_read FieldStart [] row rows (csv_record r @ cs) = csv_read FieldStart [] [] (rows @ [row @ r]) cs"
proof (induction r arbitrary: row)
  case (Cons f r)
  show ?case
  proof (cases r)
    case Nil
    then show ?thesis using read_field [of "CHR 0x0A" row rows f cs] by (simp add: csv_record_def)
  next
    case (Cons g r')
    then have "csv_record (f # r) @ cs = csv_field f @ CHR '','' # (csv_record r @ cs)" by (simp add: csv_record_def)
    with Cons.IH [of "row @ [f]"] Cons read_field [of "CHR '',''" row rows f] show ?thesis by simp
  qed
qed simp

lemma csv_parse_write:
  assumes "\<forall>r\<in>set rs. r \<noteq> []"
  shows "csv_parse (csv_write rs) = Some rs"
proof -
  have "csv_read FieldStart [] [] rows (csv_write rs) = Some (rows @ rs)" for rows
    using assms by (induction rs arbitrary: rows) (simp_all add: csv_write_def read_record)
  then show ?thesis by (simp add: csv_parse_def)
qed


section \<open>Documents\<close>

definition omitempty :: "string \<Rightarrow> any \<Rightarrow> (string \<times> any) list" where
  "omitempty key v = (if v = AString [] \<or> v = AInt 0 \<or> v = AMap [] then [] else [(key, v)])"

definition json_event :: "Event \<Rightarrow> any" where
  "json_event e = AMap
     ([(''id'', AString (ue_ID e)), (''timestamp'', ATime (ue_Timestamp e)), (''tenant_id'', AString (ue_TenantID e))] @
      omitempty ''user_id'' (AString (ue_UserID e)) @ omitempty ''tool_name'' (AString (ue_ToolName e)) @
      omitempty ''server_id'' (AString (ue_ServerID e)) @ [(''duration_ms'', AInt (Milliseconds (ue_Duration e)))] @
      omitempty ''tokens_in'' (AInt (ue_TokensIn e)) @ omitempty ''tokens_out'' (AInt (ue_TokensOut e)) @
      [(''success'', ABool (ue_Success e))] @ omitempty ''error_code'' (AString (ue_ErrorCode e)) @
      omitempty ''metadata'' (AMap (map (\<lambda>(k, v). (k, AString v)) (ue_Metadata e))))"

definition exportJSON :: "time \<Rightarrow> Event list \<Rightarrow> any" where
  "exportJSON now events =
     AMap [(''events'', AList (map json_event events)), (''count'', AInt (int (length events))), (''exported_at'', ATime now)]"

definition csv_header :: "string list" where
  "csv_header = [''id'', ''timestamp'', ''tenant_id'', ''user_id'', ''tool_name'', ''server_id'', ''duration_ms'', ''tokens_in'',
     ''tokens_out'', ''success'', ''error_code'']"

definition FormatBool :: "bool \<Rightarrow> string" where "FormatBool b = (if b then ''true'' else ''false'')"

definition csv_row :: "Event \<Rightarrow> string list" where
  "csv_row e = [ue_ID e, FormatRFC3339 (ue_Timestamp e), ue_TenantID e, ue_UserID e, ue_ToolName e, ue_ServerID e,
     Itoa (Milliseconds (ue_Duration e)), Itoa (ue_TokensIn e), Itoa (ue_TokensOut e), FormatBool (ue_Success e), ue_ErrorCode e]"

definition exportCSV :: "Event list \<Rightarrow> string" where
  "exportCSV events = csv_write (csv_header # map csv_row events)"

definition exportSummaryJSON :: "time \<Rightarrow> Summary \<Rightarrow> any" where
  "exportSummaryJSON now sm =
     (let successRate = (if sm_TotalEvents sm > 0
            then f64_mul (fl (f64_of_int (sm_SuccessCount sm) / f64_of_int (sm_TotalEvents sm))) 100 else 0)
      in AMap [(''summary'', AMap
        ([(''tenant_id'', AString (sm_TenantID sm))] @ omitempty ''user_id'' (AString (sm_UserID sm)) @
         [(''period_start'', ATime (sm_PeriodStart sm)), (''period_end'', ATime (sm_PeriodEnd sm)),
          (''total_events'', AInt (sm_TotalEvents sm)), (''success_count'', AInt (sm_SuccessCount sm)),
          (''error_count'', AInt (sm_ErrorCount sm)), (''success_rate'', AFloat successRate),
          (''total_tokens_in'', AInt (sm_TotalTokensIn sm)), (''total_tokens_out'', AInt (sm_TotalTokensOut sm)),
          (''total_duration_ms'', AInt (Milliseconds (sm_TotalDuration sm))),
          (''avg_duration_ms'', AInt (Milliseconds (sm_AvgDuration sm)))] @
         omitempty ''tool_breakdown'' (AMap (map (\<lambda>(k, n). (k, AInt n)) (sm_ToolBreakdown sm))))),
        (''exported_at'', ATime now)])"

definition summary_rows :: "Summary \<Rightarrow> string list list" where
  "summary_rows sm =
     [[''metric'', ''value''], [''tenant_id'', sm_TenantID sm], [''user_id'', sm_UserID sm],
      [''period_start'', FormatRFC3339 (sm_PeriodStart sm)], [''period_end'', FormatRFC3339 (sm_PeriodEnd sm)],
      [''total_events'', Itoa (sm_TotalEvents sm)], [''success_count'', Itoa (sm_SuccessCount sm)],
      [''error_count'', Itoa (sm_ErrorCount sm)], [''total_tokens_in'', Itoa (sm_TotalTokensIn sm)],
      [''total_tokens_out'', Itoa (sm_TotalTokensOut sm)],
      [''total_duration_ms'', Itoa (Milliseconds (sm_TotalDuration sm))],
      [''avg_duration_ms'', Itoa (Milliseconds (sm_AvgDuration sm))]] @
     (if length (sm_ToolBreakdown sm) > 0
      then [[[], []], [''tool'', ''count'']] @ map (\<lambda>(tool, count). [tool, Itoa count]) (sm_ToolBreakdown sm) else [])"


definition exportSummaryCSV :: "Summary \<Rightarrow> string" where
  "exportSummaryCSV sm = csv_write (summary_rows sm)"

datatype document = DocJSON any | DocCSV string

definition Export :: "'s Store \<Rightarrow> flush_env \<Rightarrow> time \<Rightarrow> QueryParams \<Rightarrow> string \<Rightarrow> 's DefaultTracker \<Rightarrow>
    (string, document) result \<times> 's DefaultTracker" where
  "Export ops env now params format t =
     (case Query ops env params t of
        (Inl er, t') \<Rightarrow> (Err (''query events: '' @ er), t')
      | (Inr events, t') \<Rightarrow>
          (if format = ''json'' then Ok (DocJSON (exportJSON now events))
           else if format = ''csv'' then Ok (DocCSV (exportCSV events))
           else Err (''unsupported format: '' @ format), t'))"

definition ExportSummary :: "'s Store \<Rightarrow> flush_env \<Rightarrow> time \<Rightarrow> string \<Rightarrow> string \<Rightarrow> time \<Rightarrow> time \<Rightarrow> string \<Rightarrow> 's DefaultTracker \<Rightarrow>
    (string, document) result \<times> 's DefaultTracker" where
  "ExportSummary ops env now tenantID userID start end_time format t =
     (case GetSummary ops env tenantID userID start end_time t of
        (Inl er, t') \<Rightarrow> (Err (''get summary: '' @ er), t')
      | (Inr sm, t') \<Rightarrow>
          (if format = ''json'' then Ok (DocJSON (exportSummaryJSON now sm))
           else if format = ''csv'' then Ok (DocCSV (exportSummaryCSV sm))
           else Err (''unsupported format: '' @ format), t'))"




section \<open>Statements of the Postgres store\<close>

text \<open>Positions of arguments are positive. White space between clauses is one blank.\<close>

fun itoa :: "nat \<Rightarrow> string" where
  "itoa n = (if n < 10 then [digit_char n] else itoa (n div 10) @ [digit_char (n mod 10)])"

declare itoa.simps [simp del]

lemma itoa_Itoa: "itoa n = Itoa (int n)"
proof -
  have "itoa n = nat_digits n"
    by (induction n rule: itoa.induct) (subst itoa.simps, subst nat_digits.simps, auto)
  then show ?thesis by (simp add: Itoa_def)
qed

text \<open>A statement under construction: its text, its arguments and the position of the next one.\<close>

type_synonym stmt = "string \<times> any list \<times> nat"

fun add_arg :: "bool \<Rightarrow> string \<Rightarrow> any \<Rightarrow> stmt \<Rightarrow> stmt" where
  "add_arg c clause v (query, args, argIdx) =
     (if c then (query @ clause @ itoa argIdx, args @ [v], argIdx + 1) else (query, args, argIdx))"

definition pg_range :: "time \<Rightarrow> time \<Rightarrow> stmt \<Rightarrow> stmt" where
  "pg_range start end_time =
     add_arg (\<not> IsZero end_time) '' AND timestamp <= $'' (ATime end_time) \<circ> add_arg (\<not> IsZero start) '' AND timestamp >= $'' (ATime start)"

definition pg_owner :: "string \<Rightarrow> string \<Rightarrow> stmt \<Rightarrow> stmt" where
  "pg_owner tenantID userID =
     add_arg (userID \<noteq> []) '' AND user_id = $'' (AString userID) \<circ> add_arg (tenantID \<noteq> []) '' AND tenant_id = $'' (AString tenantID)"

definition pg_select :: string where
  "pg_select = ''SELECT id, tenant_id, user_id, tool_name, server_id, timestamp, duration_ns, tokens_in, tokens_out, success, error_code, metadata FROM usage_events WHERE 1=1''"

definition pg_Query_stmt :: "QueryParams \<Rightarrow> string \<times> any list" where
  "pg_Query_stmt p =
     (let (query, args, argIdx) = pg_range (qp_StartTime p) (qp_EndTime p)
            (add_arg (qp_ToolName p \<noteq> []) '' AND tool_name = $'' (AString (qp_ToolName p)) (pg_owner (qp_TenantID p) (qp_UserID p) (pg_select, [], 1)));
          (query', args', argIdx') = add_arg (qp_Offset p > 0) '' OFFSET $'' (AInt (qp_Offset p))
            (add_arg (qp_Limit p > 0) '' LIMIT $'' (AInt (qp_Limit p)) (query @ '' ORDER BY timestamp DESC'', args, argIdx))
      in (query', args'))"

definition pg_Summary_stmt :: "string \<Rightarrow> string \<Rightarrow> time \<Rightarrow> time \<Rightarrow> string \<times> any list" where
  "pg_Summary_stmt tenantID userID start end_time =
     (let base = ''SELECT COUNT(*) as total_events, COALESCE(SUM(CASE WHEN success THEN 1 ELSE 0 END), 0) as success_count, COALESCE(SUM(CASE WHEN NOT success THEN 1 ELSE 0 END), 0) as error_count, COALESCE(SUM(tokens_in), 0) as total_tokens_in, COALESCE(SUM(tokens_out), 0) as total_tokens_out, COALESCE(SUM(duration_ns), 0) as total_duration_ns, COALESCE(AVG(duration_ns), 0) as avg_duration_ns FROM usage_events WHERE 1=1'';
          (query, args, argIdx) = pg_range start end_time (pg_owner tenantID userID (base, [], 1))
      in (query, args))"

definition pg_Breakdown_stmt :: "string \<Rightarrow> string \<Rightarrow> time \<Rightarrow> time \<Rightarrow> string \<times> any list" where
  "pg_Breakdown_stmt tenantID userID start end_time =
     (let base = ''SELECT tool_name, COUNT(*) as count FROM usage_events WHERE tool_name IS NOT NULL AND tool_name != '' @ [CHR 0x27, CHR 0x27];
          (query, args, argIdx) = pg_range start end_time (pg_owner tenantID userID (base, [], 1))
      in (query @ '' GROUP BY tool_name ORDER BY count DESC LIMIT 100'', args))"

text \<open>Clauses with their argument, and how a statement numbers them.\<close>

definition numbered :: "nat \<Rightarrow> (string \<times> any) list \<Rightarrow> string" where
  "numbered k cs = concat (map (\<lambda>(i, clause, v). clause @ Itoa (int i)) (enumerate k cs))"

definition clause_if :: "bool \<Rightarrow> 'a \<Rightarrow> 'a list" where "clause_if c x = (if c then [x] else [])"

definition filters :: "QueryParams \<Rightarrow> (string \<times> any) list" where
  "filters p =
     clause_if (qp_TenantID p \<noteq> []) ('' AND tenant_id = $'', AString (qp_TenantID p)) @
     clause_if (qp_UserID p \<noteq> []) ('' AND user_id = $'', AString (qp_UserID p)) @
     clause_if (qp_ToolName p \<noteq> []) ('' AND tool_name = $'', AString (qp_ToolName p)) @
     clause_if (qp_StartTime p \<noteq> 0) ('' AND timestamp >= $'', ATime (qp_StartTime p)) @
     clause_if (qp_EndTime p \<noteq> 0) ('' AND timestamp <= $'', ATime (qp_EndTime p))"

definition paging :: "QueryParams \<Rightarrow> (string \<times> any) list" where
  "paging p = clause_if (qp_Limit p > 0) ('' LIMIT $'', AInt (qp_Limit p)) @ clause_if (qp_Offset p > 0) ('' OFFSET $'', AInt (qp_Offset p))"

text \<open>What a clause says about a row.\<close>

definition clause_holds :: "Event \<Rightarrow> string \<times> any \<Rightarrow> bool" where
  "clause_holds e c =
     (case c of
        (clause, AString x) \<Rightarrow>
          clause = '' AND tenant_id = $'' \<and> ue_TenantID e = x \<or> clause = '' AND user_id = $'' \<and> ue_UserID e = x \<or>
          clause = '' AND tool_name = $'' \<and> ue_ToolName e = x
      | (clause, ATime x) \<Rightarrow>
          clause = '' AND timestamp >= $'' \<and> ue_Timestamp e \<ge> x \<or> clause = '' AND timestamp <= $'' \<and> ue_Timestamp e \<le> x
      | _ \<Rightarrow> False)"

fun with_clauses :: "(string \<times> any) list \<Rightarrow> stmt \<Rightarrow> stmt" where
  "with_clauses cs (query, args, argIdx) = (query @ numbered argIdx cs, args @ map snd cs, argIdx + length cs)"

lemma numbered_append: "numbered k (xs @ ys) = numbered k xs @ numbered (k + length xs) ys"
  by (simp add: numbered_def enumerate_append_eq)

lemma with_clauses_append [simp]: "with_clauses ys (with_clauses xs st) = with_clauses (xs @ ys) st"
  by (cases st) (simp add: numbered_append)

lemma add_arg_clauses: "add_arg c clause v st = with_clauses (clause_if c (clause, v)) st"
  by (cases st) (simp add: clause_if_def numbered_def itoa_Itoa)

lemma filters_statement:
  "pg_range (qp_StartTime p) (qp_EndTime p)
     (add_arg (qp_ToolName p \<noteq> []) '' AND tool_name = $'' (AString (qp_ToolName p)) (pg_owner (qp_TenantID p) (qp_UserID p) st)) =
   with_clauses (filters p) st"
  by (simp add: pg_range_def pg_owner_def add_arg_clauses filters_def IsZero_def)

text \<open>The Postgres store filters like the in-memory store: its statement is the selection followed by one
  clause per condition that is set, the k-th of which refers to argument k of the argument list, and an
  event matches a query in memory exactly when it satisfies these clauses.\<close>

theorem pg_Query_filters:
  "pg_Query_stmt p =
     (pg_select @ numbered 1 (filters p) @ '' ORDER BY timestamp DESC'' @ numbered (1 + length (filters p)) (paging p),
      map snd (filters p @ paging p)) \<and>
   (matches e p \<longleftrightarrow> list_all (clause_holds e) (filters p))"
proof
  show "pg_Query_stmt p =
     (pg_select @ numbered 1 (filters p) @ '' ORDER BY timestamp DESC'' @ numbered (1 + length (filters p)) (paging p),
      map snd (filters p @ paging p))"
    unfolding pg_Query_stmt_def filters_statement by (simp add: add_arg_clauses paging_def numbered_append)
  show "matches e p \<longleftrightarrow> list_all (clause_holds e) (filters p)"
    by (auto simp: matches_def filters_def clause_if_def clause_holds_def IsZero_def)
qed

end
