(* ===== verification/Usage_Postgres.thy ===== *)
theory Usage_Postgres
  imports Usage_Export Storage
begin

text \<open>
  The package \<open>internal/usage\<close>, file \<open>postgres.go\<close>: the event store over Postgres. A batch of events is written in one
  transaction, a query runs the statement of \<open>Usage_Export\<close> and scans its rows. The locale \<open>usage_table\<close> states what the
  transaction does to the table \<open>usage_events\<close>, read by ID, of which an insertion leaves existing rows alone; a commit
  that reports an error may have taken effect. JSON texts are represented by their values.

  Shown here: however often a batch is tried again, an attempt that succeeds leaves each of its events in the table
  once, and a batch that fails is there as a whole or not at all; and that the average of a summary, which the
  database returns as a decimal number, is not read back.
\<close>

section \<open>Rows\<close>

definition sql_insert_event :: string where
  "sql_insert_event = ''INSERT INTO usage_events (id, tenant_id, user_id, tool_name, server_id, timestamp, duration_ns, tokens_in, tokens_out, '' @
     ''success, error_code, metadata) VALUES ($1, $2, $3, $4, $5, $6, $7, $8, $9, $10, $11, $12) ON CONFLICT (id) DO NOTHING''"

definition sql_delete_events :: string where "sql_delete_events = ''DELETE FROM usage_events WHERE timestamp < $1''"

definition json_metadata :: "(string, string) gomap \<Rightarrow> any" where
  "json_metadata m = (if length m > 0 then AMap (map (\<lambda>(k, v). (k, AString v)) m) else ANil)"

definition event_args :: "Event \<Rightarrow> any list" where
  "event_args e =
     [AString (ue_ID e), AString (ue_TenantID e), AString (ue_UserID e), AString (ue_ToolName e), AString (ue_ServerID e),
      ATime (ue_Timestamp e), AInt (ue_Duration e), AInt (ue_TokensIn e), AInt (ue_TokensOut e), ABool (ue_Success e),
      (if ue_ErrorCode e \<noteq> [] then AString (ue_ErrorCode e) else ANil), json_metadata (ue_Metadata e)]"

definition scan_bool :: "any \<Rightarrow> bool option" where "scan_bool v = (case v of ABool b \<Rightarrow> Some b | _ \<Rightarrow> None)"
definition scan_null_text :: "any \<Rightarrow> string option" where "scan_null_text v = (case v of ANil \<Rightarrow> Some [] | AString s \<Rightarrow> Some s | _ \<Rightarrow> None)"

text \<open>\<open>json.Unmarshal\<close> of the metadata column; its error is ignored, and a value that is not a string leaves its key at the
  empty string.\<close>

definition read_metadata :: "any \<Rightarrow> (string, string) gomap" where
  "read_metadata v = (case v of AMap m \<Rightarrow> map (\<lambda>(k, x). (k, case x of AString s \<Rightarrow> s | _ \<Rightarrow> [])) m | _ \<Rightarrow> [])"

definition scan_event :: "any list \<Rightarrow> Event option" where
  "scan_event row =
     (case row of
        [i, t, u, n, sv, ts, d, ti, tou, ok, er, md] \<Rightarrow>
          (case (scan_text i, scan_text t, scan_text u, scan_text n, scan_text sv, scan_time ts, scan_int d, scan_int ti, scan_int tou,
                 scan_bool ok, scan_null_text er) of
             (Some i', Some t', Some u', Some n', Some sv', Some ts', Some d', Some ti', Some to', Some ok', Some er') \<Rightarrow>
               Some \<lparr>ue_ID = i', ue_Timestamp = ts', ue_TenantID = t', ue_UserID = u', ue_ToolName = n', ue_ServerID = sv', ue_Duration = d',
                     ue_TokensIn = ti', ue_TokensOut = to', ue_Success = ok', ue_ErrorCode = er', ue_Metadata = read_metadata md\<rparr>
           | _ \<Rightarrow> None)
      | _ \<Rightarrow> None)"

lemma read_json_metadata [simp]: "read_metadata (json_metadata m) = m"
proof -
  have "map ((\<lambda>(k, x). (k, case x of AString s \<Rightarrow> s | _ \<Rightarrow> [])) \<circ> (\<lambda>(k, v). (k, AString v))) m = m"
    by (induction m) auto
  then show ?thesis by (auto simp: read_metadata_def json_metadata_def)
qed

lemma scan_event_args [simp]: "scan_event (event_args e) = Some e"
  by (simp add: scan_event_def event_args_def scan_defs scan_bool_def scan_null_text_def)


section \<open>The store\<close>

fun insert_events :: "('d, 't) sql_db \<Rightarrow> Event list \<Rightarrow> 't \<Rightarrow> string option \<times> 't" where
  "insert_events db [] tx = (None, tx)"
| "insert_events db (e # events) tx =
     (case db_TxExec db sql_insert_event (event_args e) tx of
        (Inl er, tx') \<Rightarrow> (Some er, tx')
      | (Inr _, tx') \<Rightarrow> insert_events db events tx')"

text \<open>The deferred rollback undoes a transaction that was not committed and does nothing after a commit.\<close>

definition pg_Store :: "('d, 't) sql_db \<Rightarrow> Event list \<Rightarrow> 'd \<Rightarrow> (string, unit) result \<times> 'd" where
  "pg_Store db events d =
     (if events = [] then (Ok (), d)
      else (case db_Begin db d of
              Inl er \<Rightarrow> (Err er, d)
            | Inr tx \<Rightarrow>
                (case db_Prepare db sql_insert_event tx of
                   Inl er \<Rightarrow> (Err er, db_Rollback db tx d)
                 | Inr _ \<Rightarrow>
                     (case insert_events db events tx of
                        (Some er, tx') \<Rightarrow> (Err er, db_Rollback db tx' d)
                      | (None, tx') \<Rightarrow> db_Commit db tx' d))))"

fun scan_events :: "any list list \<Rightarrow> (string, Event list) result" where
  "scan_events [] = Ok []"
| "scan_events (row # rows) =
     (case scan_event row of
        None \<Rightarrow> Err scan_error
      | Some e \<Rightarrow> (case scan_events rows of Inl er \<Rightarrow> Err er | Inr es \<Rightarrow> Ok (e # es)))"

text \<open>Where the iteration ends with an error the code returns the events so far beside the error.\<close>

definition pg_Query :: "('d, 't) sql_db \<Rightarrow> QueryParams \<Rightarrow> 'd \<Rightarrow> (string, Event list) result" where
  "pg_Query db params d =
     (case pg_Query_stmt params of
        (query, args) \<Rightarrow>
          (case db_Query db query args d of
             Inl er \<Rightarrow> Err er
           | Inr (rows, er) \<Rightarrow>
               (case scan_events rows of
                  Inl e \<Rightarrow> Err e
                | Inr events \<Rightarrow> (case er of None \<Rightarrow> Ok events | Some e \<Rightarrow> Err e))))"

text \<open>Scanning into an \<open>int64\<close>: a number arrives as an integer, or as the text of a decimal number, which must be an
  integer literal.\<close>

definition scan_int64 :: "any \<Rightarrow> int option" where
  "scan_int64 v = (case v of AInt n \<Rightarrow> Some n | ANumber s \<Rightarrow> Atoi s | _ \<Rightarrow> None)"

definition scan_totals :: "any list \<Rightarrow> (int \<times> int \<times> int \<times> int \<times> int \<times> int \<times> int) option" where
  "scan_totals row =
     (case row of
        [n, ok, er, ti, tou, d, av] \<Rightarrow>
          (case (scan_int64 n, scan_int64 ok, scan_int64 er, scan_int64 ti, scan_int64 tou, scan_int64 d, scan_int64 av) of
             (Some n', Some ok', Some er', Some ti', Some to', Some d', Some av') \<Rightarrow> Some (n', ok', er', ti', to', d', av')
           | _ \<Rightarrow> None)
      | _ \<Rightarrow> None)"

text \<open>The breakdown skips rows that do not scan; an error of its query leaves it empty.\<close>

definition breakdown_row :: "any list \<Rightarrow> (string \<times> int) option" where
  "breakdown_row row =
     (case row of [n, c] \<Rightarrow> (case (scan_text n, scan_int64 c) of (Some n', Some c') \<Rightarrow> Some (n', c') | _ \<Rightarrow> None) | _ \<Rightarrow> None)"

definition pg_GetSummary :: "('d, 't) sql_db \<Rightarrow> string \<Rightarrow> string \<Rightarrow> time \<Rightarrow> time \<Rightarrow> 'd \<Rightarrow> (string, Summary) result" where
  "pg_GetSummary db tenantID userID start end_time d =
     (let (query, args) = pg_Summary_stmt tenantID userID start end_time
      in case fst (db_QueryRow db query args d) of
           Inl ErrNoRows \<Rightarrow> Err ''sql: no rows in result set''
         | Inl (RowError er) \<Rightarrow> Err er
         | Inr row \<Rightarrow>
             (case scan_totals row of
                None \<Rightarrow> Err scan_error
              | Some (n, ok, er, ti, tou, du, av) \<Rightarrow>
                  let (bquery, bargs) = pg_Breakdown_stmt tenantID userID start end_time;
                      rows = (case db_Query db bquery bargs d of Inl _ \<Rightarrow> [] | Inr (rows, _) \<Rightarrow> rows)
                  in Ok \<lparr>sm_TenantID = tenantID, sm_UserID = userID, sm_PeriodStart = start, sm_PeriodEnd = end_time, sm_TotalEvents = n,
                         sm_SuccessCount = ok, sm_ErrorCount = er, sm_TotalTokensIn = ti, sm_TotalTokensOut = tou, sm_TotalDuration = du,
                         sm_AvgDuration = av,
                         sm_ToolBreakdown = fold (\<lambda>(tool, c). mput tool c) (List.map_filter breakdown_row rows) []\<rparr>))"

definition pg_DeleteOlderThan :: "('d, 't) sql_db \<Rightarrow> time \<Rightarrow> 'd \<Rightarrow> (string, int) result \<times> 'd" where
  "pg_DeleteOlderThan db before d = db_Exec db sql_delete_events [ATime before] d"

text \<open>Opening the store; \<open>migrate\<close> is the error of the migration that creates its tables.\<close>

definition newPostgresStoreFromConfig ::
    "(string \<Rightarrow> (string, 'h) result) \<Rightarrow> ('h \<Rightarrow> string option) \<Rightarrow> ('h \<Rightarrow> string option) \<Rightarrow> Config \<Rightarrow> (string, 'h Postgres) result" where
  "newPostgresStoreFromConfig sqlOpen ping migrate cfg = open_store sqlOpen ping migrate (uc_PostgresURL cfg)"

definition postgres_ops :: "('d, 't) sql_db \<Rightarrow> 'd Store" where
  "postgres_ops db = \<lparr>us_Store = pg_Store db, us_Query = pg_Query db, us_GetSummary = pg_GetSummary db,
     us_DeleteOlderThan = pg_DeleteOlderThan db\<rparr>"

declare postgres_ops_def [store_ops]


section \<open>What the store relies on\<close>

text \<open>The table after an insertion: an existing row of the same ID stays.\<close>

definition put_new :: "(Event \<Rightarrow> Event) \<Rightarrow> Event \<Rightarrow> (string \<Rightarrow> Event option) \<Rightarrow> string \<Rightarrow> Event option" where
  "put_new stored e tbl = (case tbl (ue_ID e) of Some _ \<Rightarrow> tbl | None \<Rightarrow> tbl(ue_ID e \<mapsto> stored e))"

definition put_all :: "(Event \<Rightarrow> Event) \<Rightarrow> Event list \<Rightarrow> (string \<Rightarrow> Event option) \<Rightarrow> string \<Rightarrow> Event option" where
  "put_all stored = fold (put_new stored)"

lemma put_new_dom: "put_new stored e tbl i \<noteq> None \<longleftrightarrow> tbl i \<noteq> None \<or> i = ue_ID e"
  by (auto simp: put_new_def split: option.split)

lemma put_all_dom: "put_all stored es tbl i \<noteq> None \<longleftrightarrow> tbl i \<noteq> None \<or> i \<in> ue_ID ` set es"
proof (induction es arbitrary: tbl)
  case (Cons e es)
  have "put_all stored (e # es) tbl = put_all stored es (put_new stored e tbl)" by (simp add: put_all_def)
  then show ?case using Cons [of "put_new stored e tbl"] put_new_dom [of stored e tbl i] by auto
qed (simp add: put_all_def)

lemma put_all_present: "\<forall>e\<in>set es. tbl (ue_ID e) \<noteq> None \<Longrightarrow> put_all stored es tbl = tbl"
  by (induction es) (auto simp: put_all_def put_new_def)

lemma put_all_idem: "put_all stored es (put_all stored es tbl) = put_all stored es tbl"
  by (rule put_all_present) (use put_all_dom in blast)

locale usage_table =
  fixes db :: "('d, 't) sql_db" and table :: "'d \<Rightarrow> string \<Rightarrow> Event option" and tx_table :: "'t \<Rightarrow> string \<Rightarrow> Event option"
    and stored :: "Event \<Rightarrow> Event"
  assumes begins: "db_Begin db d = Inr tx \<Longrightarrow> tx_table tx = table d"
    and inserts: "db_TxExec db sql_insert_event (event_args e) tx = (Inr n, tx') \<Longrightarrow> tx_table tx' = put_new stored e (tx_table tx)"
    and commits: "db_Commit db tx d = (r, d') \<Longrightarrow> table d' = tx_table tx \<or> (\<exists>er. r = Inl er) \<and> table d' = table d"
    and rolls_back: "table (db_Rollback db tx d) = table d"
begin

lemma insert_events_table:
  "insert_events db es tx = (None, tx') \<Longrightarrow> tx_table tx' = put_all stored es (tx_table tx)"
  by (induction es arbitrary: tx) (auto simp: put_all_def inserts split: result_splits)

lemma pg_Store_table:
  assumes "us_Store (postgres_ops db) es d = (r, d')"
  shows "table d' = put_all stored es (table d) \<or> (\<exists>er. r = Inl er) \<and> table d' = table d"
proof (cases "es = []")
  case True
  then show ?thesis using assms by (simp add: store_ops pg_Store_def put_all_def)
next
  case ne: False
  show ?thesis
  proof (cases "db_Begin db d")
    case (Inl er)
    then show ?thesis using assms ne by (auto simp: store_ops pg_Store_def)
  next
    case tx: (Inr tx)
    obtain x tx' where ins: "insert_events db es tx = (x, tx')" by (cases "insert_events db es tx")
    show ?thesis
    proof (cases "db_Prepare db sql_insert_event tx")
      case (Inl er)
      then have "(r, d') = (Inl er, db_Rollback db tx d)" using assms ne tx by (simp add: store_ops pg_Store_def)
      then show ?thesis by (simp add: rolls_back)
    next
      case p: (Inr u)
      show ?thesis
      proof (cases x)
        case None
        then have "db_Commit db tx' d = (r, d')" using assms ne tx p ins by (simp add: store_ops pg_Store_def)
        then show ?thesis using commits insert_events_table [of es tx tx'] begins [OF tx] ins None by metis
      next
        case (Some er)
        then have "(r, d') = (Inl er, db_Rollback db tx' d)" using assms ne tx p ins by (simp add: store_ops pg_Store_def)
        then show ?thesis by (simp add: rolls_back)
      qed
    qed
  qed
qed

lemma retry_table:
  "retry_loop (postgres_ops db) es de le as d = (r, d', w) \<Longrightarrow> as \<noteq> [] \<or> le \<noteq> None \<Longrightarrow>
   table d' = put_all stored es (table d) \<or> r \<noteq> None \<and> table d' = table d"
proof (induction as arbitrary: de le d r d' w)
  case Nil
  then show ?case by auto
next
  case (Cons a as)
  obtain q d1 where st: "us_Store (postgres_ops db) es d = (q, d1)" by (cases "us_Store (postgres_ops db) es d")
  note s = pg_Store_table [OF st]
  show ?case
  proof (cases q)
    case (Inr u)
    with st Cons.prems s show ?thesis by (auto simp: Let_def split: if_splits)
  next
    case (Inl er)
    let ?d = "if a > 0 then wrap64 (de * 2) else de"
    obtain r2 d2 w2 where rest: "retry_loop (postgres_ops db) es ?d (Some er) as d1 = (r2, d2, w2)" by (metis prod_cases3)
    with st Inl Cons.prems have e: "r = r2" "d' = d2" by (auto simp: Let_def split: if_splits)
    from Cons.IH [OF rest] s show ?thesis by (auto simp: e put_all_idem)
  qed
qed

end

text \<open>C18. A batch is stored once: \<open>storeWithRetry\<close> over the Postgres store repeats a transaction whose commit failed, although the
  commit may have taken effect. When it reports success, every event of the batch is in the table, once and in its
  first version, and every other row is as before; when it reports an error, either so, or the table is unchanged.\<close>

theorem pg_batch_stored_once:
  assumes "usage_table db table tx_table stored" "storeWithRetry (postgres_ops db) cfg es d = (r, d', w)" "0 \<le> uc_MaxRetries cfg"
  shows "(r = None \<longrightarrow> table d' = put_all stored es (table d)) \<and>
    (r \<noteq> None \<longrightarrow> table d' = put_all stored es (table d) \<or> table d' = table d)"
proof -
  let ?n = "if uc_MaxRetries cfg = 0 then 3 else uc_MaxRetries cfg"
  have "[0..<nat (?n + 1)] \<noteq> []" using assms(3) by simp
  moreover obtain de where "retry_loop (postgres_ops db) es de None [0..<nat (?n + 1)] d = (r, d', w)"
    using assms(2) by (auto simp: storeWithRetry_def Let_def)
  ultimately show ?thesis using usage_table.retry_table [OF assms(1)] by blast
qed


section \<open>The average of a summary\<close>

text \<open>Postgres returns the average of integers as a decimal number with a fraction, which does not scan into an \<open>int64\<close>: a
  summary that covers an event fails, and one that covers none succeeds with the integer 0.\<close>

lemma Atoi_fraction: "CHR ''.'' \<in> set s \<Longrightarrow> Atoi s = None"
proof -
  have n: "\<not> is_digit CHR ''.''" by (simp add: is_digit_def less_eq_char_def)
  assume "CHR ''.'' \<in> set s"
  then obtain c r where s: "s = c # r" "c = CHR ''.'' \<or> CHR ''.'' \<in> set r" by (cases s) auto
  then show ?thesis using n by (auto simp: Atoi_def Let_def list_all_iff)
qed

lemma pg_GetSummary_average:
  assumes "pg_Summary_stmt tenant user t0 t1 = (query, args)"
    "fst (db_QueryRow db query args d) = Inr [n, ok, er, ti, tou, du, ANumber av]" "CHR ''.'' \<in> set av"
  shows "pg_GetSummary db tenant user t0 t1 d = Err scan_error"
  using assms by (simp add: pg_GetSummary_def scan_totals_def scan_int64_def Atoi_fraction split: option.splits)


section \<open>A table whose commits may fail\<close>

text \<open>The state holds the table and what becomes of the commits to come: \<open>None\<close> is a commit that succeeds, \<open>Some True\<close> one
  that takes effect and reports an error, \<open>Some False\<close> one that is lost.\<close>

type_synonym usage_map = "(string, Event) gomap"

definition exec_insert :: "any list \<Rightarrow> usage_map \<Rightarrow> (string, int) result \<times> usage_map" where
  "exec_insert args m =
     (case scan_event args of
        None \<Rightarrow> (Inl ''invalid input'', m)
      | Some e \<Rightarrow> (case mget m (ue_ID e) of Some _ \<Rightarrow> (Inr 0, m) | None \<Rightarrow> (Inr 1, mput (ue_ID e) e m)))"

definition commit_table :: "usage_map \<Rightarrow> usage_map \<times> bool option list \<Rightarrow> (string, unit) result \<times> usage_map \<times> bool option list" where
  "commit_table m d =
     (case snd d of
        [] \<Rightarrow> (Ok (), m, [])
      | None # script \<Rightarrow> (Ok (), m, script)
      | Some True # script \<Rightarrow> (Err ''connection lost'', m, script)
      | Some False # script \<Rightarrow> (Err ''connection lost'', fst d, script))"

definition usage_db :: "(usage_map \<times> bool option list, usage_map) sql_db" where
  "usage_db = \<lparr>
     db_Exec = (\<lambda>sql args d. (case args of
                    [ATime before] \<Rightarrow> (Inr (int (length (filter (\<lambda>(_, e). ue_Timestamp e < before) (fst d)))),
                                       filter (\<lambda>(_, e). \<not> ue_Timestamp e < before) (fst d), snd d)
                  | _ \<Rightarrow> (Inl ''invalid input'', d))),
     db_QueryRow = (\<lambda>sql args d. (Inl ErrNoRows, d)),
     db_Query = (\<lambda>sql args d. Inr (map (\<lambda>(_, e). event_args e) (fst d), None)),
     db_Begin = (\<lambda>d. Inr (fst d)), db_Prepare = (\<lambda>sql m. Ok ()),
     db_TxExec = (\<lambda>sql. exec_insert), db_Commit = commit_table, db_Rollback = (\<lambda>m d. d)\<rparr>"

interpretation usage_map: usage_table usage_db "\<lambda>d. mget (fst d)" mget "\<lambda>e. e"
  by unfold_locales
    (auto simp: usage_db_def exec_insert_def commit_table_def put_new_def fun_eq_iff
      split: option.splits list.splits bool.splits)

text \<open>Three attempts: the first commit takes effect but reports an error, the second is lost, the third succeeds.\<close>

theorem pg_batch_stored_once_witness:
  "\<exists>d' w. storeWithRetry (postgres_ops usage_db) demo_config demo_events ([], [Some True, Some False]) = (None, d', w) \<and>
     mget (fst d') = put_all (\<lambda>e. e) demo_events Map.empty"
proof -
  let ?d = "([], [Some True, Some False]) :: usage_map \<times> bool option list"
  obtain r d' w where run: "storeWithRetry (postgres_ops usage_db) demo_config demo_events ?d = (r, d', w)" by (metis prod_cases3)
  have "fst (storeWithRetry (postgres_ops usage_db) demo_config demo_events ?d) = None" by code_simp
  with run have r: "r = None" by simp
  have "0 \<le> uc_MaxRetries demo_config" by code_simp
  from pg_batch_stored_once [OF usage_map.usage_table_axioms run this] r run show ?thesis by simp
qed

end
