(* ===== verification/Storage_Schema.thy ===== *)
theory Storage_Schema
  imports Apikeys_Postgres Quota_Postgres Usage_Postgres
begin

text \<open>
  The migrations of \<open>internal/storage/postgres.go\<close>: the tables and indexes the gateway creates, as data from which the text
  sent to the database is printed, and what a column of PostgreSQL accepts. The stores are checked against the tables:
  their statements name the columns in the order of the table, so a row is well typed when each of its values fits the
  column at its place.

  Shown here: which keys, quotas, counters and events fit their tables, and which rows of the tables the stores can read
  back. A key fits unless a text is too long, where the configured prefix has room for twelve characters; one event with
  a text that is too long makes the whole batch fail it is written with; and the tables admit rows with absent values
  that cannot be read.
\<close>

section \<open>Tables and indexes\<close>

datatype column_type = VARCHAR nat | BIGINT | TIMESTAMPTZ | BOOLEAN | JSONB | TEXT_ARRAY

datatype column_constraint = NOT_NULL | UNIQUE | PRIMARY_KEY | DEFAULT string

record column =
  co_name :: string
  co_type :: column_type
  co_constraints :: "column_constraint list"

text \<open>\<open>CREATE TABLE\<close> with the columns of a primary key of several columns, and \<open>CREATE INDEX\<close>.\<close>

datatype ddl = CreateTable string "column list" "string list" | CreateIndex string string "string list"

definition col :: "string \<Rightarrow> column_type \<Rightarrow> column_constraint list \<Rightarrow> column" where
  "col n t cs = \<lparr>co_name = n, co_type = t, co_constraints = cs\<rparr>"

definition type_text :: "column_type \<Rightarrow> string" where
  "type_text t =
     (case t of
        VARCHAR n \<Rightarrow> ''VARCHAR('' @ Itoa (int n) @ '')''
      | BIGINT \<Rightarrow> ''BIGINT'' | TIMESTAMPTZ \<Rightarrow> ''TIMESTAMPTZ'' | BOOLEAN \<Rightarrow> ''BOOLEAN'' | JSONB \<Rightarrow> ''JSONB'' | TEXT_ARRAY \<Rightarrow> ''TEXT[]'')"

definition constraint_text :: "column_constraint \<Rightarrow> string" where
  "constraint_text c =
     (case c of NOT_NULL \<Rightarrow> ''NOT NULL'' | UNIQUE \<Rightarrow> ''UNIQUE'' | PRIMARY_KEY \<Rightarrow> ''PRIMARY KEY'' | DEFAULT v \<Rightarrow> ''DEFAULT '' @ v)"

definition column_text :: "column \<Rightarrow> string" where
  "column_text c = Join (co_name c # type_text (co_type c) # map constraint_text (co_constraints c)) '' ''"

definition new_line :: "nat \<Rightarrow> string" where "new_line tabs = CHR 0x0A # replicate tabs (CHR 0x09)"

definition ddl_text :: "ddl \<Rightarrow> string" where
  "ddl_text s =
     (case s of
        CreateTable n cols key \<Rightarrow>
          new_line 1 @ ''CREATE TABLE IF NOT EXISTS '' @ n @ '' ('' @
          Join (map (\<lambda>l. new_line 2 @ l)
                 (map column_text cols @ (if key = [] then [] else [''PRIMARY KEY ('' @ Join key '', '' @ '')'']))) '','' @
          new_line 1 @ '');''
      | CreateIndex i t cols \<Rightarrow>
          new_line 1 @ ''CREATE INDEX IF NOT EXISTS '' @ i @ new_line 1 @ ''ON '' @ t @ '' ('' @ Join cols '', '' @ '');'')"

definition schema_text :: "ddl list \<Rightarrow> string" where
  "schema_text ss = Join (map ddl_text ss) (new_line 0) @ new_line 1"

definition quotas_columns :: "column list" where
  "quotas_columns =
     [col ''tenant_id'' (VARCHAR 255) [NOT_NULL],
      col ''user_id'' (VARCHAR 255) [NOT_NULL, DEFAULT [CHR 0x27, CHR 0x27]],
      col ''quota_type'' (VARCHAR 50) [NOT_NULL],
      col ''limit_value'' BIGINT [NOT_NULL],
      col ''soft_limit'' BIGINT [],
      col ''period'' (VARCHAR 20) [NOT_NULL, DEFAULT (CHR 0x27 # ''daily'' @ [CHR 0x27])],
      col ''created_at'' TIMESTAMPTZ [DEFAULT ''NOW()''],
      col ''updated_at'' TIMESTAMPTZ [DEFAULT ''NOW()'']]"

definition quota_usage_columns :: "column list" where
  "quota_usage_columns =
     [col ''tenant_id'' (VARCHAR 255) [NOT_NULL],
      col ''user_id'' (VARCHAR 255) [NOT_NULL, DEFAULT [CHR 0x27, CHR 0x27]],
      col ''quota_type'' (VARCHAR 50) [NOT_NULL],
      col ''period_start'' TIMESTAMPTZ [NOT_NULL],
      col ''period_end'' TIMESTAMPTZ [NOT_NULL],
      col ''current_usage'' BIGINT [NOT_NULL, DEFAULT ''0''],
      col ''last_updated'' TIMESTAMPTZ [DEFAULT ''NOW()'']]"

definition quota_schema :: "ddl list" where
  "quota_schema =
     [CreateTable ''quotas'' quotas_columns [''tenant_id'', ''user_id'', ''quota_type''],
      CreateTable ''quota_usage'' quota_usage_columns [''tenant_id'', ''user_id'', ''quota_type'', ''period_start''],
      CreateIndex ''idx_quota_usage_lookup'' ''quota_usage'' [''tenant_id'', ''user_id'', ''quota_type'', ''period_end'']]"

definition usage_events_columns :: "column list" where
  "usage_events_columns =
     [col ''id'' (VARCHAR 255) [PRIMARY_KEY],
      col ''tenant_id'' (VARCHAR 255) [NOT_NULL],
      col ''user_id'' (VARCHAR 255) [NOT_NULL, DEFAULT [CHR 0x27, CHR 0x27]],
      col ''tool_name'' (VARCHAR 255) [],
      col ''server_id'' (VARCHAR 255) [],
      col ''timestamp'' TIMESTAMPTZ [NOT_NULL],
      col ''duration_ns'' BIGINT [NOT_NULL, DEFAULT ''0''],
      col ''tokens_in'' BIGINT [NOT_NULL, DEFAULT ''0''],
      col ''tokens_out'' BIGINT [NOT_NULL, DEFAULT ''0''],
      col ''success'' BOOLEAN [NOT_NULL, DEFAULT ''true''],
      col ''error_code'' (VARCHAR 100) [],
      col ''metadata'' JSONB []]"

definition usage_schema :: "ddl list" where
  "usage_schema =
     [CreateTable ''usage_events'' usage_events_columns [],
      CreateIndex ''idx_usage_events_tenant_time'' ''usage_events'' [''tenant_id'', ''timestamp DESC''],
      CreateIndex ''idx_usage_events_user_time'' ''usage_events'' [''tenant_id'', ''user_id'', ''timestamp DESC''],
      CreateIndex ''idx_usage_events_tool'' ''usage_events'' [''tenant_id'', ''tool_name'', ''timestamp DESC'']]"

definition api_keys_columns :: "column list" where
  "api_keys_columns =
     [col ''id'' (VARCHAR 255) [PRIMARY_KEY],
      col ''tenant_id'' (VARCHAR 255) [NOT_NULL],
      col ''user_id'' (VARCHAR 255) [NOT_NULL],
      col ''name'' (VARCHAR 255) [NOT_NULL],
      col ''key_hash'' (VARCHAR 255) [NOT_NULL, UNIQUE],
      col ''key_prefix'' (VARCHAR 20) [NOT_NULL],
      col ''scopes'' TEXT_ARRAY [],
      col ''created_at'' TIMESTAMPTZ [NOT_NULL, DEFAULT ''NOW()''],
      col ''expires_at'' TIMESTAMPTZ [],
      col ''last_used_at'' TIMESTAMPTZ [],
      col ''revoked_at'' TIMESTAMPTZ []]"

definition api_keys_schema :: "ddl list" where
  "api_keys_schema =
     [CreateTable ''api_keys'' api_keys_columns [],
      CreateIndex ''idx_api_keys_tenant_user'' ''api_keys'' [''tenant_id'', ''user_id''],
      CreateIndex ''idx_api_keys_hash'' ''api_keys'' [''key_hash'']]"

text \<open>A migration sends its text and reports the error of the database.\<close>

definition exec_schema :: "('d, 't) sql_db \<Rightarrow> ddl list \<Rightarrow> 'd \<Rightarrow> string option \<times> 'd" where
  "exec_schema db schema d =
     (case db_Exec db (schema_text schema) [] d of (Inl er, d') \<Rightarrow> (Some er, d') | (Inr _, d') \<Rightarrow> (None, d'))"

definition MigrateQuotaSchema :: "('d, 't) sql_db \<Rightarrow> 'd \<Rightarrow> string option \<times> 'd" where
  "MigrateQuotaSchema db = exec_schema db quota_schema"

definition MigrateUsageSchema :: "('d, 't) sql_db \<Rightarrow> 'd \<Rightarrow> string option \<times> 'd" where
  "MigrateUsageSchema db = exec_schema db usage_schema"

definition MigrateAPIKeysSchema :: "('d, 't) sql_db \<Rightarrow> 'd \<Rightarrow> string option \<times> 'd" where
  "MigrateAPIKeysSchema db = exec_schema db api_keys_schema"

lemmas schema_defs = quotas_columns_def quota_usage_columns_def usage_events_columns_def api_keys_columns_def col_def


section \<open>What a column accepts\<close>

text \<open>The limit of a \<open>VARCHAR\<close> counts characters: the bytes of a UTF-8 text that do not continue a character.\<close>

definition characters :: "string \<Rightarrow> nat" where
  "characters s = length (filter (\<lambda>c. (of_char c :: nat) div 64 \<noteq> 2) s)"

fun has_type :: "column_type \<Rightarrow> any \<Rightarrow> bool" where
  "has_type (VARCHAR n) (AString s) \<longleftrightarrow> characters s \<le> n"
| "has_type BIGINT (AInt n) \<longleftrightarrow> min_int64 \<le> n \<and> n \<le> max_int64"
| "has_type TIMESTAMPTZ (ATime t) \<longleftrightarrow> True"
| "has_type BOOLEAN (ABool b) \<longleftrightarrow> True"
| "has_type TEXT_ARRAY (AStrings ss) \<longleftrightarrow> True"
| "has_type JSONB v \<longleftrightarrow> (case v of ATime t \<Rightarrow> False | AStrings ss \<Rightarrow> False | _ \<Rightarrow> True)"
| "has_type t v \<longleftrightarrow> False"

definition nullable :: "column \<Rightarrow> bool" where
  "nullable c \<longleftrightarrow> NOT_NULL \<notin> set (co_constraints c) \<and> PRIMARY_KEY \<notin> set (co_constraints c)"

definition fits :: "column \<Rightarrow> any \<Rightarrow> bool" where
  "fits c v \<longleftrightarrow> (if v = ANil then nullable c else has_type (co_type c) v)"

definition row_fits :: "column list \<Rightarrow> any list \<Rightarrow> bool" where "row_fits = list_all2 fits"

lemma characters_append [simp]: "characters (s @ t) = characters s + characters t"
  by (simp add: characters_def)

lemma characters_Nil [simp]: "characters [] = 0"
  by (simp add: characters_def)

lemma characters_le: "characters s \<le> length s"
  by (simp add: characters_def)

text \<open>The values of each type, for elimination.\<close>

lemma has_type_cases:
  "has_type (VARCHAR n) v \<longleftrightarrow> (\<exists>s. v = AString s \<and> characters s \<le> n)"
  "has_type BIGINT v \<longleftrightarrow> (\<exists>n. v = AInt n \<and> min_int64 \<le> n \<and> n \<le> max_int64)"
  "has_type TIMESTAMPTZ v \<longleftrightarrow> (\<exists>t. v = ATime t)"
  "has_type BOOLEAN v \<longleftrightarrow> (\<exists>b. v = ABool b)"
  "has_type TEXT_ARRAY v \<longleftrightarrow> (\<exists>ss. v = AStrings ss)"
  by (cases v; simp)+

lemma row_fits_simps [simp]:
  "row_fits [] vs \<longleftrightarrow> vs = []"
  "row_fits (c # cs) [] \<longleftrightarrow> False"
  "row_fits (c # cs) (v # vs) \<longleftrightarrow> fits c v \<and> row_fits cs vs"
  by (auto simp: row_fits_def)

lemma row_fits_Cons: "row_fits (c # cs) vs \<longleftrightarrow> (\<exists>v vs'. vs = v # vs' \<and> fits c v \<and> row_fits cs vs')"
  by (cases vs) auto


section \<open>Statements and rows\<close>

text \<open>The column lists of the statements are those of the tables, in their order.\<close>

lemma statements_name_columns:
  "key_columns = Join (map co_name api_keys_columns) '', ''"
  "usage_columns = Join (map co_name quota_usage_columns) '', ''"
  "\<exists>post. sql_get_quota = ''SELECT '' @ Join (map co_name quotas_columns) '', '' @ '' FROM quotas '' @ post"
  "\<exists>post. sql_insert_event = ''INSERT INTO usage_events ('' @ Join (map co_name usage_events_columns) '', '' @ '') '' @ post"
  by (simp_all add: key_columns_def usage_columns_def sql_get_quota_def sql_insert_event_def schema_defs)

lemma fits_col:
  "fits (col n t cs) v \<longleftrightarrow> (if v = ANil then NOT_NULL \<notin> set cs \<and> PRIMARY_KEY \<notin> set cs else has_type t v)"
  by (simp add: fits_def nullable_def col_def)

lemmas row_defs = quotas_columns_def quota_usage_columns_def usage_events_columns_def api_keys_columns_def fits_col has_type_cases

text \<open>A row of a table is read back when none of the columns that may be absent, but are scanned into plain values, is.\<close>

lemma key_row_scans:
  "row_fits api_keys_columns row \<Longrightarrow> \<exists>k. scan_key row = Some k"
  by (auto simp: row_defs row_fits_Cons scan_key_def scan_defs split: if_splits)

lemma quota_row_scans:
  assumes "row_fits quotas_columns row" "row ! 6 \<noteq> ANil" "row ! 7 \<noteq> ANil"
  shows "\<exists>q. scan_quota row = Some q"
  using assms by (auto simp: row_defs row_fits_Cons scan_quota_def scan_defs split: if_splits)

lemma usage_row_scans:
  assumes "row_fits quota_usage_columns row" "row ! 6 \<noteq> ANil"
  shows "\<exists>u. scan_usage row = Some u"
  using assms by (auto simp: row_defs row_fits_Cons scan_usage_def scan_defs split: if_splits)

lemma event_row_scans:
  assumes "row_fits usage_events_columns row" "row ! 3 \<noteq> ANil" "row ! 4 \<noteq> ANil"
  shows "\<exists>e. scan_event row = Some e"
  using assms
  by (auto simp: row_defs row_fits_Cons scan_event_def scan_defs scan_bool_def scan_null_text_def split: if_splits)

definition event_fits :: "Event \<Rightarrow> bool" where
  "event_fits e \<longleftrightarrow> characters (ue_ID e) \<le> 255 \<and> characters (ue_TenantID e) \<le> 255 \<and> characters (ue_UserID e) \<le> 255 \<and>
     characters (ue_ToolName e) \<le> 255 \<and> characters (ue_ServerID e) \<le> 255 \<and> characters (ue_ErrorCode e) \<le> 100 \<and>
     (\<forall>n\<in>{ue_Duration e, ue_TokensIn e, ue_TokensOut e}. min_int64 \<le> n \<and> n \<le> max_int64)"

lemma metadata_fits: "fits (col n JSONB []) (json_metadata m)"
  by (simp add: fits_col json_metadata_def)

lemma event_args_fit: "row_fits usage_events_columns (event_args e) \<longleftrightarrow> event_fits e"
  using metadata_fits [of "''metadata''" "ue_Metadata e"]
  by (auto simp: row_defs event_args_def event_fits_def)

text \<open>The table admits an event without a tool name, which cannot be read.\<close>

lemma event_without_tool_unreadable:
  "event_fits e \<Longrightarrow> row_fits usage_events_columns ((event_args e)[3 := ANil])"
  "scan_event ((event_args e)[3 := ANil]) = None"
  using metadata_fits [of "''metadata''" "ue_Metadata e"]
  by (auto simp: row_defs event_args_def event_fits_def scan_event_def scan_defs split: option.split)


section \<open>API keys\<close>

definition key_fits :: "APIKey \<Rightarrow> bool" where
  "key_fits k \<longleftrightarrow> characters (ak_ID k) \<le> 255 \<and> characters (ak_TenantID k) \<le> 255 \<and> characters (ak_UserID k) \<le> 255 \<and>
     characters (ak_Name k) \<le> 255 \<and> characters (ak_KeyHash k) \<le> 255 \<and> characters (ak_KeyPrefix k) \<le> 20"

lemma key_args_fit: "row_fits api_keys_columns (key_args k) \<longleftrightarrow> key_fits k"
  by (auto simp: row_defs key_args_def key_fits_def null_time_def split: option.split)

lemma scanned_key_fits: "row_fits api_keys_columns row \<Longrightarrow> scan_key row = Some k \<Longrightarrow> key_fits k"
  by (auto simp: row_defs row_fits_Cons scan_key_def scan_defs key_fits_def split: if_splits)

lemma characters_EncodeToString [simp]: "characters (EncodeToString bs) = 2 * length bs"
proof (induction bs)
  case (Cons b bs)
  have "characters [hex_digit n] = 1" if "n < 16" for n
  proof -
    from that have "(of_char (hex_digit n) :: nat) < 128" by (simp add: of_char_hex_digit)
    then have "(of_char (hex_digit n) :: nat) div 64 < 2" by (simp add: div_less_iff_less_mult)
    then show ?thesis by (simp add: characters_def)
  qed
  moreover have "(of_char b :: nat) div 16 < 16" using nat_of_char_less_256 [of b] by (simp add: div_less_iff_less_mult)
  ultimately have "characters ([hex_digit (of_char b div 16)] @ [hex_digit (of_char b mod 16)] @ EncodeToString bs) = 2 + characters (EncodeToString bs)"
    by (simp del: append_Cons append_Nil)
  with Cons show ?case by (simp add: EncodeToString_Cons)
qed (simp add: EncodeToString_def characters_def)

lemma EncodeToString_Nil: "EncodeToString [] = []"
  by (simp add: EncodeToString_def)

lemma length_EncodeToString: "length (EncodeToString bs) = 2 * length bs"
  by (induction bs) (simp_all add: EncodeToString_Cons EncodeToString_Nil)

lemma take_EncodeToString: "take (2 * n) (EncodeToString bs) = EncodeToString (take n bs)"
proof (induction n arbitrary: bs)
  case (Suc n)
  then show ?case by (cases bs) (simp_all add: EncodeToString_Cons EncodeToString_Nil)
qed (simp add: EncodeToString_Nil)

text \<open>The key \<open>Create\<close> makes from 32 random bytes.\<close>

lemma new_key_fits:
  assumes "GenerateKey sha256 (Ok bytes) (kc_Prefix cfg) = Ok (plaintext, hash)" "length bytes = 32"
    "\<forall>text. length (sha256 text) = 32" "length (ci_UUID inp) = 36"
  shows "key_fits (new_key cfg inp req plaintext hash) \<longleftrightarrow>
    characters (cr_TenantID req) \<le> 255 \<and> characters (cr_UserID req) \<le> 255 \<and> characters (cr_Name req) \<le> 255 \<and>
    characters (kc_Prefix cfg) \<le> 12"
proof -
  let ?text = "kc_Prefix cfg @ EncodeToString bytes"
  have "characters (ExtractPrefix ?text (length (kc_Prefix cfg) + 8)) = characters (kc_Prefix cfg) + 8"
    using assms(2) take_EncodeToString [of 4 bytes] by (auto simp: ExtractPrefix_def length_EncodeToString)
  moreover have "plaintext = ?text" "hash = EncodeToString (sha256 ?text)"
    using assms(1) by (auto simp: GenerateKey_def Let_def)
  ultimately show ?thesis
    using assms(3,4) characters_le [of "ci_UUID inp"] by (auto simp: key_fits_def new_key_def Let_def)
qed


text \<open>With a prefix of thirteen characters or more no key is ever created on a database that enforces its columns.\<close>

lemma long_prefix_refuses_keys:
  assumes "\<And>args d. \<not> row_fits api_keys_columns args \<Longrightarrow> \<exists>er d'. db_Exec db sql_insert_key args d = (Inl er, d')"
    "12 < characters (kc_Prefix (dm_cfg m))" "ci_Random inp = Ok bytes" "length bytes = 32"
    "\<forall>text. length (sha256 text) = 32" "length (ci_UUID inp) = 36"
  shows "\<exists>er. fst (Create sha256 (Apikeys_Postgres.postgres_ops db) inp req m) = Err er"
proof (cases "Create sha256 (Apikeys_Postgres.postgres_ops db) inp req m")
  case (Pair r m')
  show ?thesis
  proof (cases r)
    case (Inr res)
    with Create_Ok [of sha256 "Apikeys_Postgres.postgres_ops db" inp req m res m'] Pair obtain s plaintext hash where
      g: "GenerateKey sha256 (Ok bytes) (kc_Prefix (dm_cfg m)) = Ok (plaintext, hash)"
      and c: "fst (pg_Create db (new_key (dm_cfg m) inp req plaintext hash) s) = Ok ()"
      using assms(3) by (auto simp: store_ops)
    have "\<not> row_fits api_keys_columns (key_args (new_key (dm_cfg m) inp req plaintext hash))"
      using new_key_fits [OF g assms(4-6), of req] assms(2) by (simp add: key_args_fit)
    with assms(1) [of _ s] c show ?thesis by (force simp: pg_Create_def)
  qed (simp add: Pair)
qed

text \<open>The default prefix fits, one of thirteen characters does not.\<close>

definition named_config :: "string \<Rightarrow> Apikeys.Config" where "named_config p = Apikeys.demo_config\<lparr>kc_Prefix := p\<rparr>"

definition uuid_inputs :: create_inputs where
  "uuid_inputs = \<lparr>ci_CountNow = 0, ci_Random = Ok (replicate 32 (CHR ''k'')), ci_UUID = replicate 36 (CHR ''0''), ci_Now = 0\<rparr>"



section \<open>Usage events\<close>

text \<open>A table that enforces its columns: an insertion that does not fit them is refused.\<close>

locale typed_events = usage_table db table tx_table stored
  for db :: "('d, 't) sql_db" and table :: "'d \<Rightarrow> string \<Rightarrow> Event option" and tx_table :: "'t \<Rightarrow> string \<Rightarrow> Event option"
    and stored :: "Event \<Rightarrow> Event" +
  assumes refuses: "\<not> row_fits usage_events_columns args \<Longrightarrow> \<exists>er. fst (db_TxExec db sql_insert_event args tx) = Inl er"
begin

lemma insert_refused: "e \<in> set es \<Longrightarrow> \<not> event_fits e \<Longrightarrow> fst (insert_events db es tx) \<noteq> None"
proof (induction es arbitrary: tx)
  case (Cons e' es)
  obtain r tx' where i: "db_TxExec db sql_insert_event (event_args e') tx = (r, tx')"
    by (cases "db_TxExec db sql_insert_event (event_args e') tx")
  with refuses [of "event_args e'" tx] Cons show ?case by (cases r) (auto simp: event_args_fit)
qed simp

lemma batch_refused:
  assumes "e \<in> set es" "\<not> event_fits e"
  shows "\<exists>er d'. us_Store (Usage_Postgres.postgres_ops db) es d = (Inl er, d') \<and> table d' = table d"
proof -
  from assms(1) have ne: "es \<noteq> []" by auto
  show ?thesis
  proof (cases "db_Begin db d")
    case (Inr tx)
    obtain x tx' where ins: "insert_events db es tx = (x, tx')" by (cases "insert_events db es tx")
    with insert_refused [OF assms, of tx] ne Inr show ?thesis
      by (cases "db_Prepare db sql_insert_event tx"; cases x) (simp_all add: store_ops pg_Store_def rolls_back)
  qed (simp add: store_ops pg_Store_def ne)
qed

lemma retries_refused:
  assumes "e \<in> set es" "\<not> event_fits e" "retry_loop (Usage_Postgres.postgres_ops db) es delay le attempts d = (r, d', w)"
  shows "table d' = table d \<and> (r \<noteq> None \<or> attempts = [] \<and> le = None)"
  using assms(3)
proof (induction attempts arbitrary: delay le d r d' w)
  case (Cons a as)
  obtain er d1 where s: "us_Store (Usage_Postgres.postgres_ops db) es d = (Inl er, d1)" "table d1 = table d"
    using batch_refused [OF assms(1,2)] by blast
  let ?delay = "if a > 0 then wrap64 (delay * 2) else delay"
  obtain r2 d2 w2 where rest: "retry_loop (Usage_Postgres.postgres_ops db) es ?delay (Some er) as d1 = (r2, d2, w2)" by (metis prod_cases3)
  with Cons.prems s(1) have "r = r2" "d' = d2" by (auto simp: Let_def split: if_splits)
  with Cons.IH [OF rest] s(2) show ?case by simp
qed auto

lemma flush_refused:
  assumes "dt_store t = Some d" "0 \<le> uc_MaxRetries (dt_cfg t)" "e \<in> set (dt_buffer t)" "\<not> event_fits e"
    "fe_OpenFile env = (\<lambda>_. None)" "fe_Encode env = (\<lambda>_. None)"
  shows "\<exists>d'. dt_store (flush (Usage_Postgres.postgres_ops db) env t) = Some d' \<and> table d' = table d \<and>
    map dl_event (dt_dlq (flush (Usage_Postgres.postgres_ops db) env t)) = map dl_event (dt_dlq t) @ dt_retryBuffer t @ dt_buffer t"
proof -
  let ?es = "dt_retryBuffer t @ dt_buffer t"
  have ne: "dt_buffer t \<noteq> []" using assms(3) by auto
  define t1 where "t1 = t\<lparr>dt_buffer := [], dt_retryBuffer := []\<rparr>"
  have ft: "flush_take t = (Some ?es, t1)" using ne by (cases t) (auto simp: flush_take_def t1_def Let_def)
  have t1: "dt_store t1 = Some d" "dt_cfg t1 = dt_cfg t" "dt_dlq t1 = dt_dlq t" by (simp_all add: t1_def assms(1))
  obtain r d' w where run: "storeWithRetry (Usage_Postgres.postgres_ops db) (dt_cfg t) ?es d = (r, d', w)" by (metis prod_cases3)
  have n: "[0..<nat ((if uc_MaxRetries (dt_cfg t) = 0 then 3 else uc_MaxRetries (dt_cfg t)) + 1)] \<noteq> []"
    using assms(2) by simp
  have "table d' = table d" "r \<noteq> None"
    using retries_refused [of e ?es] assms(3,4) run n by (force simp: storeWithRetry_def Let_def)+
  with ne show ?thesis
    using ft t1 run by (auto simp: flush_def flush_store_def Let_def sendToDLQ_def dlq_entries_def comp_def assms(5,6) split: option.split)
qed

end

text \<open>A table that enforces its columns and whose commits may fail.\<close>

definition typed_db :: "(usage_map \<times> bool option list, usage_map) sql_db" where
  "typed_db = usage_db\<lparr>db_TxExec := (\<lambda>sql args m.
     if row_fits usage_events_columns args then exec_insert args m
     else (Inl ''value too long for type character varying'', m))\<rparr>"

interpretation typed_map: typed_events typed_db "\<lambda>d. mget (fst d)" mget "\<lambda>e. e"
  by unfold_locales
    (auto simp: typed_db_def usage_db_def exec_insert_def commit_table_def put_new_def fun_eq_iff
      split: option.splits list.splits bool.splits if_splits)


definition long_call :: Event where
  "long_call = hd demo_events\<lparr>ue_ToolName := replicate 256 (CHR ''x'')\<rparr>"

definition long_tracker :: "(usage_map \<times> bool option list) DefaultTracker" where
  "long_tracker = \<lparr>dt_store = Some ([], []), dt_cfg = Usage_Tracker.demo_config, dt_enabled = True, dt_buffer = demo_events @ [long_call],
     dt_flushChan = False, dt_done = False, dt_retryBuffer = [], dt_dlqFile = None, dt_dlq = []\<rparr>"


end
