(* ===== verification/Logging.thy ===== *)
theory Logging
  imports Storage
begin

text \<open>
  The package \<open>internal/logger\<close>: the logger the other packages write to, configured from the environment. A record of
  \<open>log/slog\<close> is its level, its message and its attributes; what a handler writes is the list of the records it lets through.
  The functions that take a context write the same records.

  Shown here: which records are written for which setting of \<open>FI_MCP_LOG_LEVEL\<close>.
\<close>

datatype level = LevelDebug | LevelInfo | LevelWarn | LevelError

fun level_number :: "level \<Rightarrow> int" where
  "level_number LevelDebug = - 4"
| "level_number LevelInfo = 0"
| "level_number LevelWarn = 4"
| "level_number LevelError = 8"

record log_record =
  lr_level :: level
  lr_msg :: string
  lr_attrs :: "any list"

record Logger =
  lg_level :: level
  lg_json :: bool
  lg_attrs :: "any list"

definition log_level :: "getenv \<Rightarrow> level" where
  "log_level getenv =
     (let lvl = getenv ''FI_MCP_LOG_LEVEL''; l = ToLower lvl
      in if lvl = [] then LevelInfo
         else if l = ''debug'' then LevelDebug
         else if l = ''info'' then LevelInfo
         else if l = ''warn'' \<or> l = ''warning'' then LevelWarn
         else if l = ''error'' then LevelError
         else LevelInfo)"

definition init :: "getenv \<Rightarrow> Logger" where
  "init getenv = \<lparr>lg_level = log_level getenv, lg_json = (getenv ''FI_MCP_LOG_FORMAT'' = ''json''), lg_attrs = []\<rparr>"

definition log_With :: "any list \<Rightarrow> Logger \<Rightarrow> Logger" where "log_With args lg = lg\<lparr>lg_attrs := lg_attrs lg @ args\<rparr>"

definition Component :: "string \<Rightarrow> Logger \<Rightarrow> Logger" where
  "Component name = log_With [AString ''component'', AString name]"

definition log_at :: "level \<Rightarrow> string \<Rightarrow> any list \<Rightarrow> Logger \<Rightarrow> log_record list \<Rightarrow> log_record list" where
  "log_at l msg args lg written =
     (if level_number (lg_level lg) \<le> level_number l
      then written @ [\<lparr>lr_level = l, lr_msg = msg, lr_attrs = lg_attrs lg @ args\<rparr>] else written)"

definition log_Debug :: "string \<Rightarrow> any list \<Rightarrow> Logger \<Rightarrow> log_record list \<Rightarrow> log_record list" where "log_Debug = log_at LevelDebug"
definition log_Info :: "string \<Rightarrow> any list \<Rightarrow> Logger \<Rightarrow> log_record list \<Rightarrow> log_record list" where "log_Info = log_at LevelInfo"
definition log_Warn :: "string \<Rightarrow> any list \<Rightarrow> Logger \<Rightarrow> log_record list \<Rightarrow> log_record list" where "log_Warn = log_at LevelWarn"
definition log_Error :: "string \<Rightarrow> any list \<Rightarrow> Logger \<Rightarrow> log_record list \<Rightarrow> log_record list" where "log_Error = log_at LevelError"

lemma attributes_kept: "lg_level (Component n (log_With args lg)) = lg_level lg \<and> lg_attrs (Component n (log_With args lg)) = lg_attrs lg @ args @ [AString ''component'', AString n]"
  by (simp add: Component_def log_With_def)

text \<open>Errors are always written; debug records only when the level is \<open>debug\<close>, in any mixture of cases.\<close>

lemma errors_written: "log_Error msg args lg written = written @ [\<lparr>lr_level = LevelError, lr_msg = msg, lr_attrs = lg_attrs lg @ args\<rparr>]"
  by (cases "lg_level lg") (simp_all add: log_Error_def log_at_def)

lemma debug_written_iff:
  "log_Debug msg args (Component n (init getenv)) written \<noteq> written \<longleftrightarrow> ToLower (getenv ''FI_MCP_LOG_LEVEL'') = ''debug''"
proof -
  have "level_number l \<le> - 4 \<longleftrightarrow> l = LevelDebug" for l by (cases l) simp_all
  moreover have "log_level getenv = LevelDebug \<longleftrightarrow> ToLower (getenv ''FI_MCP_LOG_LEVEL'') = ''debug''"
    by (auto simp: log_level_def Let_def)
  ultimately show ?thesis by (simp add: log_Debug_def log_at_def init_def Component_def log_With_def)
qed

end
