(* ===== verification/Mcpws_Oneshot.thy ===== *)
theory Mcpws_Oneshot
  imports Mcpws
begin

text \<open>
  One-shot tool calls (\<open>internal/mcpws/oneshot.go\<close>): dial, initialize, call, close. The protocol library
  \<open>mcp-go\<close> is present through the messages it builds (\<open>newRequest\<close>) and its classification of responses
  (\<open>isResponse\<close>); what the connection does is a list of receptions and the errors of the sends.

  Shown here: the order of the messages of a call, which answer it returns, that a connection that was
  opened is closed, and which identifiers count as the expected one.
\<close>

record Message =
  ms_ID :: any
  ms_Method :: string
  ms_Result :: any
  ms_Error :: "string option"

text \<open>A reception: the error of the context before it, the message or the error of the read, and the error of the
  context after a failed read.\<close>

record reception =
  rc_ctxErr :: "string option"
  rc_msg :: "(string, Message) result"
  rc_ctxErrAfter :: "string option"

record protocol =
  pr_isResponse :: "Message \<Rightarrow> bool"
  pr_newRequest :: "int \<Rightarrow> string \<Rightarrow> any \<Rightarrow> (string, Message) result"
  pr_initializeParams :: any

definition oneshotInitializeID :: int where "oneshotInitializeID = 1"
definition oneshotCallToolID :: int where "oneshotCallToolID = 2"

definition idMatches :: "any \<Rightarrow> int \<Rightarrow> bool" where
  "idMatches i want =
     (case i of
        AFloat v \<Rightarrow> f64_to_int64 (Some v) = want
      | AInt v \<Rightarrow> v = want
      | ANumber v \<Rightarrow> (case Atoi v of None \<Rightarrow> False | Some n \<Rightarrow> n = want)
      | AString v \<Rightarrow> v = Itoa want
      | _ \<Rightarrow> False)"

text \<open>The loop of \<open>recvResponse\<close>; it returns the rest of the receptions, and nothing while it still waits.\<close>

fun recvResponse :: "protocol \<Rightarrow> int \<Rightarrow> reception list \<Rightarrow> ((string, Message) result \<times> reception list) option" where
  "recvResponse pr wantID [] = None"
| "recvResponse pr wantID (r # rs) =
     (case rc_ctxErr r of
        Some er \<Rightarrow> Some (Err er, r # rs)
      | None \<Rightarrow>
          (case rc_msg r of
             Inl er \<Rightarrow> Some (Err (case rc_ctxErrAfter r of Some ctxErr \<Rightarrow> ctxErr | None \<Rightarrow> er), rs)
           | Inr msg \<Rightarrow>
               if pr_isResponse pr msg \<and> idMatches (ms_ID msg) wantID then Some (Ok msg, rs) else recvResponse pr wantID rs))"

definition initialized_msg :: Message where
  "initialized_msg = \<lparr>ms_ID = ANil, ms_Method = ''notifications/initialized'', ms_Result = ANil, ms_Error = None\<rparr>"

text \<open>\<open>oneshotInitialize\<close>: \<open>sendErr k\<close> is the error of the send number \<open>k\<close> of the connection. It returns the error, the
  messages sent and the remaining receptions; nothing while it waits for an answer.\<close>

definition oneshotInitialize :: "protocol \<Rightarrow> (nat \<Rightarrow> string option) \<Rightarrow> reception list \<Rightarrow>
    (string option \<times> Message list \<times> reception list) option" where
  "oneshotInitialize pr sendErr rs =
     (case pr_newRequest pr oneshotInitializeID ''initialize'' (pr_initializeParams pr) of
        Inl er \<Rightarrow> Some (Some (''build initialize request: '' @ er), [], rs)
      | Inr initReq \<Rightarrow>
          (case sendErr 0 of
             Some er \<Rightarrow> Some (Some (''send initialize: '' @ er), [], rs)
           | None \<Rightarrow>
               (case recvResponse pr oneshotInitializeID rs of
                  None \<Rightarrow> None
                | Some (Inl er, rs') \<Rightarrow> Some (Some (''recv initialize: '' @ er), [initReq], rs')
                | Some (Inr resp, rs') \<Rightarrow>
                    (case ms_Error resp of
                       Some m \<Rightarrow> Some (Some (''initialize error: '' @ m), [initReq], rs')
                     | None \<Rightarrow>
                         (case sendErr 1 of
                            Some er \<Rightarrow> Some (Some (''send initialized notification: '' @ er), [initReq], rs')
                          | None \<Rightarrow> Some (None, [initReq, initialized_msg], rs'))))))"

definition call_params :: "string \<Rightarrow> any option \<Rightarrow> any" where
  "call_params toolName arguments =
     AMap ((''name'', AString toolName) # (case arguments of None \<Rightarrow> [] | Some a \<Rightarrow> [(''arguments'', a)]))"

text \<open>\<open>%q\<close> of a name without quotes, backslashes and control characters.\<close>

definition quoted :: "string \<Rightarrow> string" where "quoted s = CHR 0x22 # s @ [CHR 0x22]"

text \<open>A finished call: its outcome, what was sent, and whether the connection was closed.\<close>

record call_outcome =
  co_result :: "(string, any) result"
  co_sent :: "Message list"
  co_closed :: bool

definition CallTool :: "protocol \<Rightarrow> (string, unit) result \<Rightarrow> (nat \<Rightarrow> string option) \<Rightarrow> reception list \<Rightarrow> string \<Rightarrow> string \<Rightarrow> any option \<Rightarrow>
    call_outcome option" where
  "CallTool pr dialed sendErr rs serverName toolName arguments =
     (case dialed of
        Inl er \<Rightarrow> Some \<lparr>co_result = Err (''dial backend '' @ quoted serverName @ '': '' @ er), co_sent = [], co_closed = False\<rparr>
      | Inr _ \<Rightarrow>
          (case oneshotInitialize pr sendErr rs of
             None \<Rightarrow> None
           | Some (Some er, sent, rs') \<Rightarrow> Some \<lparr>co_result = Err er, co_sent = sent, co_closed = True\<rparr>
           | Some (None, sent, rs') \<Rightarrow>
               (case pr_newRequest pr oneshotCallToolID ''tools/call'' (call_params toolName arguments) of
                  Inl er \<Rightarrow> Some \<lparr>co_result = Err (''build tools/call request: '' @ er), co_sent = sent, co_closed = True\<rparr>
                | Inr callReq \<Rightarrow>
                    (case sendErr 2 of
                       Some er \<Rightarrow> Some \<lparr>co_result = Err (''send tools/call: '' @ er), co_sent = sent, co_closed = True\<rparr>
                     | None \<Rightarrow>
                         (case recvResponse pr oneshotCallToolID rs' of
                            None \<Rightarrow> None
                          | Some (Inl er, rs'') \<Rightarrow>
                              Some \<lparr>co_result = Err (''recv tools/call: '' @ er), co_sent = sent @ [callReq], co_closed = True\<rparr>
                          | Some (Inr resp, rs'') \<Rightarrow>
                              Some \<lparr>co_result = (case ms_Error resp of Some m \<Rightarrow> Err (''backend error: '' @ m) | None \<Rightarrow> Ok (ms_Result resp)),
                                    co_sent = sent @ [callReq], co_closed = True\<rparr>)))))"


section \<open>Answers\<close>

definition answers :: "protocol \<Rightarrow> int \<Rightarrow> Message \<Rightarrow> reception \<Rightarrow> bool" where
  "answers pr i m r \<longleftrightarrow> rc_ctxErr r = None \<and> rc_msg r = Ok m \<and> pr_isResponse pr m \<and> idMatches (ms_ID m) i"

definition skipped :: "protocol \<Rightarrow> int \<Rightarrow> reception \<Rightarrow> bool" where
  "skipped pr i r \<longleftrightarrow> rc_ctxErr r = None \<and> (\<exists>m. rc_msg r = Ok m \<and> \<not> (pr_isResponse pr m \<and> idMatches (ms_ID m) i))"

lemma recvResponse_iff:
  "recvResponse pr i rs = Some (Ok m, rest) \<longleftrightarrow>
     (\<exists>pre r. rs = pre @ r # rest \<and> answers pr i m r \<and> (\<forall>x\<in>set pre. skipped pr i x))"
proof (induction rs)
  case (Cons r rs)
  have "(\<exists>pre x. r # rs = pre @ x # rest \<and> answers pr i m x \<and> (\<forall>y\<in>set pre. skipped pr i y)) \<longleftrightarrow>
      (rs = rest \<and> answers pr i m r) \<or>
      (skipped pr i r \<and> (\<exists>pre x. rs = pre @ x # rest \<and> answers pr i m x \<and> (\<forall>y\<in>set pre. skipped pr i y)))" (is "?L \<longleftrightarrow> ?R")
  proof
    assume ?L
    then obtain pre x where px: "r # rs = pre @ x # rest" "answers pr i m x" "\<forall>y\<in>set pre. skipped pr i y" by blast
    then show ?R by (cases pre) auto
  next
    assume ?R
    then show ?L by (auto intro: exI [of _ "[]"])
  qed
  with Cons show ?case
    by (auto simp: answers_def skipped_def split: result_splits)
qed simp

text \<open>C35. One-shot calls: when the sends succeed and the backend answers the initialization and then the call,
  with any other messages in between, the call returns the result of its answer; exactly the initialization, the
  notification and the call were sent, in that order, and the connection is closed.\<close>

theorem CallTool_returns:
  assumes "pr_newRequest pr 1 ''initialize'' (pr_initializeParams pr) = Ok initReq"
    "pr_newRequest pr 2 ''tools/call'' (call_params tool args) = Ok callReq" "\<forall>k. sendErr k = None"
    "\<forall>x\<in>set pre1. skipped pr 1 x" "answers pr 1 m1 r1" "ms_Error m1 = None"
    "\<forall>x\<in>set pre2. skipped pr 2 x" "answers pr 2 m2 r2" "ms_Error m2 = None"
  shows "CallTool pr (Ok ()) sendErr (pre1 @ r1 # pre2 @ r2 # rest) server tool args =
    Some \<lparr>co_result = Ok (ms_Result m2), co_sent = [initReq, initialized_msg, callReq], co_closed = True\<rparr>"
proof -
  have "recvResponse pr 1 (pre1 @ r1 # pre2 @ r2 # rest) = Some (Ok m1, pre2 @ r2 # rest)"
    using assms(4,5) by (auto simp: recvResponse_iff)
  moreover have "recvResponse pr 2 (pre2 @ r2 # rest) = Some (Ok m2, rest)"
    using assms(7,8) by (auto simp: recvResponse_iff)
  ultimately show ?thesis
    using assms by (simp add: CallTool_def oneshotInitialize_def oneshotInitializeID_def oneshotCallToolID_def)
qed

theorem CallTool_returns_witness:
  "(let msg = (\<lambda>i. \<lparr>ms_ID = AInt i, ms_Method = [], ms_Result = AInt (10 * i), ms_Error = None\<rparr>);
        pr = \<lparr>pr_isResponse = (\<lambda>m. ms_Method m = []), pr_newRequest = (\<lambda>i m p. Ok \<lparr>ms_ID = AInt i, ms_Method = m, ms_Result = ANil, ms_Error = None\<rparr>),
              pr_initializeParams = ANil\<rparr>;
        rc = (\<lambda>i. \<lparr>rc_ctxErr = None, rc_msg = Ok (msg i), rc_ctxErrAfter = None\<rparr>)
    in map_option co_result (CallTool pr (Ok ()) (\<lambda>_. None) [rc 5, rc 1, rc 1, rc 2] ''fs'' ''ls'' None) = Some (Ok (AInt 20)))"
proof -
  let ?msg = "\<lambda>i. \<lparr>ms_ID = AInt i, ms_Method = [], ms_Result = AInt (10 * i), ms_Error = None\<rparr>"
  let ?pr = "\<lparr>pr_isResponse = (\<lambda>m. ms_Method m = []), pr_newRequest = (\<lambda>i m p. Ok \<lparr>ms_ID = AInt i, ms_Method = m, ms_Result = ANil, ms_Error = None\<rparr>),
     pr_initializeParams = ANil\<rparr>"
  let ?rc = "\<lambda>i. \<lparr>rc_ctxErr = None, rc_msg = Ok (?msg i), rc_ctxErrAfter = None\<rparr>"
  show ?thesis
    using CallTool_returns [of ?pr _ "''ls''" None _ "\<lambda>_. None" "[?rc 5]" "?msg 1" "?rc 1" "[?rc 1]" "?msg 2" "?rc 2" "[]" "''fs''"]
    by (simp add: skipped_def answers_def idMatches_def Let_def)
qed

lemma CallTool_closes:
  assumes "CallTool pr dialed sendErr rs server tool args = Some out"
  shows "co_closed out \<longleftrightarrow> dialed = Ok ()"
  using assms by (auto simp: CallTool_def split: result_splits)

lemma idMatches_fraction: "idMatches (AFloat (3 / 2)) 1"
  by code_simp

end
