(* ===== verification/Httpapi.thy ===== *)
theory Httpapi
  imports Mcpws_Oneshot Usage_Export
begin

text \<open>
  The HTTP API (\<open>internal/httpapi\<close>): health, readiness and listings, API keys, quotas and usage (\<open>server.go\<close>)
  and the invocation of tools (\<open>tools.go\<close>). A handler maps the request and the state of the component it works
  on to a reply and the new state. The dispatch of paths is in \<open>Httpapi_Server\<close>.
  A JSON body is the value it decodes to, or none when it does not decode.

  Shown here: API keys are visible to and changed by their owner only, and a foreign key looks like a missing one;
  usage exports stay within the caller's tenant and user when both are set; a tool is invoked only when the
  registry always allows it and the policy does not deny it.
\<close>

section \<open>Requests and replies\<close>

record http_req =
  hq_Header :: header
  hq_Query :: "string \<Rightarrow> string"
  hq_PathValue :: "string \<Rightarrow> string"
  hq_Body :: "any option"

datatype body = JSON any | Text string

record reply =
  rp_status :: int
  rp_contentType :: string
  rp_body :: body

definition writeJSON :: "int \<Rightarrow> any \<Rightarrow> reply" where
  "writeJSON status v = \<lparr>rp_status = status, rp_contentType = ''application/json'', rp_body = JSON v\<rparr>"

definition writeError :: "int \<Rightarrow> string \<Rightarrow> reply" where
  "writeError status message = writeJSON status (AMap [(''error'', AString message)])"

text \<open>\<open>requireAuth\<close>: the principal, or the reply that was written.\<close>

definition requireAuth :: "ws_authenticator option \<Rightarrow> http_req \<Rightarrow> (reply, Principal) result" where
  "requireAuth authenticator r =
     (case authenticator of
        None \<Rightarrow> Err (writeError 401 ''authentication required'')
      | Some a \<Rightarrow>
          (case a (hq_Header r) of
             Inr (Some p) \<Rightarrow> Ok p
           | _ \<Rightarrow> Err (writeError 401 ''unauthorized'')))"


section \<open>Health and listings\<close>

definition handle_health :: "string \<Rightarrow> reply" where
  "handle_health timestamp = writeJSON 200 (AMap [(''status'', AString ''ok''), (''timestamp'', AString timestamp)])"

text \<open>A handler that follows a nil registry panics: no reply.\<close>

definition handle_ready :: "Registry option \<Rightarrow> reply option" where
  "handle_ready reg =
     (let ready = (case reg of None \<Rightarrow> False | Some r \<Rightarrow> length (rg_Servers r) > 0);
          status = (if \<not> ready then 503 else 200)
      in case reg of
           None \<Rightarrow> None
         | Some r \<Rightarrow> Some (writeJSON status (AMap [(''ready'', ABool ready), (''servers'', AInt (int (length (rg_Servers r))))])))"

definition handle_hosts :: "Registry option \<Rightarrow> reply option" where
  "handle_hosts reg =
     (case reg of
        None \<Rightarrow> None
      | Some r \<Rightarrow>
          Some (writeJSON 200 (AList (map (\<lambda>s. AString (sv_Name s))
            (filter (\<lambda>s. \<not> sv_IsLocalOnly s) (List.map_filter (\<lambda>x. x) (rg_Servers r)))))))"

definition handle_servers :: "Registry option \<Rightarrow> reply option" where
  "handle_servers reg =
     (case reg of
        None \<Rightarrow> None
      | Some r \<Rightarrow>
          Some (writeJSON 200 (AMap [(''servers'', AList (map (\<lambda>s. AMap
            ([(''name'', AString (sv_Name s)), (''categories'', AStrings (sv_Categories s))] @
             omitempty ''description'' (AString (case sv_Description s of None \<Rightarrow> [] | Some d \<Rightarrow> d))))
            (List.map_filter (\<lambda>x. x) (rg_Servers r))))])))"


section \<open>API keys\<close>

record createKeyRequest =
  ck_Name :: string
  ck_Scopes :: "string list"
  ck_ExpiresIn :: string

text \<open>Decoding the body of a creation; the flag records a member of the wrong type.\<close>

fun json_strings :: "any list \<Rightarrow> string list option" where
  "json_strings [] = Some []"
| "json_strings (AString s # vs) = map_option ((#) s) (json_strings vs)"
| "json_strings (ANil # vs) = map_option ((#) []) (json_strings vs)"
| "json_strings (_ # vs) = None"

definition create_member :: "string \<times> any \<Rightarrow> createKeyRequest \<times> bool \<Rightarrow> createKeyRequest \<times> bool" where
  "create_member kv st =
     (case (kv, st) of
        ((k, v), (q, bad)) \<Rightarrow>
          if fold_name k = ''name''
          then (case v of AString s \<Rightarrow> (q\<lparr>ck_Name := s\<rparr>, bad) | ANil \<Rightarrow> (q, bad) | _ \<Rightarrow> (q, True))
          else if fold_name k = ''scopes''
          then (case v of
                  AList vs \<Rightarrow> (case json_strings vs of Some ss \<Rightarrow> (q\<lparr>ck_Scopes := ss\<rparr>, bad) | None \<Rightarrow> (q, True))
                | ANil \<Rightarrow> (q\<lparr>ck_Scopes := []\<rparr>, bad)
                | _ \<Rightarrow> (q, True))
          else if fold_name k = ''expires_in''
          then (case v of AString s \<Rightarrow> (q\<lparr>ck_ExpiresIn := s\<rparr>, bad) | ANil \<Rightarrow> (q, bad) | _ \<Rightarrow> (q, True))
          else (q, bad))"

definition decode_create :: "any option \<Rightarrow> createKeyRequest option" where
  "decode_create json =
     (let zero = \<lparr>ck_Name = [], ck_Scopes = [], ck_ExpiresIn = []\<rparr>
      in case json of
           Some (AMap members) \<Rightarrow> (case fold create_member members (zero, False) of (q, bad) \<Rightarrow> if bad then None else Some q)
         | Some ANil \<Rightarrow> Some zero
         | _ \<Rightarrow> None)"

definition opt_time :: "string \<Rightarrow> time option \<Rightarrow> (string \<times> any) list" where
  "opt_time key t = (case t of None \<Rightarrow> [] | Some x \<Rightarrow> [(key, ATime x)])"

definition apiKeyToResponse :: "APIKey \<Rightarrow> any" where
  "apiKeyToResponse k =
     AMap ([(''id'', AString (ak_ID k)), (''name'', AString (ak_Name k)), (''key_prefix'', AString (ak_KeyPrefix k))] @
       (if ak_Scopes k = [] then [] else [(''scopes'', AStrings (ak_Scopes k))]) @ opt_time ''expires_at'' (ak_ExpiresAt k) @
       [(''created_at'', ATime (ak_CreatedAt k))] @ opt_time ''last_used_at'' (ak_LastUsedAt k) @
       [(''revoked'', ABool (ak_RevokedAt k \<noteq> None))])"

definition save_message :: string where "save_message = ''Save this key securely. It will not be shown again.''"

definition time_or_nil :: "time option \<Rightarrow> any" where "time_or_nil t = (case t of None \<Rightarrow> ANil | Some x \<Rightarrow> ATime x)"

definition handleCreateKey :: "(string \<Rightarrow> string) \<Rightarrow> 's Apikeys.Store \<Rightarrow> create_inputs \<Rightarrow> ws_authenticator option \<Rightarrow> http_req \<Rightarrow>
    's Apikeys.DefaultManager \<Rightarrow> reply \<times> 's Apikeys.DefaultManager" where
  "handleCreateKey sha256 ops inp authenticator r m =
     (case requireAuth authenticator r of
        Inl rp \<Rightarrow> (rp, m)
      | Inr p \<Rightarrow>
          (case decode_create (hq_Body r) of
             None \<Rightarrow> (writeError 400 ''invalid request body'', m)
           | Some req \<Rightarrow>
               if TrimSpace (ck_Name req) = [] then (writeError 400 ''name is required'', m)
               else (case (if ck_ExpiresIn req = [] then Some 0 else ParseDuration (ck_ExpiresIn req)) of
                       None \<Rightarrow> (writeError 400 ''invalid expires_in duration'', m)
                     | Some expiresIn \<Rightarrow>
                         if expiresIn < 0 then (writeError 400 ''invalid expires_in duration'', m)
                         else (case Create sha256 ops inp
                                 \<lparr>cr_TenantID = TenantID (Some p), cr_UserID = p_Subject p, cr_Name = TrimSpace (ck_Name req),
                                  cr_Scopes = ck_Scopes req, cr_ExpiresIn = expiresIn\<rparr> m of
                                 (Inl er, m') \<Rightarrow>
                                   (if er = ErrTooManyKeys then writeError 409 ''maximum keys per user exceeded''
                                    else if er = ErrInvalidRequest then writeError 400 ''invalid request''
                                    else writeError 500 ''failed to create key'', m')
                               | (Inr res, m') \<Rightarrow>
                                   (writeJSON 201 (AMap
                                      [(''key'', AString (kr_PlaintextKey res)), (''key_id'', AString (ak_ID (kr_Key res))),
                                       (''key_prefix'', AString (ak_KeyPrefix (kr_Key res))), (''name'', AString (ak_Name (kr_Key res))),
                                       (''expires_at'', time_or_nil (ak_ExpiresAt (kr_Key res))),
                                       (''created_at'', ATime (ak_CreatedAt (kr_Key res))), (''message'', AString save_message)]), m')))))"

definition handleListKeys :: "'s Apikeys.Store \<Rightarrow> ws_authenticator option \<Rightarrow> http_req \<Rightarrow> 's Apikeys.DefaultManager \<Rightarrow> reply" where
  "handleListKeys ops authenticator r m =
     (case requireAuth authenticator r of
        Inl rp \<Rightarrow> rp
      | Inr p \<Rightarrow>
          (case Apikeys.List ops (TenantID (Some p)) (p_Subject p) m of
             Inl er \<Rightarrow> writeError 500 ''failed to list keys''
           | Inr keys \<Rightarrow> writeJSON 200 (AMap [(''keys'', AList (map apiKeyToResponse keys))])))"

text \<open>What the three handlers of a single key do first: the caller, the identifier, the key and its owner.\<close>

definition ownedKey :: "'s Apikeys.Store \<Rightarrow> ws_authenticator option \<Rightarrow> http_req \<Rightarrow> 's Apikeys.DefaultManager \<Rightarrow> (reply, APIKey) result" where
  "ownedKey ops authenticator r m =
     (case requireAuth authenticator r of
        Inl rp \<Rightarrow> Err rp
      | Inr p \<Rightarrow>
          let keyID = hq_PathValue r ''id''
          in if keyID = [] then Err (writeError 400 ''key id required'')
             else (case Get ops keyID m of
                     Inl er \<Rightarrow> Err (if er = ErrKeyNotFound then writeError 404 ''key not found'' else writeError 500 ''failed to get key'')
                   | Inr key \<Rightarrow>
                       if ak_TenantID key \<noteq> TenantID (Some p) \<or> ak_UserID key \<noteq> p_Subject p
                       then Err (writeError 404 ''key not found'')
                       else Ok key))"

definition handleGetKey :: "'s Apikeys.Store \<Rightarrow> ws_authenticator option \<Rightarrow> http_req \<Rightarrow> 's Apikeys.DefaultManager \<Rightarrow> reply" where
  "handleGetKey ops authenticator r m =
     (case ownedKey ops authenticator r m of Inl rp \<Rightarrow> rp | Inr key \<Rightarrow> writeJSON 200 (apiKeyToResponse key))"

definition handleRevokeKey :: "'s Apikeys.Store \<Rightarrow> time \<Rightarrow> ws_authenticator option \<Rightarrow> http_req \<Rightarrow> 's Apikeys.DefaultManager \<Rightarrow>
    reply \<times> 's Apikeys.DefaultManager" where
  "handleRevokeKey ops now authenticator r m =
     (case ownedKey ops authenticator r m of
        Inl rp \<Rightarrow> (rp, m)
      | Inr key \<Rightarrow>
          (case Revoke ops now (hq_PathValue r ''id'') m of
             (Inl er, m') \<Rightarrow> (writeError 500 ''failed to revoke key'', m')
           | (Inr _, m') \<Rightarrow> (writeJSON 200 (AMap [(''message'', AString ''key revoked'')]), m')))"

definition handleRotateKey :: "(string \<Rightarrow> string) \<Rightarrow> 's Apikeys.Store \<Rightarrow> rotate_inputs \<Rightarrow> ws_authenticator option \<Rightarrow> http_req \<Rightarrow>
    's Apikeys.DefaultManager \<Rightarrow> reply \<times> 's Apikeys.DefaultManager" where
  "handleRotateKey sha256 ops inp authenticator r m =
     (case ownedKey ops authenticator r m of
        Inl rp \<Rightarrow> (rp, m)
      | Inr key \<Rightarrow>
          (case Rotate sha256 ops inp (hq_PathValue r ''id'') m of
             (Inl er, m') \<Rightarrow> (writeError 500 ''failed to rotate key'', m')
           | (Inr res, m') \<Rightarrow>
               (writeJSON 200 (AMap
                  [(''key'', AString (kr_PlaintextKey res)), (''key_id'', AString (ak_ID (kr_Key res))),
                   (''key_prefix'', AString (ak_KeyPrefix (kr_Key res))), (''name'', AString (ak_Name (kr_Key res))),
                   (''old_key_id'', AString (hq_PathValue r ''id'')), (''old_key_status'', AString ''revoked''),
                   (''message'', AString save_message)]), m')))"


section \<open>Quotas\<close>

definition quota_status :: "'q Quota.Store \<Rightarrow> time \<Rightarrow> string \<Rightarrow> string \<Rightarrow> 'q Quota.DefaultManager \<Rightarrow> string \<Rightarrow> any option" where
  "quota_status qops now tenantID userID m qt =
     (case Quota.GetUsage qops now tenantID userID qt m of
        Inl er \<Rightarrow> None
      | Inr u \<Rightarrow>
          (case Quota.GetQuota qops tenantID userID qt m of
             Inl er \<Rightarrow> None
           | Inr q \<Rightarrow>
               let rest = wrap64 (qt_Limit q - us_Current u);
                   remaining = (if rest < 0 then 0 else rest);
                   percent = (if qt_Limit q > 0 then f64_mul (fl (f64_of_int (us_Current u) / f64_of_int (qt_Limit q))) 100 else 0)
               in Some (AMap ([(''type'', AString qt), (''limit'', AInt (qt_Limit q))] @ omitempty ''soft_limit'' (AInt (qt_SoftLimit q)) @
                    [(''current'', AInt (us_Current u)), (''remaining'', AInt remaining), (''percent_used'', AFloat percent),
                     (''period'', AString (qt_Period q))]))))"

definition handleGetQuotas :: "'q Quota.Store \<Rightarrow> time \<Rightarrow> ws_authenticator option \<Rightarrow> http_req \<Rightarrow> 'q Quota.DefaultManager \<Rightarrow> reply" where
  "handleGetQuotas qops now authenticator r m =
     (case requireAuth authenticator r of
        Inl rp \<Rightarrow> rp
      | Inr p \<Rightarrow>
          let tenantID = TenantID (Some p); userID = p_Subject p;
              statuses = List.map_filter (quota_status qops now tenantID userID m)
                [QuotaTypeRequests, QuotaTypeTokensIn, QuotaTypeTokensOut, QuotaTypeToolCalls]
          in writeJSON 200 (AMap [(''tenant_id'', AString tenantID), (''user_id'', AString userID),
               (''quotas'', if statuses = [] then ANil else AList statuses)]))"


section \<open>Instants in requests\<close>

text \<open>\<open>time.Parse(time.RFC3339, s)\<close>: hours may have one digit, seconds a fraction after a point or a comma of which
  nine digits count, zones are \<open>Z\<close> or an offset of at most 24 hours and 60 minutes.\<close>

definition two_digits :: "string \<Rightarrow> (int \<times> string) option" where
  "two_digits s =
     (case s of a # b # r \<Rightarrow> if is_digit a \<and> is_digit b then Some (digit_val a * 10 + digit_val b, r) else None | _ \<Rightarrow> None)"

definition one_or_two_digits :: "string \<Rightarrow> (int \<times> string) option" where
  "one_or_two_digits s =
     (case two_digits s of
        Some x \<Rightarrow> Some x
      | None \<Rightarrow> (case s of a # r \<Rightarrow> if is_digit a then Some (digit_val a, r) else None | [] \<Rightarrow> None))"

definition skip_char :: "char \<Rightarrow> string \<Rightarrow> string option" where
  "skip_char c s = (case s of a # r \<Rightarrow> if a = c then Some r else None | [] \<Rightarrow> None)"

definition fraction :: "string \<Rightarrow> int \<times> string" where
  "fraction s =
     (case s of
        a # r \<Rightarrow>
          if (a = CHR ''.'' \<or> a = CHR '','') \<and> takeWhile is_digit r \<noteq> []
          then (let ds = take 9 (takeWhile is_digit r) in (digits_val ds * 10 ^ (9 - length ds), dropWhile is_digit r))
          else (0, s)
      | [] \<Rightarrow> (0, s))"

definition zone :: "string \<Rightarrow> (int \<times> string) option" where
  "zone s =
     (case s of
        a # r \<Rightarrow>
          if a = CHR ''Z'' then Some (0, r)
          else if a = CHR ''+'' \<or> a = CHR ''-''
          then Option.bind (two_digits r) (\<lambda>(h, r1). Option.bind (skip_char CHR '':'' r1) (\<lambda>r2. Option.bind (two_digits r2) (\<lambda>(m, r3).
                 if h > 24 \<or> m > 60 then None else Some ((if a = CHR ''-'' then -1 else 1) * (h * 3600 + m * 60), r3))))
          else None
      | [] \<Rightarrow> None)"

definition days_in :: "int \<Rightarrow> int \<Rightarrow> int" where
  "days_in y m = date_day y (m + 1) 1 - date_day y m 1"

definition ParseRFC3339 :: "string \<Rightarrow> time option" where
  "ParseRFC3339 s =
     Option.bind (two_digits s) (\<lambda>(y1, s1). Option.bind (two_digits s1) (\<lambda>(y2, s2). Option.bind (skip_char CHR ''-'' s2) (\<lambda>s3.
     Option.bind (two_digits s3) (\<lambda>(mo, s4). Option.bind (skip_char CHR ''-'' s4) (\<lambda>s5. Option.bind (two_digits s5) (\<lambda>(d, s6).
     Option.bind (skip_char CHR ''T'' s6) (\<lambda>s7. Option.bind (one_or_two_digits s7) (\<lambda>(h, s8). Option.bind (skip_char CHR '':'' s8) (\<lambda>s9.
     Option.bind (two_digits s9) (\<lambda>(mi, s10). Option.bind (skip_char CHR '':'' s10) (\<lambda>s11. Option.bind (two_digits s11) (\<lambda>(sec, s12).
       let y = y1 * 100 + y2; (ns, s13) = fraction s12
       in if mo < 1 \<or> 12 < mo \<or> h \<ge> 24 \<or> mi \<ge> 60 \<or> sec \<ge> 60 then None
          else Option.bind (zone s13) (\<lambda>(off, s14).
            if s14 \<noteq> [] \<or> d < 1 \<or> d > days_in y mo then None
            else Some (time_Date y mo d + (h * 3600 + mi * 60 + sec - off) * Second + ns))))))))))))))"

lemma ParseRFC3339_examples:
  "ParseRFC3339 ''1970-01-01T00:00:00Z'' = Some unix_epoch" "ParseRFC3339 ''1970-01-01T02:00:00+02:00'' = Some unix_epoch"
  "ParseRFC3339 ''1970-02-30T00:00:00Z'' = None" "ParseRFC3339 ''1970-01-01T00:00:00.5Z'' = Some (unix_epoch + 500 * Millisecond)"
  by code_simp+


section \<open>Usage\<close>

definition handleGetUsage :: "'u Usage_Tracker.Store \<Rightarrow> flush_env \<Rightarrow> time \<Rightarrow> time \<Rightarrow> ws_authenticator option \<Rightarrow> http_req \<Rightarrow> 'u DefaultTracker \<Rightarrow>
    reply \<times> 'u DefaultTracker" where
  "handleGetUsage uops env now1 now2 authenticator r t =
     (case requireAuth authenticator r of
        Inl rp \<Rightarrow> (rp, t)
      | Inr p \<Rightarrow>
          let tenantID = TenantID (Some p); userID = p_Subject p; startStr = hq_Query r ''start''; endStr = hq_Query r ''end''
          in (case (if startStr \<noteq> [] then ParseRFC3339 startStr else Some (time_Add now1 (- 24 * Hour))) of
                None \<Rightarrow> (writeError 400 ''invalid start time format (use RFC3339)'', t)
              | Some start \<Rightarrow>
                  (case (if endStr \<noteq> [] then ParseRFC3339 endStr else Some now2) of
                     None \<Rightarrow> (writeError 400 ''invalid end time format (use RFC3339)'', t)
                   | Some end_time \<Rightarrow>
                       (case Usage_Tracker.GetSummary uops env tenantID userID start end_time t of
                          (Inl er, t') \<Rightarrow> (writeError 500 ''failed to get usage summary'', t')
                        | (Inr sm, t') \<Rightarrow>
                            (writeJSON 200 (AMap
                               [(''tenant_id'', AString tenantID), (''user_id'', AString userID), (''period_start'', ATime start),
                                (''period_end'', ATime end_time), (''total_events'', AInt (sm_TotalEvents sm)),
                                (''success_count'', AInt (sm_SuccessCount sm)), (''error_count'', AInt (sm_ErrorCount sm)),
                                (''total_tokens_in'', AInt (sm_TotalTokensIn sm)), (''total_tokens_out'', AInt (sm_TotalTokensOut sm)),
                                (''total_duration_ms'', AInt (Milliseconds (sm_TotalDuration sm))),
                                (''avg_duration_ms'', AInt (Milliseconds (sm_AvgDuration sm))),
                                (''tool_breakdown'', AMap (map (\<lambda>(k, n). (k, AInt n)) (sm_ToolBreakdown sm)))]), t')))))"

text \<open>The limit of an export: the digits of the parameter, whatever stands between them.\<close>

fun digits_of :: "int \<Rightarrow> string \<Rightarrow> int" where
  "digits_of n [] = n"
| "digits_of n (c # s) = (if is_digit c then digits_of (wrap64 (n * 10 + digit_val c)) s else digits_of n s)"

definition export_limit :: "string \<Rightarrow> int" where
  "export_limit limitStr =
     (if limitStr = [] then 1000
      else let n = digits_of 0 limitStr in if n > 0 \<and> n \<le> 10000 then n else 1000)"

lemma export_limit_bounds: "1 \<le> export_limit s \<and> export_limit s \<le> 10000"
  by (simp add: export_limit_def Let_def)

definition export_params :: "Principal \<Rightarrow> time \<Rightarrow> time \<Rightarrow> int \<Rightarrow> QueryParams" where
  "export_params p start end_time limit =
     \<lparr>qp_TenantID = TenantID (Some p), qp_UserID = p_Subject p, qp_ToolName = [], qp_StartTime = start, qp_EndTime = end_time,
      qp_Limit = limit, qp_Offset = 0\<rparr>"

text \<open>The status of an export is always 200 when the parameters are fine: the error of the exporter comes too late.\<close>

definition handleExportUsage :: "'u Usage_Tracker.Store \<Rightarrow> flush_env \<Rightarrow> time \<Rightarrow> ws_authenticator option \<Rightarrow> http_req \<Rightarrow> 'u DefaultTracker \<Rightarrow>
    reply \<times> 'u DefaultTracker" where
  "handleExportUsage uops env now authenticator r t =
     (case requireAuth authenticator r of
        Inl rp \<Rightarrow> (rp, t)
      | Inr p \<Rightarrow>
          let f = hq_Query r ''format''; format = (if f = [] then ''json'' else f);
              startStr = hq_Query r ''start''; endStr = hq_Query r ''end''
          in if format \<noteq> ''json'' \<and> format \<noteq> ''csv''
             then (writeError 400 (''format must be '' @ [CHR 0x27] @ ''json'' @ [CHR 0x27] @ '' or '' @ [CHR 0x27] @ ''csv'' @ [CHR 0x27]), t)
             else (case (if startStr \<noteq> [] then ParseRFC3339 startStr else Some 0) of
                     None \<Rightarrow> (writeError 400 ''invalid start time format'', t)
                   | Some start \<Rightarrow>
                       (case (if endStr \<noteq> [] then ParseRFC3339 endStr else Some 0) of
                          None \<Rightarrow> (writeError 400 ''invalid end time format'', t)
                        | Some end_time \<Rightarrow>
                            (case Export uops env now (export_params p start end_time (export_limit (hq_Query r ''limit''))) format t of
                               (res, t') \<Rightarrow>
                                 (\<lparr>rp_status = 200, rp_contentType = (if format = ''csv'' then ''text/csv'' else ''application/json''),
                                   rp_body = (case res of Inr (DocJSON v) \<Rightarrow> JSON v | Inr (DocCSV x) \<Rightarrow> Text x | Inl er \<Rightarrow> Text [])\<rparr>, t')))))"


section \<open>Invoking a tool\<close>

definition defaultToolCallTimeout :: duration where "defaultToolCallTimeout = 30 * Second"
definition maxToolRequestBody :: nat where "maxToolRequestBody = 1048576"
definition defaultProfile :: string where "defaultProfile = ''common''"

definition toolCallTimeoutFromEnv :: "getenv \<Rightarrow> duration" where
  "toolCallTimeoutFromEnv getenv =
     (let v = TrimSpace (getenv ''FI_MCP_TOOL_CALL_TIMEOUT'')
      in if v = [] then defaultToolCallTimeout
         else (case ParseDuration v of None \<Rightarrow> defaultToolCallTimeout | Some d \<Rightarrow> if d \<le> 0 then defaultToolCallTimeout else d))"

definition New_toolTimeout :: "getenv \<Rightarrow> duration \<Rightarrow> duration" where
  "New_toolTimeout getenv toolCallTimeout = (if toolCallTimeout \<le> 0 then toolCallTimeoutFromEnv getenv else toolCallTimeout)"

text \<open>\<open>readToolArguments\<close>: \<open>stream\<close> is the body or the error of reading it, \<open>decode\<close> the value of a JSON text. The result
  is the text passed on.\<close>

definition readToolArguments :: "(string \<Rightarrow> any option) \<Rightarrow> (string, string) result \<Rightarrow> (string, string) result" where
  "readToolArguments decode stream =
     (case stream of
        Inl er \<Rightarrow> Err (''read request body: '' @ er)
      | Inr full \<Rightarrow>
          let body = take (maxToolRequestBody + 1) full
          in if length body > maxToolRequestBody then Err (''request body exceeds '' @ Itoa (int maxToolRequestBody) @ '' bytes'')
             else let trimmed = TrimSpace body
                  in if length trimmed = 0 then Ok ''{}''
                     else (case decode trimmed of
                             Some (AMap _) \<Rightarrow> Ok trimmed
                           | Some ANil \<Rightarrow> Ok trimmed
                           | _ \<Rightarrow> Err ''request body must be a JSON object of tool arguments''))"

definition errorTextFromContent :: "(string \<times> string) list \<Rightarrow> string" where
  "errorTextFromContent content =
     (let parts = map (\<lambda>c. TrimSpace (snd c)) (filter (\<lambda>c. fst c = ''text'' \<and> TrimSpace (snd c) \<noteq> []) content)
      in if length parts = 0 then ''tool reported an error'' else Join parts ''; '')"

fun hasStaticTool :: "string list \<Rightarrow> string \<Rightarrow> bool" where
  "hasStaticTool [] name = False"
| "hasStaticTool (t # tools) name = (if t = name then True else hasStaticTool tools name)"

text \<open>What follows the checks of \<open>handleInvokeTool\<close>: \<open>callTool\<close> is the one-shot call for a server, a tool and its
  arguments, and \<open>toResult\<close> reads the error flag and the content of a result. The second component lists the calls
  that were made.\<close>

record tool_env =
  te_decode :: "string \<Rightarrow> any option"
  te_body :: "(string, string) result"
  te_callTool :: "string \<Rightarrow> string \<Rightarrow> string \<Rightarrow> (string, any) result"
  te_toResult :: "any \<Rightarrow> (string, bool \<times> (string \<times> string) list) result"

definition invoke :: "tool_env \<Rightarrow> string \<Rightarrow> string \<Rightarrow> reply \<times> (string \<times> string) list" where
  "invoke env serverName toolName =
     (case readToolArguments (te_decode env) (te_body env) of
        Inl er \<Rightarrow> (writeError 400 er, [])
      | Inr args \<Rightarrow>
          (case te_callTool env serverName toolName args of
             Inl er \<Rightarrow> writeError 502 (''tool call failed: '' @ er)
           | Inr raw \<Rightarrow>
               (case te_toResult env raw of
                  Inl er \<Rightarrow> writeError 502 (''invalid backend result: '' @ er)
                | Inr (isError, content) \<Rightarrow>
                    if isError then writeError 502 (''tool returned error: '' @ errorTextFromContent content)
                    else \<lparr>rp_status = 200, rp_contentType = ''application/json'', rp_body = JSON raw\<rparr>),
           [(serverName, toolName)]))"

text \<open>A server without a registry panics at the lookup.\<close>

definition handleInvokeTool :: "Registry option \<Rightarrow> authorize_fn option \<Rightarrow> tool_env \<Rightarrow> http_req \<Rightarrow>
    (reply \<times> (string \<times> string) list) option" where
  "handleInvokeTool reg pol env r =
     (let serverName = TrimSpace (hq_PathValue r ''server''); toolName = TrimSpace (hq_PathValue r ''tool'')
      in if serverName = [] \<or> toolName = [] then Some (writeError 404 ''unknown server or tool'', [])
         else (case reg of
                 None \<Rightarrow> None
               | Some rg \<Rightarrow>
                   Some (case rg_GetServer rg serverName of
                      None \<Rightarrow> (writeError 404 (''unknown server: '' @ serverName), [])
                    | Some srv \<Rightarrow>
                        if sv_IsLocalOnly srv then (writeError 404 (''unknown server: '' @ serverName), [])
                        else let p0 = TrimSpace (hq_Query r ''profile''); profile = (if p0 = [] then defaultProfile else p0)
                             in if \<not> IsToolAlwaysAllowed reg serverName profile toolName
                                then (case rg_GetServerSpec rg serverName profile of
                                        Inr (Some spec) \<Rightarrow>
                                          if length (sp_Tools spec) > 0 \<and> \<not> hasStaticTool (sp_Tools spec) toolName
                                          then (writeError 404 (''unknown tool: '' @ toolName), [])
                                          else (writeError 403 (''tool not allowlisted: '' @ serverName @ ''/'' @ toolName), [])
                                      | _ \<Rightarrow> (writeError 403 (''tool not allowlisted: '' @ serverName @ ''/'' @ toolName), []))
                                else (case pol of
                                        None \<Rightarrow> invoke env serverName toolName
                                      | Some p \<Rightarrow>
                                          let decision = p None \<lparr>rq_Method = ''tools/call'', rq_ToolName = toolName, rq_ServerName = serverName, rq_Profile = profile\<rparr>
                                          in if \<not> d_Allow decision
                                             then (writeError 403 (if d_Reason decision \<noteq> [] then ''forbidden: '' @ d_Reason decision else ''forbidden''), [])
                                             else invoke env serverName toolName))))"


section \<open>Who may do what\<close>

lemma invoke_calls: "invoke env srv tool = (rp, calls) \<Longrightarrow> set calls \<subseteq> {(srv, tool)} \<and> length calls \<le> 1"
  by (auto simp: invoke_def split: sum.splits)

text \<open>C24. The keyless route to tools: a tool is invoked only on a server of the registry that is not local-only, only
  when the registry's allow list for that server and profile names it and the configured policy allows it, and at
  most once per request.\<close>

theorem handleInvokeTool_gate:
  assumes "handleInvokeTool reg pol env r = Some (rp, calls)" "(srv, tool) \<in> set calls"
  shows "calls = [(srv, tool)] \<and> srv = TrimSpace (hq_PathValue r ''server'') \<and> tool = TrimSpace (hq_PathValue r ''tool'') \<and>
    (\<exists>rg sv profile. reg = Some rg \<and> rg_GetServer rg srv = Some sv \<and> \<not> sv_IsLocalOnly sv \<and>
       IsToolAlwaysAllowed reg srv profile tool \<and>
       (\<forall>p. pol = Some p \<longrightarrow>
          d_Allow (p None \<lparr>rq_Method = ''tools/call'', rq_ToolName = tool, rq_ServerName = srv, rq_Profile = profile\<rparr>)))"
proof -
  let ?srv = "TrimSpace (hq_PathValue r ''server'')" and ?tool = "TrimSpace (hq_PathValue r ''tool'')"
  let ?profile = "if TrimSpace (hq_Query r ''profile'') = [] then defaultProfile else TrimSpace (hq_Query r ''profile'')"
  have ne: "calls \<noteq> []" using assms(2) by auto
  obtain rg sv where rg: "reg = Some rg" "rg_GetServer rg ?srv = Some sv" "\<not> sv_IsLocalOnly sv"
    using assms(1) ne by (auto simp: handleInvokeTool_def Let_def split: result_splits)
  have al: "IsToolAlwaysAllowed reg ?srv ?profile ?tool"
    using assms(1) ne rg by (auto simp: handleInvokeTool_def Let_def split: result_splits)
  have pl: "\<forall>p. pol = Some p \<longrightarrow> d_Allow (p None \<lparr>rq_Method = ''tools/call'', rq_ToolName = ?tool, rq_ServerName = ?srv, rq_Profile = ?profile\<rparr>)"
    using assms(1) ne rg al by (auto simp: handleInvokeTool_def Let_def split: result_splits)
  have inv: "invoke env ?srv ?tool = (rp, calls)"
    using assms(1) ne rg al pl by (auto simp: handleInvokeTool_def Let_def split: result_splits)
  from invoke_calls [OF inv] assms(2) have "srv = ?srv" "tool = ?tool" "calls = [(srv, tool)]"
    by (auto simp: le_Suc_eq length_Suc_conv)
  with rg al pl show ?thesis by metis
qed

text \<open>C22. API keys belong to their owner: a request for a single key that succeeds is made by the user, within the
  tenant, the key was created for; for the key of somebody else the three handlers give exactly the reply for a key
  that does not exist and leave the store as it is.\<close>

theorem foreign_key_hidden:
  assumes "requireAuth a r = Ok p" "hq_PathValue r ''id'' = kid" "kid \<noteq> []" "Get ops kid m = Ok key"
    "ak_TenantID key \<noteq> TenantID (Some p) \<or> ak_UserID key \<noteq> p_Subject p"
  shows "handleGetKey ops a r m = writeError 404 ''key not found'' \<and>
    handleRevokeKey ops now a r m = (writeError 404 ''key not found'', m) \<and>
    handleRotateKey sha ops inp a r m = (writeError 404 ''key not found'', m) \<and>
    (\<forall>m'. Get ops kid m' = Err ErrKeyNotFound \<longrightarrow>
       handleGetKey ops a r m' = handleGetKey ops a r m \<and>
       fst (handleRevokeKey ops now a r m') = fst (handleRevokeKey ops now a r m) \<and>
       fst (handleRotateKey sha ops inp a r m') = fst (handleRotateKey sha ops inp a r m))"
  using assms by (auto simp: handleGetKey_def handleRevokeKey_def handleRotateKey_def ownedKey_def Let_def)

definition demo_principal :: Principal where
  "demo_principal = \<lparr>p_Subject = ''ann'', p_Issuer = [], p_Audience = [], p_Claims = Some [(''tenant_id'', AString ''acme'')]\<rparr>"

definition demo_auth :: "ws_authenticator option" where "demo_auth = Some (\<lambda>h. Ok (Some demo_principal))"

definition demo_req :: http_req where
  "demo_req = \<lparr>hq_Header = (\<lambda>_. []), hq_Query = (\<lambda>_. []),
     hq_PathValue = (\<lambda>k. if k = ''server'' then ''fs'' else if k = ''tool'' then ''ls'' else ''k1''), hq_Body = None\<rparr>"

lemma requireAuth_demo: "requireAuth demo_auth r = Ok demo_principal"
  by (simp add: requireAuth_def demo_auth_def)

theorem foreign_key_hidden_witness:
  "\<exists>m :: unit Apikeys.DefaultManager. handleGetKey
     \<lparr>st_Create = (\<lambda>k s. (Ok (), s)), st_Get = (\<lambda>i s. Ok \<lparr>ak_ID = i, ak_TenantID = ''beta'', ak_UserID = ''bob'', ak_Name = ''n'', ak_KeyHash = [],
        ak_KeyPrefix = [], ak_Scopes = [], ak_ExpiresAt = None, ak_CreatedAt = 0, ak_LastUsedAt = None, ak_RevokedAt = None\<rparr>),
      st_GetByHash = (\<lambda>h s. Err ErrKeyNotFound), st_List = (\<lambda>t u s. Ok []), st_Update = (\<lambda>k s. (Ok (), s)), st_Delete = (\<lambda>k s. (Ok (), s)),
      st_CountByUser = (\<lambda>n t u s. Ok 0)\<rparr> demo_auth demo_req m = writeError 404 ''key not found''"
proof -
  let ?key = "\<lambda>i. \<lparr>ak_ID = i, ak_TenantID = ''beta'', ak_UserID = ''bob'', ak_Name = ''n'', ak_KeyHash = [],
        ak_KeyPrefix = [], ak_Scopes = [], ak_ExpiresAt = None, ak_CreatedAt = 0, ak_LastUsedAt = None, ak_RevokedAt = None\<rparr>"
  let ?ops = "\<lparr>st_Create = (\<lambda>k s. (Ok (), s)), st_Get = (\<lambda>i s. Ok (?key i)),
      st_GetByHash = (\<lambda>h s. Err ErrKeyNotFound), st_List = (\<lambda>t u s. Ok []), st_Update = (\<lambda>k s. (Ok (), s)), st_Delete = (\<lambda>k s. (Ok (), s)),
      st_CountByUser = (\<lambda>n t u s. Ok 0)\<rparr>"
  let ?m = "\<lparr>dm_store = Some (), dm_cfg = Apikeys.LoadConfigFromEnv (\<lambda>_. []), dm_enabled = True\<rparr>"
  have "Get ?ops ''k1'' ?m = Ok (?key ''k1'')" by (simp add: Get_def)
  from foreign_key_hidden [OF requireAuth_demo, of demo_req "''k1''", OF _ _ this] show ?thesis
    by (intro exI [of _ ?m]) (simp add: demo_req_def demo_principal_def)
qed

theorem handleInvokeTool_gate_witness:
  "\<exists>rg rp. handleInvokeTool (Some rg) None \<lparr>te_decode = (\<lambda>_. None), te_body = Ok [], te_callTool = (\<lambda>s t a. Ok ANil),
       te_toResult = (\<lambda>v. Ok (False, []))\<rparr> demo_req = Some (rp, [(''fs'', ''ls'')]) \<and> IsToolAlwaysAllowed (Some rg) ''fs'' ''common'' ''ls''"
proof -
  let ?rg = "demo_registry\<lparr>rg_GetServerSpec := (\<lambda>n p. Ok (Some \<lparr>sp_AlwaysAllow = [''ls''], sp_Tools = []\<rparr>))\<rparr>"
  let ?env = "\<lparr>te_decode = (\<lambda>_. None), te_body = Ok [], te_callTool = (\<lambda>s t a. Ok ANil), te_toResult = (\<lambda>v. Ok (False, []))\<rparr>"
  have t: "TrimSpace ''fs'' = ''fs''" "TrimSpace ''ls'' = ''ls''" by code_simp+
  have al: "IsToolAlwaysAllowed (Some ?rg) ''fs'' p ''ls''" for p by (simp add: IsToolAlwaysAllowed_def)
  obtain sv where sv: "rg_GetServer ?rg ''fs'' = Some sv" "\<not> sv_IsLocalOnly sv" by (simp add: demo_registry_def Let_def)
  obtain rp where i: "invoke ?env ''fs'' ''ls'' = (rp, [(''fs'', ''ls'')])" by (simp add: invoke_def readToolArguments_def)
  have h: "handleInvokeTool (Some ?rg) None ?env demo_req = Some (rp, [(''fs'', ''ls'')])"
    using sv by (simp add: handleInvokeTool_def demo_req_def t al i Let_def del: Registry.select_convs)
  from handleInvokeTool_gate [OF h, of "''fs''" "''ls''"] h al show ?thesis by blast
qed


section \<open>Isolation of usage data\<close>

lemma page_subset: "set (page p es) \<subseteq> set es"
proof -
  have "set (take a (drop b es)) \<subseteq> set es" "set (take a es) \<subseteq> set es" "set (drop b es) \<subseteq> set es" for a b
    using set_take_subset [of a "drop b es"] set_drop_subset [of b es] set_take_subset [of a es] by auto
  then show ?thesis by (simp add: page_def Let_def)
qed

lemma Query_memory_ok: "\<exists>es t'. Query (memory_ops sort_Slice) env p t = (Ok es, t')"
  by (cases "dt_store (flush (memory_ops sort_Slice) env t)") (simp_all add: Query_def Let_def store_ops mem_Query_def)

lemma Query_memory_result:
  assumes "slice_sort sort_Slice" "Query (memory_ops sort_Slice) env p t = (Ok es, t')" "0 < qp_Limit p"
  shows "(\<forall>e\<in>set es. matches e p) \<and> int (length es) \<le> qp_Limit p"
proof (cases "dt_enabled t")
  case False
  with assms(2,3) show ?thesis by (simp add: Query_def)
next
  case True
  show ?thesis
  proof (cases "dt_store (flush (memory_ops sort_Slice) env t)")
    case None
    with True assms(2,3) show ?thesis by (simp add: Query_def Let_def)
  next
    case (Some s)
    let ?f = "filter (\<lambda>e. matches e p) (mu_events s)"
    have es: "es = page p (sort_Slice ?f)"
      using Some True assms(2) by (simp add: Query_def Let_def store_ops mem_Query_def)
    have "set (sort_Slice ?f) = set ?f" using slice_sort.permutes [OF assms(1), of ?f] by (metis set_mset_mset)
    then have "\<forall>e\<in>set (page p (sort_Slice ?f)). matches e p"
      using page_subset [of p "sort_Slice ?f"] by auto
    moreover have "int (length (page p (sort_Slice ?f))) \<le> qp_Limit p"
      using assms(3) by (auto simp: page_def Let_def)
    ultimately show ?thesis unfolding es by blast
  qed
qed

text \<open>C23. Usage exports stay within the caller's tenant and user: whatever the parameters of the request, the document
  of a successful export over the in-memory store lists at most 10000 events, and every one of them carries the
  tenant and the user of the caller, provided the caller has both.\<close>

theorem export_isolated:
  assumes "slice_sort sort_Slice" "handleExportUsage (memory_ops sort_Slice) env now a r t = (rp, t')" "rp_status rp = 200"
    "requireAuth a r = Ok p" "TenantID (Some p) \<noteq> []" "p_Subject p \<noteq> []"
  shows "\<exists>es. (rp_body rp = JSON (exportJSON now es) \<or> rp_body rp = Text (exportCSV es)) \<and> length es \<le> 10000 \<and>
    (\<forall>e\<in>set es. ue_TenantID e = TenantID (Some p) \<and> ue_UserID e = p_Subject p)"
proof -
  let ?l = "export_limit (hq_Query r ''limit'')"
  let ?f = "if hq_Query r ''format'' = [] then ''json'' else hq_Query r ''format''"
  have f: "?f = ''json'' \<or> ?f = ''csv''" using assms(2-4) unfolding handleExportUsage_def Let_def writeError_def writeJSON_def
    by (cases "?f = ''json''"; cases "?f = ''csv''") auto
  obtain start where st: "(if hq_Query r ''start'' \<noteq> [] then ParseRFC3339 (hq_Query r ''start'') else Some 0) = Some start"
    using assms(2-4) f unfolding handleExportUsage_def Let_def writeError_def writeJSON_def
    by (cases "if hq_Query r ''start'' \<noteq> [] then ParseRFC3339 (hq_Query r ''start'') else Some 0") auto
  obtain end_time where en: "(if hq_Query r ''end'' \<noteq> [] then ParseRFC3339 (hq_Query r ''end'') else Some 0) = Some end_time"
    using assms(2-4) f st unfolding handleExportUsage_def Let_def writeError_def writeJSON_def
    by (cases "if hq_Query r ''end'' \<noteq> [] then ParseRFC3339 (hq_Query r ''end'') else Some 0") auto
  obtain res t1 where er: "Export (memory_ops sort_Slice) env now (export_params p start end_time ?l) ?f t = (res, t1)" by (rule prod.exhaust)
  have "rp_body rp = (case res of Inr (DocJSON v) \<Rightarrow> JSON v | Inr (DocCSV x) \<Rightarrow> Text x | Inl er \<Rightarrow> Text []) \<and> t1 = t'"
    using assms(2,4) f st en er unfolding handleExportUsage_def Let_def by auto
  note ex = f er conjunct1 [OF this] conjunct2 [OF this]
  let ?p = "export_params p start end_time ?l"
  obtain es t2 where q: "Query (memory_ops sort_Slice) env ?p t = (Ok es, t2)"
    using Query_memory_ok [of sort_Slice env ?p t] by blast
  have l: "0 < qp_Limit ?p" "qp_Limit ?p \<le> 10000" using export_limit_bounds [of "hq_Query r ''limit''"] by (simp_all add: export_params_def)
  note m = Query_memory_result [OF assms(1) q l(1)]
  have "\<forall>e\<in>set es. ue_TenantID e = TenantID (Some p) \<and> ue_UserID e = p_Subject p"
    using m assms(5,6) by (auto simp: matches_def export_params_def split: if_splits)
  moreover have "rp_body rp = JSON (exportJSON now es) \<or> rp_body rp = Text (exportCSV es)"
    using ex(1-3) by (auto simp: Export_def q)
  ultimately show ?thesis using m l by fastforce
qed

text \<open>A caller whose principal names neither a tenant nor a user sees the events of everybody.\<close>

lemma unscoped_export_matches_all:
  assumes "TenantID (Some p) = []" "p_Subject p = []"
  shows "matches e (export_params p 0 0 limit)"
  using assms by (simp add: matches_def export_params_def IsZero_def)

theorem export_isolated_witness:
  "\<exists>rp t' es. handleExportUsage (memory_ops insertion_sort_Slice) \<lparr>fe_Now = 0, fe_OpenFile = (\<lambda>_. None), fe_Encode = (\<lambda>_. None)\<rparr> 5 demo_auth demo_req
     (demo_tracker\<lparr>dt_store := Some \<lparr>mu_events = demo_events\<rparr>\<rparr>) = (rp, t') \<and> rp_status rp = 200 \<and>
     (rp_body rp = JSON (exportJSON 5 es) \<or> rp_body rp = Text (exportCSV es)) \<and> (\<forall>e\<in>set es. ue_TenantID e = ''acme'' \<and> ue_UserID e = ''ann'')"
proof -
  let ?env = "\<lparr>fe_Now = 0, fe_OpenFile = (\<lambda>_. None), fe_Encode = (\<lambda>_. None)\<rparr>"
  let ?t = "demo_tracker\<lparr>dt_store := Some \<lparr>mu_events = demo_events\<rparr>\<rparr>"
  obtain rp t' where h: "handleExportUsage (memory_ops insertion_sort_Slice) ?env 5 demo_auth demo_req ?t = (rp, t')" by (rule prod.exhaust)
  then have s: "rp_status rp = 200"
    by (auto simp: handleExportUsage_def requireAuth_demo demo_req_def Let_def split: prod.splits)
  have p: "TenantID (Some demo_principal) = ''acme''" "p_Subject demo_principal = ''ann''"
    by (simp_all add: TenantID_def demo_principal_def)
  from export_isolated [OF stable.slice_sort_axioms h s requireAuth_demo] h s p show ?thesis by auto
qed

end
