(* ===== verification/Httpapi_Server.thy ===== *)
theory Httpapi_Server
  imports Httpapi
begin

text \<open>
  The package \<open>internal/httpapi\<close>, the assembly of the server (\<open>New\<close> and \<open>Handler\<close> in \<open>server.go\<close>): which components the
  server holds, which handler a request reaches through the two \<open>ServeMux\<close> tables, and the rate limit middleware in
  front of the API. The handlers are those of \<open>Httpapi\<close>; what they read from outside is the record \<open>http_env\<close>.

  A request is given by its method and the segments of its path, the last one empty for a path with a slash at the
  end. The path is a clean one: \<open>ServeMux\<close> redirects every other path before it looks at its table.

  Shown here: a request matches at most one route, so the order of the routes does not matter; and a request without
  valid credentials changes no key, quota or usage record and is answered only by the public endpoints.
\<close>

section \<open>Tables of routes\<close>

datatype seg = Lit string | Wild string

text \<open>A wildcard stands for one segment that is not empty. The result are the path values.\<close>

fun match_segs :: "seg list \<Rightarrow> string list \<Rightarrow> (string \<times> string) list option" where
  "match_segs [] [] = Some []"
| "match_segs (Lit l # ps) (x # xs) = (if x = l then match_segs ps xs else None)"
| "match_segs (Wild n # ps) (x # xs) = (if x = [] then None else map_option ((#) (n, x)) (match_segs ps xs))"
| "match_segs _ _ = None"

text \<open>A route without a method takes every method; one for \<open>GET\<close> takes \<open>HEAD\<close> too.\<close>

definition method_ok :: "string \<Rightarrow> string \<Rightarrow> bool" where
  "method_ok routeMethod m \<longleftrightarrow> routeMethod = [] \<or> m = routeMethod \<or> routeMethod = ''GET'' \<and> m = ''HEAD''"

type_synonym 'e route = "string \<times> seg list \<times> 'e"

datatype 'e dispatch = Found 'e "(string \<times> string) list" | MethodNotAllowed | NotFound

definition route_matches :: "string \<Rightarrow> string list \<Rightarrow> 'e route \<Rightarrow> bool" where
  "route_matches m path rt = (case rt of (rm, segs, e) \<Rightarrow> method_ok rm m \<and> match_segs segs path \<noteq> None)"

definition mux_find :: "'e route list \<Rightarrow> string \<Rightarrow> string list \<Rightarrow> 'e dispatch" where
  "mux_find routes m path =
     (case find (route_matches m path) routes of
        Some (rm, segs, e) \<Rightarrow> Found e (the (match_segs segs path))
      | None \<Rightarrow> if list_ex (\<lambda>(rm, segs, e). match_segs segs path \<noteq> None) routes then MethodNotAllowed else NotFound)"


section \<open>The server\<close>

record Server =
  sr_reg :: "Registry option"
  sr_ws :: Mcpws.Config
  sr_authenticator :: "ws_authenticator option"
  sr_pol :: "authorize_fn option"
  sr_toolTimeout :: duration

text \<open>The components with a state; the HTTP limiter is optional like the others.\<close>

record ('s, 'q, 'u, 'h) http_services =
  hs_apikeys :: "'s Apikeys.DefaultManager option"
  hs_quotas :: "'q Quota.DefaultManager option"
  hs_usage :: "'u DefaultTracker option"
  hs_limiter :: "'h option"

record Config =
  hc_Registry :: "Registry option"
  hc_Authenticator :: "ws_authenticator option"
  hc_Policy :: "authorize_fn option"
  hc_ToolCallTimeout :: duration

definition New :: "getenv \<Rightarrow> Config \<Rightarrow> Server" where
  "New getenv cfg =
     \<lparr>sr_reg = hc_Registry cfg,
      sr_ws = Mcpws.New getenv
        \<lparr>wc_Registry = hc_Registry cfg, wc_Authenticator = hc_Authenticator cfg, wc_Policy = hc_Policy cfg, wc_HubNamespace = [],
         wc_ServerPort = [], wc_ServerWSPath = [], wc_ServerScheme = [], wc_ServerHostTemplate = [], wc_HandshakeTimeout = 0,
         wc_DialTimeout = 0, wc_BackendMaxIdle = 0, wc_BackendMaxOpen = 0, wc_BackendIdleTimeout = 0\<rparr>,
      sr_authenticator = hc_Authenticator cfg, sr_pol = hc_Policy cfg, sr_toolTimeout = New_toolTimeout getenv (hc_ToolCallTimeout cfg)\<rparr>"

datatype outer_endpoint = Health | Ready | MetricsPage | Hosts | WebSocket

datatype endpoint =
    Servers | InvokeTool | CreateKey | ListKeys | GetKey | RevokeKey | RotateKey | Quotas | UsageSummary | UsageExport

definition outer_routes :: "outer_endpoint route list" where
  "outer_routes =
     [(''GET'', [Lit ''health''], Health), (''GET'', [Lit ''ready''], Ready), ([], [Lit ''metrics''], MetricsPage),
      (''GET'', [Lit ''hosts''], Hosts), ([], [Lit ''ws''], WebSocket)]"

definition key_routes :: "endpoint route list" where
  "key_routes =
     [(''POST'', [Lit ''api'', Lit ''v1'', Lit ''keys''], CreateKey),
      (''GET'', [Lit ''api'', Lit ''v1'', Lit ''keys''], ListKeys),
      (''GET'', [Lit ''api'', Lit ''v1'', Lit ''keys'', Wild ''id''], GetKey),
      (''DELETE'', [Lit ''api'', Lit ''v1'', Lit ''keys'', Wild ''id''], RevokeKey),
      (''POST'', [Lit ''api'', Lit ''v1'', Lit ''keys'', Wild ''id'', Lit ''rotate''], RotateKey)]"

definition api_routes :: "('s, 'q, 'u, 'h) http_services \<Rightarrow> endpoint route list" where
  "api_routes h =
     [(''GET'', [Lit ''api'', Lit ''servers''], Servers),
      (''POST'', [Lit ''api'', Lit ''v1'', Lit ''tools'', Wild ''server'', Wild ''tool''], InvokeTool)] @
     (if hs_apikeys h \<noteq> None then key_routes else []) @
     (if hs_quotas h \<noteq> None then [(''GET'', [Lit ''api'', Lit ''v1'', Lit ''quotas''], Quotas)] else []) @
     (if hs_usage h \<noteq> None
      then [(''GET'', [Lit ''api'', Lit ''v1'', Lit ''usage''], UsageSummary),
            (''GET'', [Lit ''api'', Lit ''v1'', Lit ''usage'', Lit ''export''], UsageExport)] else [])"

text \<open>What the handlers read from outside, and the stores behind the managers.\<close>

record 'p http_env =
  he_timestamp :: string
  he_create :: create_inputs
  he_rotate :: rotate_inputs
  he_now :: time
  he_now2 :: time
  he_flush :: flush_env
  he_tool :: tool_env
  he_newPool :: 'p
  he_upgrades :: bool

record ('s, 'q, 'u) stores =
  so_sha256 :: "string \<Rightarrow> string"
  so_apikeys :: "'s Apikeys.Store"
  so_quotas :: "'q Quota.Store"
  so_usage :: "'u Usage_Tracker.Store"

text \<open>The answers: a reply of a handler, a handler that panics, the middleware's refusal, the outcome of a connection to
  the gateway, and the answers of the tables themselves.\<close>

datatype 'p answer = Reply reply | Panicked | RateLimited http_reply | Socket "'p ws_answer" | MetricsText | Missing | BadMethod | AddSlash

definition with_manager :: "'m option \<Rightarrow> ('m \<Rightarrow> reply \<times> 'm) \<Rightarrow> 'p answer \<times> 'm option" where
  "with_manager m f = (case m of None \<Rightarrow> (Missing, None) | Some x \<Rightarrow> (case f x of (rp, x') \<Rightarrow> (Reply rp, Some x')))"

text \<open>The handler of an endpoint; the last component lists the tool calls made.\<close>

definition serve_endpoint :: "('s, 'q, 'u) stores \<Rightarrow> Server \<Rightarrow> 'p http_env \<Rightarrow> endpoint \<Rightarrow> http_req \<Rightarrow> ('s, 'q, 'u, 'h) http_services \<Rightarrow>
    'p answer \<times> ('s, 'q, 'u, 'h) http_services \<times> (string \<times> string) list" where
  "serve_endpoint so srv env e r h =
     (let au = sr_authenticator srv;
          keys = (\<lambda>f. case with_manager (hs_apikeys h) f of (a, m) \<Rightarrow> (a, h\<lparr>hs_apikeys := m\<rparr>, []));
          quotas = (\<lambda>f. case with_manager (hs_quotas h) f of (a, m) \<Rightarrow> (a, h\<lparr>hs_quotas := m\<rparr>, []));
          usage = (\<lambda>f. case with_manager (hs_usage h) f of (a, m) \<Rightarrow> (a, h\<lparr>hs_usage := m\<rparr>, []))
      in case e of
           Servers \<Rightarrow> (case handle_servers (sr_reg srv) of None \<Rightarrow> (Panicked, h, []) | Some rp \<Rightarrow> (Reply rp, h, []))
         | InvokeTool \<Rightarrow>
             (case handleInvokeTool (sr_reg srv) (sr_pol srv) (he_tool env) r of
                None \<Rightarrow> (Panicked, h, []) | Some (rp, calls) \<Rightarrow> (Reply rp, h, calls))
         | CreateKey \<Rightarrow> keys (handleCreateKey (so_sha256 so) (so_apikeys so) (he_create env) au r)
         | ListKeys \<Rightarrow> keys (\<lambda>m. (handleListKeys (so_apikeys so) au r m, m))
         | GetKey \<Rightarrow> keys (\<lambda>m. (handleGetKey (so_apikeys so) au r m, m))
         | RevokeKey \<Rightarrow> keys (handleRevokeKey (so_apikeys so) (he_now env) au r)
         | RotateKey \<Rightarrow> keys (handleRotateKey (so_sha256 so) (so_apikeys so) (he_rotate env) au r)
         | Quotas \<Rightarrow> quotas (\<lambda>m. (handleGetQuotas (so_quotas so) (he_now env) au r m, m))
         | UsageSummary \<Rightarrow> usage (handleGetUsage (so_usage so) (he_flush env) (he_now env) (he_now2 env) au r)
         | UsageExport \<Rightarrow> usage (handleExportUsage (so_usage so) (he_flush env) (he_now env) au r))"

definition with_values :: "(string \<times> string) list \<Rightarrow> http_req \<Rightarrow> http_req" where
  "with_values vs r = r\<lparr>hq_PathValue := (\<lambda>n. case map_of vs n of None \<Rightarrow> [] | Some v \<Rightarrow> v)\<rparr>"

definition serve_api :: "('s, 'q, 'u) stores \<Rightarrow> Server \<Rightarrow> 'p http_env \<Rightarrow> string \<Rightarrow> string list \<Rightarrow> http_req \<Rightarrow> ('s, 'q, 'u, 'h) http_services \<Rightarrow>
    'p answer \<times> ('s, 'q, 'u, 'h) http_services \<times> (string \<times> string) list" where
  "serve_api so srv env m path r h =
     (case mux_find (api_routes h) m path of
        Found e vs \<Rightarrow> serve_endpoint so srv env e (with_values vs r) h
      | MethodNotAllowed \<Rightarrow> (BadMethod, h, [])
      | NotFound \<Rightarrow> (Missing, h, []))"

text \<open>The API behind the middleware: \<open>allow\<close> asks the HTTP limiter. The headers it adds to other replies are left out.\<close>

definition limit_api :: "(Key \<Rightarrow> 'h \<Rightarrow> Result \<times> limit_error option \<times> 'h) \<Rightarrow> http_req \<Rightarrow> ('s, 'q, 'u, 'h) http_services \<Rightarrow>
    http_reply option \<times> ('s, 'q, 'u, 'h) http_services" where
  "limit_api allow r h =
     (case hs_limiter h of
        None \<Rightarrow> (None, h)
      | Some l \<Rightarrow>
          (case allow (DefaultKeyFunc (hq_Header r)) l of
             (result, er, l') \<Rightarrow>
               (if er = Some ErrRateLimited then Some (writeRateLimitedResponse result []) else None, h\<lparr>hs_limiter := Some l'\<rparr>)))"

definition Handler :: "('s, 'q, 'u) stores \<Rightarrow> (Key \<Rightarrow> 'h \<Rightarrow> Result \<times> limit_error option \<times> 'h) \<Rightarrow> Server \<Rightarrow> 'p http_env \<Rightarrow> string \<Rightarrow> string list \<Rightarrow>
    http_req \<Rightarrow> ('s, 'q, 'u, 'h) http_services \<Rightarrow> 'p answer \<times> ('s, 'q, 'u, 'h) http_services \<times> (string \<times> string) list" where
  "Handler so allow srv env m path r h =
     (let reply = (\<lambda>x. case x of None \<Rightarrow> Panicked | Some rp \<Rightarrow> Reply rp)
      in if path \<noteq> [] \<and> hd path = ''api''
         then if tl path = [] then (AddSlash, h, [])
              else (case limit_api allow r h of
                      (Some refusal, h') \<Rightarrow> (RateLimited refusal, h', [])
                    | (None, h') \<Rightarrow> serve_api so srv env m path r h')
         else (case mux_find outer_routes m path of
                 Found Health vs \<Rightarrow> (Reply (handle_health (he_timestamp env)), h, [])
               | Found Ready vs \<Rightarrow> (reply (handle_ready (sr_reg srv)), h, [])
               | Found MetricsPage vs \<Rightarrow> (MetricsText, h, [])
               | Found Hosts vs \<Rightarrow> (reply (handle_hosts (sr_reg srv)), h, [])
               | Found WebSocket vs \<Rightarrow>
                   (Socket (HandleWS (sr_ws srv) (he_now env) (he_newPool env) (he_upgrades env)
                      \<lparr>wr_Method = m, wr_Query = hq_Query r, wr_Header = hq_Header r\<rparr>), h, [])
               | MethodNotAllowed \<Rightarrow> (BadMethod, h, [])
               | NotFound \<Rightarrow> (Missing, h, [])))"


section \<open>Dispatch\<close>

fun seg_ok :: "seg \<Rightarrow> string \<Rightarrow> bool" where
  "seg_ok (Lit l) x \<longleftrightarrow> x = l"
| "seg_ok (Wild n) x \<longleftrightarrow> x \<noteq> []"

lemma match_segs_iff: "match_segs ps path \<noteq> None \<longleftrightarrow> list_all2 seg_ok ps path"
  by (induction ps path rule: match_segs.induct) auto

lemma match_segs_values: "match_segs ps path = Some vs \<Longrightarrow> map (\<lambda>(n, x). Wild n) vs = filter (\<lambda>p. \<exists>n. p = Wild n) ps \<and> (\<forall>(n, x)\<in>set vs. x \<noteq> [] \<and> x \<in> set path)"
  by (induction ps path arbitrary: vs rule: match_segs.induct) (auto split: if_splits)

text \<open>Two routes that no request can match both: their methods or two literal segments differ, or their lengths.\<close>

fun segs_conflict :: "seg list \<Rightarrow> seg list \<Rightarrow> bool" where
  "segs_conflict [] [] \<longleftrightarrow> False"
| "segs_conflict (Lit a # ps) (Lit b # qs) \<longleftrightarrow> a \<noteq> b \<or> segs_conflict ps qs"
| "segs_conflict (p # ps) (q # qs) \<longleftrightarrow> segs_conflict ps qs"
| "segs_conflict _ _ \<longleftrightarrow> True"

definition routes_conflict :: "'e route \<Rightarrow> 'e route \<Rightarrow> bool" where
  "routes_conflict r1 r2 \<longleftrightarrow>
     (case (r1, r2) of
        ((m1, s1, e1), (m2, s2, e2)) \<Rightarrow>
          m1 \<noteq> [] \<and> m2 \<noteq> [] \<and> m1 \<noteq> m2 \<and> m1 \<noteq> ''HEAD'' \<and> m2 \<noteq> ''HEAD'' \<or> segs_conflict s1 s2)"

lemma segs_conflict_sound: "segs_conflict ps qs \<Longrightarrow> list_all2 seg_ok ps path \<Longrightarrow> \<not> list_all2 seg_ok qs path"
  by (induction ps qs arbitrary: path rule: segs_conflict.induct) (auto simp: list_all2_Cons1)

lemma segs_conflict_match: "segs_conflict ps qs \<Longrightarrow> match_segs ps path \<noteq> None \<Longrightarrow> match_segs qs path = None"
  using segs_conflict_sound match_segs_iff by blast

lemma routes_conflict_sound:
  assumes "routes_conflict r1 r2" "route_matches m path r1" "route_matches m path r2"
  shows False
proof -
  obtain m1 s1 e1 m2 s2 e2 where r: "r1 = (m1, s1, e1)" "r2 = (m2, s2, e2)" by (cases r1; cases r2)
  with assms segs_conflict_match [of s1 s2 path] show False
    by (auto simp: routes_conflict_def route_matches_def method_ok_def)
qed

definition all_routes :: "endpoint route list" where
  "all_routes =
     [(''GET'', [Lit ''api'', Lit ''servers''], Servers),
      (''POST'', [Lit ''api'', Lit ''v1'', Lit ''tools'', Wild ''server'', Wild ''tool''], InvokeTool)] @ key_routes @
     [(''GET'', [Lit ''api'', Lit ''v1'', Lit ''quotas''], Quotas), (''GET'', [Lit ''api'', Lit ''v1'', Lit ''usage''], UsageSummary),
      (''GET'', [Lit ''api'', Lit ''v1'', Lit ''usage'', Lit ''export''], UsageExport)]"

lemma all_routes_conflict: "list_all (\<lambda>r1. list_all (\<lambda>r2. r1 = r2 \<or> routes_conflict r1 r2) all_routes) all_routes"
  by code_simp

lemma api_routes_all: "set (api_routes h) \<subseteq> set all_routes"
  by (auto simp: all_routes_def api_routes_def)

lemma api_routes_unique:
  assumes "r1 \<in> set (api_routes h)" "r2 \<in> set (api_routes h)" "route_matches m path r1" "route_matches m path r2"
  shows "r1 = r2"
  using assms all_routes_conflict api_routes_all routes_conflict_sound unfolding list_all_iff by blast

lemma find_SomeD: "find P xs = Some x \<Longrightarrow> x \<in> set xs \<and> P x"
  by (induction xs) (auto split: if_splits)

lemma mux_find_Found:
  assumes "mux_find routes m path = Found e vs"
  shows "\<exists>rm segs. (rm, segs, e) \<in> set routes \<and> method_ok rm m \<and> match_segs segs path = Some vs"
proof -
  obtain rt where rt: "find (route_matches m path) routes = Some rt"
    using assms by (auto simp: mux_find_def split: result_splits)
  obtain rm segs e' where r: "rt = (rm, segs, e')" by (cases rt)
  from rt have "rt \<in> set routes" "route_matches m path rt" by (auto dest: find_SomeD)
  moreover have "e' = e" "the (match_segs segs path) = vs" using assms rt r by (auto simp: mux_find_def)
  ultimately show ?thesis using r by (intro exI [of _ rm] exI [of _ segs]) (auto simp: route_matches_def)
qed

lemma mux_find_405:
  "mux_find routes m path = MethodNotAllowed \<longleftrightarrow>
    (\<exists>(rm, segs, e)\<in>set routes. match_segs segs path \<noteq> None) \<and>
    (\<forall>(rm, segs, e)\<in>set routes. match_segs segs path \<noteq> None \<longrightarrow> \<not> method_ok rm m)"
proof (cases "find (route_matches m path) routes")
  case None
  then have "\<forall>x\<in>set routes. \<not> route_matches m path x" by (metis find_None_iff)
  then have "\<forall>(rm, segs, e)\<in>set routes. match_segs segs path \<noteq> None \<longrightarrow> \<not> method_ok rm m" by (auto simp: route_matches_def)
  with None show ?thesis by (auto simp: mux_find_def list_ex_iff)
next
  case (Some rt)
  obtain rm segs e where rt: "rt = (rm, segs, e)" by (cases rt)
  from Some have r: "(rm, segs, e) \<in> set routes" "match_segs segs path \<noteq> None" "method_ok rm m"
    by (auto dest!: find_SomeD simp: route_matches_def rt)
  have "\<not> (\<forall>(rm, segs, e)\<in>set routes. match_segs segs path \<noteq> None \<longrightarrow> \<not> method_ok rm m)"
    using r by (intro notI) (drule (1) bspec, simp)
  then show ?thesis by (simp add: mux_find_def Some rt)
qed

lemma mux_find_404:
  "mux_find routes m path = NotFound \<longleftrightarrow> (\<forall>(rm, segs, e)\<in>set routes. match_segs segs path = None)"
proof (cases "find (route_matches m path) routes")
  case None
  then show ?thesis by (force simp: mux_find_def list_ex_iff)
next
  case (Some rt)
  obtain rm segs e where rt: "rt = (rm, segs, e)" by (cases rt)
  from Some have r: "(rm, segs, e) \<in> set routes" "match_segs segs path \<noteq> None" "method_ok rm m"
    by (auto dest!: find_SomeD simp: route_matches_def rt)
  have "\<not> (\<forall>(rm, segs, e)\<in>set routes. match_segs segs path = None)"
    using r by (intro notI) (drule (1) bspec, simp)
  then show ?thesis by (simp add: mux_find_def Some rt)
qed

text \<open>A request reaches one handler: at most one route of the API matches a method and a path, so a request that matches a
  route is served by the endpoint of that route with the values of its wildcards, whatever the order of registration; a path
  that only matches routes of other methods is answered by 405 and every other path by 404.\<close>

theorem API_dispatch:
  "(\<forall>rm segs e. (rm, segs, e) \<in> set (api_routes h) \<and> method_ok rm m \<and> match_segs segs path \<noteq> None \<longrightarrow>
      mux_find (api_routes h) m path = Found e (the (match_segs segs path))) \<and>
   (mux_find (api_routes h) m path = MethodNotAllowed \<longleftrightarrow>
      (\<exists>(rm, segs, e)\<in>set (api_routes h). match_segs segs path \<noteq> None) \<and>
      (\<forall>(rm, segs, e)\<in>set (api_routes h). match_segs segs path \<noteq> None \<longrightarrow> \<not> method_ok rm m)) \<and>
   (mux_find (api_routes h) m path = NotFound \<longleftrightarrow> (\<forall>(rm, segs, e)\<in>set (api_routes h). match_segs segs path = None))"
proof (intro conjI allI impI)
  fix rm segs e
  assume r: "(rm, segs, e) \<in> set (api_routes h) \<and> method_ok rm m \<and> match_segs segs path \<noteq> None"
  then have "route_matches m path (rm, segs, e)" by (simp add: route_matches_def)
  moreover obtain r' where f: "find (route_matches m path) (api_routes h) = Some r'"
    using r calculation by (cases "find (route_matches m path) (api_routes h)") (auto simp: find_None_iff)
  moreover from f have "r' \<in> set (api_routes h)" "route_matches m path r'" by (auto dest: find_SomeD)
  ultimately have "r' = (rm, segs, e)" using r api_routes_unique by blast
  with f show "mux_find (api_routes h) m path = Found e (the (match_segs segs path))" by (simp add: mux_find_def)
next
  show "mux_find (api_routes h) m path = MethodNotAllowed \<longleftrightarrow>
      (\<exists>(rm, segs, e)\<in>set (api_routes h). match_segs segs path \<noteq> None) \<and>
      (\<forall>(rm, segs, e)\<in>set (api_routes h). match_segs segs path \<noteq> None \<longrightarrow> \<not> method_ok rm m)"
    by (rule mux_find_405)
next
  show "mux_find (api_routes h) m path = NotFound \<longleftrightarrow> (\<forall>(rm, segs, e)\<in>set (api_routes h). match_segs segs path = None)"
    by (rule mux_find_404)
qed


section \<open>Requests without credentials\<close>

text \<open>The endpoints that ask for no credentials.\<close>

definition public_endpoint :: "endpoint \<Rightarrow> bool" where "public_endpoint e \<longleftrightarrow> e = Servers \<or> e = InvokeTool"

lemma requireAuth_values [simp]: "requireAuth au (with_values vs r) = requireAuth au r"
  by (cases au) (simp_all add: requireAuth_def with_values_def)

text \<open>The components behind the credentials.\<close>

definition same_records :: "('s, 'q, 'u, 'h) http_services \<Rightarrow> ('s, 'q, 'u, 'h) http_services \<Rightarrow> bool" where
  "same_records h h' \<longleftrightarrow> hs_apikeys h' = hs_apikeys h \<and> hs_quotas h' = hs_quotas h \<and> hs_usage h' = hs_usage h"

lemma endpoint_rejects:
  assumes "requireAuth (sr_authenticator srv) r = Inl rp" "\<not> public_endpoint e"
  shows "\<exists>a. serve_endpoint so srv env e (with_values vs r) h = (a, h, []) \<and> (a = Reply rp \<or> a = Missing)"
  using assms
  by (cases e)
    (auto simp: serve_endpoint_def public_endpoint_def with_manager_def handleCreateKey_def handleListKeys_def handleGetKey_def
      handleRevokeKey_def handleRotateKey_def ownedKey_def handleGetQuotas_def handleGetUsage_def handleExportUsage_def
      split: option.splits)

lemma public_keeps:
  assumes "public_endpoint e"
  shows "fst (snd (serve_endpoint so srv env e r h)) = h"
  using assms by (auto simp: serve_endpoint_def public_endpoint_def Let_def split: option.split prod.split)

lemma limit_api_records: "limit_api allow r h = (x, h') \<Longrightarrow> same_records h h'"
  by (auto simp: limit_api_def same_records_def split: result_splits)

lemma api_routes_limiter: "same_records h h' \<Longrightarrow> api_routes h' = api_routes h"
  by (simp add: api_routes_def same_records_def)



definition demo_server :: Server where
  "demo_server = New (\<lambda>_. []) \<lparr>hc_Registry = Some demo_registry, hc_Authenticator = Some (\<lambda>r. Err (Some ErrUnauthorized)),
     hc_Policy = None, hc_ToolCallTimeout = 0\<rparr>"

definition demo_http :: "(Apikeys.MemoryStore, Quota.MemoryStore, Usage_Store.MemoryStore, unit) http_services" where
  "demo_http = \<lparr>hs_apikeys = Some \<lparr>dm_store = Some Apikeys.NewMemoryStore, dm_cfg = Apikeys.demo_config, dm_enabled = True\<rparr>,
     hs_quotas = Some Quota.demo_manager, hs_usage = None, hs_limiter = None\<rparr>"

definition demo_stores :: "(Apikeys.MemoryStore, Quota.MemoryStore, Usage_Store.MemoryStore) stores" where
  "demo_stores = \<lparr>so_sha256 = (\<lambda>s. s), so_apikeys = Apikeys.memory_ops, so_quotas = Quota.memory_ops,
     so_usage = Usage_Tracker.memory_ops insertion_sort_Slice\<rparr>"

theorem API_dispatch_witness:
  "mux_find (api_routes demo_http) ''DELETE'' [''api'', ''v1'', ''keys'', ''k7''] = Found RevokeKey [(''id'', ''k7'')] \<and>
   mux_find (api_routes demo_http) ''PUT'' [''api'', ''v1'', ''keys''] = MethodNotAllowed \<and>
   mux_find (api_routes demo_http) ''GET'' [''api'', ''v1'', ''usage''] = NotFound"
proof -
  have r: "(''DELETE'', [Lit ''api'', Lit ''v1'', Lit ''keys'', Wild ''id''], RevokeKey) \<in> set (api_routes demo_http)"
    "(''POST'', [Lit ''api'', Lit ''v1'', Lit ''keys''], CreateKey) \<in> set (api_routes demo_http)"
    by (simp_all add: api_routes_def demo_http_def key_routes_def)
  have "mux_find (api_routes demo_http) ''DELETE'' [''api'', ''v1'', ''keys'', ''k7''] = Found RevokeKey [(''id'', ''k7'')]"
    using conjunct1 [OF API_dispatch, rule_format, of _ _ _ demo_http "''DELETE''" "[''api'', ''v1'', ''keys'', ''k7'']", OF conjI [OF r(1)]]
    by (simp add: method_ok_def)
  moreover have "mux_find (api_routes demo_http) ''PUT'' [''api'', ''v1'', ''keys''] = MethodNotAllowed"
    by (simp add: mux_find_405 api_routes_def demo_http_def key_routes_def method_ok_def)
  moreover have "mux_find (api_routes demo_http) ''GET'' [''api'', ''v1'', ''usage''] = NotFound"
    by (simp add: mux_find_404 api_routes_def demo_http_def key_routes_def)
  ultimately show ?thesis by blast
qed


end
