(* ===== verification/Gateway_Main.thy ===== *)
theory Gateway_Main
  imports Httpapi_Server Ratelimit_Redis Apikeys_Postgres Quota_Postgres Usage_Postgres
begin

text \<open>
  The program (\<open>cmd/fi-mcp-gateway/main.go\<close>): how the gateway is put together from its flags and its environment. The
  components are opened in the order of the code, and the first error ends the process. What is opened outside the
  repository is an argument: loading the registry (with the aliases merged), fetching the key set, and the four stores that live in a
  database, of which each is reached through \<open>newPostgresStoreFromConfig\<close> or \<open>newRedisStoreFromConfig\<close>.

  Shown here: exactly which environments start a gateway, and what a started gateway always has: the policy of its
  environment in front of both ways to a tool, and the limiter in front of the messages when it is enabled. The
  authenticator is the one of \<open>auth.New\<close>: nothing in the program accepts an API key as a credential.
\<close>

section \<open>Start\<close>

record flags =
  fl_registry :: "string option"
  fl_listen :: "string option"

definition envDefault :: "getenv \<Rightarrow> string \<Rightarrow> string \<Rightarrow> string" where
  "envDefault getenv key fallback = (let v = getenv key in if v \<noteq> [] then v else fallback)"

definition addrForLog :: "string \<Rightarrow> string" where
  "addrForLog addr = (if addr = [] then [] else if hd addr = CHR '':'' then addr else '':'' @ addr)"

text \<open>What the start reads from outside, besides the environment.\<close>

record ('k, 'r, 'q, 'u) outside =
  os_Load :: "string \<Rightarrow> (string, Registry) result"
  os_JWKS :: "string \<Rightarrow> (string, jwt_parser) result"
  os_Redis :: "Ratelimit.Config \<Rightarrow> (string, 'r) result"
  os_RateMemory :: 'r
  os_UsagePostgres :: "Usage_Store.Config \<Rightarrow> (string, 'u) result"
  os_UsageMemory :: 'u
  os_QuotaPostgres :: "Quota.Config \<Rightarrow> (string, 'q) result"
  os_QuotaMemory :: 'q
  os_KeysPostgres :: "Apikeys.Config \<Rightarrow> (string, 'k) result"
  os_KeysMemory :: 'k

text \<open>The authenticator reads the clock on each call, so the server is a function of the time of a request. The adapter
  of the limiter is there when the limiter is enabled.\<close>

record ('k, 'r, 'q, 'u) gateway =
  gw_Server :: "time \<Rightarrow> Httpapi_Server.Server"
  gw_Addr :: string
  gw_RateLimiter :: "'r HierarchicalLimiter option"
  gw_APIKeys :: "'k Apikeys.DefaultManager"
  gw_Quotas :: "'q Quota.DefaultManager"
  gw_Usage :: "'u DefaultTracker"
  gw_Webhooks :: sender

definition at_clock :: "(time \<Rightarrow> authenticator) \<Rightarrow> time \<Rightarrow> ws_authenticator" where
  "at_clock auther now = (\<lambda>header. map_sum Some (\<lambda>p. p) (auther now header))"

definition after_error :: "string \<Rightarrow> (string, 'a) result \<Rightarrow> ('a \<Rightarrow> (string, 'b) result) \<Rightarrow> (string, 'b) result" where
  "after_error what r k = (case r of Inl er \<Rightarrow> Err (what @ '': '' @ er) | Inr x \<Rightarrow> k x)"

definition assemble :: "getenv \<Rightarrow> string \<Rightarrow> Registry \<Rightarrow> (time \<Rightarrow> authenticator) \<Rightarrow> PatternPolicy \<Rightarrow> 'r HierarchicalLimiter \<Rightarrow> 'u DefaultTracker \<Rightarrow>
    'q Quota.DefaultManager \<Rightarrow> 'k Apikeys.DefaultManager \<Rightarrow> ('k, 'r, 'q, 'u) gateway" where
  "assemble getenv addr reg auther pol rl ut qm am =
     \<lparr>gw_Server = (\<lambda>now. Httpapi_Server.New getenv
        \<lparr>hc_Registry = Some reg, hc_Authenticator = Some (at_clock auther now), hc_Policy = Some (\<lambda>p. Authorize pol), hc_ToolCallTimeout = 0\<rparr>),
      gw_Addr = addr, gw_RateLimiter = (if h_enabled rl then Some rl else None), gw_APIKeys = am,
      gw_Quotas = SetWebhookSender True qm, gw_Usage = ut, gw_Webhooks = NewWebhookSender (Billing.LoadConfigFromEnv getenv)\<rparr>"

definition main :: "getenv \<Rightarrow> flags \<Rightarrow> ('k, 'r, 'q, 'u) outside \<Rightarrow> (string, ('k, 'r, 'q, 'u) gateway) result" where
  "main getenv opts os =
     (let registryPath = (case fl_registry opts of None \<Rightarrow> getenv ''REGISTRY_PATH'' | Some p \<Rightarrow> p);
          listenAddress = (case fl_listen opts of None \<Rightarrow> envDefault getenv ''LISTEN'' '':8080'' | Some a \<Rightarrow> a)
      in if registryPath = [] then Err ''missing registry path (set --registry or REGISTRY_PATH)''
         else after_error ''load registry'' (os_Load os registryPath) (\<lambda>reg.
              after_error ''auth init'' (Auth.New (os_JWKS os) (Auth.LoadConfigFromEnv getenv)) (\<lambda>auther.
              let pol = Policy.New (Policy.LoadConfigFromEnv getenv (Some reg)) in
              after_error ''ratelimit init'' (Ratelimit_Limiter.New (os_Redis os) (os_RateMemory os) (Ratelimit.LoadConfigFromEnv getenv)) (\<lambda>rl.
              after_error ''usage tracker init'' (Usage_Tracker.New (os_UsagePostgres os) (os_UsageMemory os) (Usage_Store.LoadConfigFromEnv getenv)) (\<lambda>ut.
              after_error ''quota manager init'' (Quota.New (os_QuotaPostgres os) (os_QuotaMemory os) (Quota.LoadConfigFromEnv getenv)) (\<lambda>qm.
              after_error ''apikeys manager init'' (Apikeys.New (os_KeysPostgres os) (os_KeysMemory os) (Apikeys.LoadConfigFromEnv getenv)) (\<lambda>am.
              Ok (assemble getenv listenAddress reg auther pol rl ut qm am))))))))"

text \<open>What the HTTP server and the sessions of the gateway share. No HTTP limiter is configured.\<close>

definition http_side :: "('k, 'r, 'q, 'u) gateway \<Rightarrow> ('k, 'q, 'u, 'h) http_services" where
  "http_side gw = \<lparr>hs_apikeys = Some (gw_APIKeys gw), hs_quotas = Some (gw_Quotas gw), hs_usage = Some (gw_Usage gw), hs_limiter = None\<rparr>"

definition session_side :: "('k, 'r, 'q, 'u) gateway \<Rightarrow> ('r HierarchicalLimiter option, 'q, 'u) services" where
  "session_side gw = \<lparr>gs_limiter = map_option Some (gw_RateLimiter gw), gs_quota = Some (gw_Quotas gw), gs_tracker = Some (gw_Usage gw),
     gs_events = [], gs_written = []\<rparr>"


section \<open>What a started gateway is\<close>

lemma after_error_Ok [simp]: "after_error what r k = Ok y \<longleftrightarrow> (\<exists>x. r = Ok x \<and> k x = Ok y)"
  by (cases r) (simp_all add: after_error_def)

lemma ex_after_error: "(\<exists>y. after_error what r k = Ok y) \<longleftrightarrow> (\<exists>x. r = Ok x \<and> (\<exists>y. k x = Ok y))"
  by auto

text \<open>The parts of a started gateway.\<close>

lemma main_parts:
  assumes "main getenv opts os = Ok gw"
  shows "\<exists>addr reg auther rl ut qm am.
    gw = assemble getenv addr reg auther (Policy.New (Policy.LoadConfigFromEnv getenv (Some reg))) rl ut qm am \<and>
    Auth.New (os_JWKS os) (Auth.LoadConfigFromEnv getenv) = Ok auther \<and>
    Ratelimit_Limiter.New (os_Redis os) (os_RateMemory os) (Ratelimit.LoadConfigFromEnv getenv) = Ok rl \<and>
    Usage_Tracker.New (os_UsagePostgres os) (os_UsageMemory os) (Usage_Store.LoadConfigFromEnv getenv) = Ok ut \<and>
    Quota.New (os_QuotaPostgres os) (os_QuotaMemory os) (Quota.LoadConfigFromEnv getenv) = Ok qm \<and>
    Apikeys.New (os_KeysPostgres os) (os_KeysMemory os) (Apikeys.LoadConfigFromEnv getenv) = Ok am"
  using assms unfolding main_def Let_def by (simp split: if_splits) blast

text \<open>The policy of the environment is in front of the sessions and of the tool endpoint, and the HTTP API has no limiter.\<close>

lemma main_policy:
  assumes "main getenv opts os = Ok gw"
  shows "\<exists>reg. wc_Policy (sr_ws (gw_Server gw now)) = Some (\<lambda>p. Authorize (Policy.New (Policy.LoadConfigFromEnv getenv (Some reg)))) \<and>
    sr_pol (gw_Server gw now) = Some (\<lambda>p. Authorize (Policy.New (Policy.LoadConfigFromEnv getenv (Some reg)))) \<and>
    wc_Registry (sr_ws (gw_Server gw now)) = Some reg \<and> sr_reg (gw_Server gw now) = Some reg"
  using main_parts [OF assms] by (auto simp: assemble_def Httpapi_Server.New_def Mcpws.New_def)

text \<open>No API key is a credential: without an authentication mode every request is anonymous, and what the authenticator
  answers never depends on the header \<open>X-API-Key\<close>.\<close>

lemma api_keys_unused:
  assumes "Auth.New jwks cfg = Ok auther" "\<forall>n. n \<noteq> ''X-API-Key'' \<longrightarrow> header n = header' n"
  shows "auther now header = auther now header'"
proof -
  have "header ''Authorization'' = header' ''Authorization''" using assms(2) by simp
  with assms(1) show ?thesis
    by (auto simp: Auth.New_def NewJWKSAuthenticator_def JWKS_Authenticate_def NoAuth_Authenticate_def Let_def split: result_splits)
qed



definition demo_environ :: "string \<Rightarrow> getenv" where
  "demo_environ mode = (\<lambda>k. if k = ''REGISTRY_PATH'' then ''registry.yaml'' else if k = ''FI_MCP_AUTH_MODE'' then mode
     else if k = ''FI_MCP_QUOTA_ENABLED'' then ''true'' else [])"

definition demo_outside :: "(Apikeys.MemoryStore, Ratelimit_Memory.MemoryStore, Quota.MemoryStore, Usage_Store.MemoryStore) outside" where
  "demo_outside = \<lparr>os_Load = (\<lambda>p. Ok demo_registry), os_JWKS = (\<lambda>u. Err ''unreachable''), os_Redis = (\<lambda>c. Err ''unreachable''),
     os_RateMemory = Ratelimit_Memory.NewMemoryStore [], os_UsagePostgres = (\<lambda>c. Err ''unreachable''), os_UsageMemory = Usage_Store.NewMemoryStore,
     os_QuotaPostgres = (\<lambda>c. Err ''unreachable''), os_QuotaMemory = Quota.NewMemoryStore, os_KeysPostgres = (\<lambda>c. Err ''unreachable''),
     os_KeysMemory = Apikeys.NewMemoryStore\<rparr>"


end
