(* ===== verification/Spec2Isabelle.thy ===== *)
theory Spec2Isabelle
  imports Metrics_Counts Disabled Mcpws_Run Mcpws_Pump Storage_Schema Logging Gateway_Main
begin

text \<open>
  Verification development of \<open>fi-mcp-gateway\<close>, a gateway between MCP clients and MCP servers written in Go.

  The program. A client opens a WebSocket (\<open>internal/mcpws\<close>) bound to a server of the registry. Each JSON-RPC message is routed,
  checked against the registry, the rate limiter (\<open>internal/ratelimit\<close>), the quota manager (\<open>internal/quota\<close>) and the policy
  (\<open>internal/policy\<close>), written to a connection to the server's backend, counted and tracked (\<open>internal/usage\<close>); every other outcome
  is one error to the client. Principals come from \<open>internal/auth\<close>. An HTTP API (\<open>internal/httpapi\<close>) manages API keys
  (\<open>internal/apikeys\<close>), shows quotas and usage and invokes tools. Events about quotas go to a webhook (\<open>internal/billing\<close>). Keys,
  quotas and usage live in memory or in Postgres, rate limits in memory or in Redis (\<open>internal/storage\<close> opens both).
  \<open>cmd/fi-mcp-gateway\<close> puts the parts together.

  Conventions. A function that returns a value and an error is a function to \<open>Inl\<close> of the error or \<open>Inr\<close> of the value; a function
  that panics returns \<open>None\<close>. State is passed explicitly, a struct is a record whose fields carry a prefix and the name in the
  source, an interface with several implementations is a record of operations. \<open>int\<close>, \<open>int64\<close> and \<open>time.Duration\<close> are \<open>int\<close> with
  \<open>wrap64\<close> written where the code can overflow, a float64 is a rational rounded by \<open>fl\<close>. What a step reads from outside (clock,
  environment, random bytes, answers of a library, of the network or of a database) is an argument of it.

  The base. \<open>Prelude\<close>: results, maps, wrap-around. \<open>Go_Strings\<close>, \<open>Go_Float\<close>, \<open>Go_Time\<close>, \<open>Go_Values\<close>: what the source uses of the
  packages \<open>strings\<close>, \<open>strconv\<close>, \<open>time\<close>, of float64 arithmetic and of values of type \<open>any\<close>. \<open>Registry\<close>: what the gateway reads of
  the server registry, which is a library.

  Rate limits. \<open>Ratelimit\<close>: keys, limits, configuration (\<open>ratelimit.go\<close>). \<open>Ratelimit_Meter\<close>: the locale \<open>meter\<close>, from which both stores
  get their admission bound. \<open>Ratelimit_Memory\<close> (\<open>memory.go\<close>) and \<open>Ratelimit_Redis\<close> (\<open>redis.go\<close> with its two Lua scripts; locales
  \<open>redis_server\<close> and \<open>redis_bucket\<close>) interpret it. \<open>Ratelimit_Limiter\<close>: \<open>limiter.go\<close>, \<open>adapter.go\<close>, \<open>middleware.go\<close> over the locale
  \<open>rate_store\<close>.

  Identity. \<open>Policy\<close>: \<open>policy.go\<close>. \<open>Apikeys\<close>: \<open>apikeys.go\<close>, \<open>manager.go\<close>, \<open>memory.go\<close> with the locale \<open>key_store\<close>; \<open>Apikeys_Postgres\<close>:
  \<open>postgres.go\<close> with the locale \<open>key_table\<close>. \<open>Auth\<close>: the package \<open>auth\<close> with the locale \<open>strict_authenticator\<close>. \<open>Tenant\<close>: the package
  \<open>tenant\<close>.

  Accounting. \<open>Billing\<close>: \<open>webhook.go\<close>. \<open>Quota\<close>: \<open>quota.go\<close>, \<open>manager.go\<close>, \<open>memory.go\<close> with the locale \<open>quota_store\<close>; \<open>Quota_Postgres\<close>:
  \<open>postgres.go\<close>, whose locale \<open>quota_tables\<close> is a sublocale of it. \<open>Usage_Store\<close>: \<open>usage.go\<close> and \<open>memory.go\<close>, locale \<open>slice_sort\<close>;
  \<open>Usage_Tracker\<close>: \<open>tracker.go\<close>, locale \<open>event_log\<close>; \<open>Usage_Export\<close>: \<open>exporter.go\<close> and the statements of \<open>postgres.go\<close>;
  \<open>Usage_Postgres\<close>: the rest of \<open>postgres.go\<close>, locale \<open>usage_table\<close>. \<open>Storage\<close>: the clients and the driver \<open>sql_db\<close>;
  \<open>Storage_Schema\<close>: the tables the migrations create and what fits them, locale \<open>typed_events\<close>.

  The gateway. \<open>Mcpws_Backends\<close>: the connections of a session; \<open>Mcpws\<close>: admission, routing, handling of a message; \<open>Mcpws_Run\<close>: the
  message loop of a session; \<open>Mcpws_Pump\<close>: the messages of the backends on their way to the client; \<open>Mcpws_Oneshot\<close>:
  \<open>oneshot.go\<close>. \<open>Httpapi\<close>: the handlers of \<open>server.go\<close> and \<open>tools.go\<close>;
  \<open>Httpapi_Server\<close>: the assembly of the server and the dispatch. \<open>Gateway_Main\<close>: \<open>main.go\<close>. \<open>Logging\<close>: \<open>logger.go\<close>. \<open>Disabled\<close>: the
  no-op implementations, \<open>Close\<close> and \<open>Enabled\<close> of the managers, and what the gateway does without a limiter or a router; its locale \<open>switched_off\<close> says when a component answers as its
  no-op. This theory holds the properties that span the components, stated over \<open>serve\<close>, the handling of any schedule of messages of any number of sessions.

  Metrics. \<open>Metrics\<close>: the declarations of \<open>metrics.go\<close> and, for each function of the code that updates metrics, the list of its
  updates as a definition named after it (\<open>handleMessage_samples\<close>); the client library is the record \<open>prom\<close> with the locale
  \<open>prometheus\<close>. \<open>Metrics_Counts\<close>: what gauges and counters read after such updates.

  What the lemmas show, in groups. Mediation: a message is forwarded only through every check (\<open>handleMessage_mediates\<close>), a denied
  tool never (\<open>denied_tool_never_forwarded\<close>), also from the environment the program was started with (\<open>started_gateway_denies\<close>,
  and \<open>started_disabled_noop\<close> for what the environment leaves out).
  Limits: tokens (\<open>Take_admission_bound\<close>, \<open>redis_admission_bound\<close>, \<open>global_admission_bound\<close>), messages that reach backends
  (\<open>messages_within_global_limit\<close>), calls per quota period (\<open>quota_never_exceeded\<close>, \<open>pg_quota_never_exceeded\<close>,
  \<open>tool_calls_within_quota\<close>, \<open>started_gateway_meters\<close>). Concurrency: connections (\<open>connections_owned_once\<close>), the loop of a session (\<open>run_serializes\<close>,
  \<open>run_closes\<close>), the answers of the backends (\<open>relay_in_order\<close>), the tracker (\<open>no_event_lost\<close>) and the webhook worker are machines whose steps interleave in any order. Credentials:
  validity and revocation of keys over both stores, tokens, isolation of tenants. Stores: what Postgres does is a named contract
  (a locale), which holds for a concrete table; so is what Redis does. Metrics: no update panics (\<open>metrics_never_panic\<close>), sessions and usage events
  are counted exactly (\<open>session_gauges_exact\<close>, \<open>usage_counters_exact\<close>). Types: what the columns of the tables accept
  and give back (\<open>api_keys_typed\<close>, \<open>oversized_event_blocks_flush\<close>). Lemmas that exhibit a defect of the code are named in the
  findings of the manifest.

  Bounds and fuel. Recursion is over lists or bounded by a measure; no definition takes fuel. The channel of a session has ten slots
  (\<open>max_concurrency\<close>), the webhook queue a hundred, a request body \<open>maxToolRequestBody\<close> bytes. \<open>storeWithRetry\<close> and \<open>Send\<close> run over the
  list of their attempts.

  Not modelled: the servers behind the drivers (Postgres, Redis, the backends) beyond their contracts, the
  libraries (JWT and key sets, JSON text, WebSocket frames, connection pool, router, HTTP client) beyond the arguments that stand for
  them, the methods of the storage clients that pass their arguments to a driver, the no-op webhook sender, the text
  \<open>FormatUsage\<close> makes of a percentage, which nothing calls, and the memory of the process: a nil interface is an absent
  component. A handling of a message is one step of \<open>serve\<close> and of \<open>run_action\<close>; that checking and counting a quota are two operations, between which other calls can come, is the lemma \<open>check_increment_race\<close> of \<open>Quota\<close>.
\<close>

section \<open>Tool calls\<close>

definition is_call :: "any option \<Rightarrow> bool" where
  "is_call json \<longleftrightarrow> (case unmarshal_envelope json of None \<Rightarrow> False | Some e \<Rightarrow> en_Method e = ''tools/call'')"

definition call_tool :: "any option \<Rightarrow> string" where
  "call_tool json = (case unmarshal_envelope json of None \<Rightarrow> [] | Some e \<Rightarrow> tp_Name (unmarshal_params (en_Params e)))"

lemma route_facts:
  assumes "routeMessage resolve profile bound json = Ok route"
  shows "(rd_method route = ''tools/call'' \<longleftrightarrow> is_call json) \<and>
    (is_call json \<longrightarrow> TrimSpace (rd_toolName route) = TrimSpace (call_tool json))"
  using assms by (auto simp: routeMessage_def is_call_def call_tool_def Let_def split: result_splits)


section \<open>The policy at work\<close>

lemma Authorize_call:
  assumes "d_Allow (Authorize pol \<lparr>rq_Method = ''tools/call'', rq_ToolName = tool, rq_ServerName = srv, rq_Profile = pr\<rparr>)"
  shows "TrimSpace tool \<noteq> [] \<and> \<not> matchAny (TrimSpace tool) (pp_denyTools pol)"
  using assms by (auto simp: Authorize_def Let_def split: if_splits)

lemma denied_not_written:
  assumes "wc_Policy cfg = Some (\<lambda>p. Authorize pol)" "(srv, json) \<in> set (gs_written (serve resolve qops cfg ms g))"
    "(srv, json) \<notin> set (gs_written g)" "is_call json"
  shows "TrimSpace (call_tool json) \<noteq> [] \<and> \<not> matchAny (TrimSpace (call_tool json)) (pp_denyTools pol) \<and>
    serverExistsAndHubDeployable cfg srv"
  using assms(2,3)
proof (induction ms arbitrary: g)
  case Nil
  then show ?case by simp
next
  case (Cons m ms)
  obtain env j s where m: "m = (env, j, s)" by (cases m)
  obtain g' s' where h: "handleMessage resolve qops cfg env j g s = (g', s')" by (rule prod.exhaust)
  show ?case
  proof (cases "(srv, json) \<in> set (gs_written g')")
    case False
    with Cons.IH [of g'] Cons.prems(1) show ?thesis by (simp add: m h)
  next
    case True
    with Cons.prems(2) have "\<not> refused j g s g' s'" by (auto simp: refused_def)
    with handleMessage_outcome [OF h] obtain route where
      r: "routeMessage resolve (ss_profile s) (ss_boundServer s) j = Ok route" "passes qops cfg env route g s"
         "delivered qops env route j g s g' s'" by blast
    with True Cons.prems(2) have eq: "srv = rd_serverName route" "json = j" by (auto simp: delivered_def)
    with r(2) assms(1) route_facts [OF r(1)] assms(4) Authorize_call [of pol "rd_toolName route"] show ?thesis
      by (auto simp: passes_def)
  qed
qed

text \<open>A denied tool never reaches a backend: whatever sessions and messages there are, every tool call written to
  a backend names a tool, none of the configured deny patterns matches that tool, and the backend belongs to a server
  of the registry that is not local-only.\<close>

theorem denied_tool_never_forwarded:
  assumes "wc_Policy cfg = Some (\<lambda>p. Authorize pol)" "(srv, json) \<in> set (gs_written (serve resolve qops cfg ms g))"
    "(srv, json) \<notin> set (gs_written g)" "is_call json"
  shows "TrimSpace (call_tool json) \<noteq> [] \<and> \<not> matchAny (TrimSpace (call_tool json)) (pp_denyTools pol) \<and>
    serverExistsAndHubDeployable cfg srv"
  using assms by (rule denied_not_written)

text \<open>C4. The deny list of the environment holds: whatever the rest of the environment and the flags are, once the program has
  started a gateway, no tool call of any session reaches a backend if its tool matches a pattern of
  \<open>FI_MCP_POLICY_DENY_TOOLS\<close>, or if the backend's server is missing in the registry or local-only.\<close>

theorem started_gateway_denies:
  assumes "main getenv opts os = Ok gw" "cfg = sr_ws (gw_Server gw now)"
    "(srv, json) \<in> set (gs_written (serve resolve qops cfg ms (session_side gw)))" "is_call json"
    "d \<in> set (Policy.splitCSV (getenv ''FI_MCP_POLICY_DENY_TOOLS''))"
  shows "\<not> matchPattern (TrimSpace (call_tool json)) d \<and> serverExistsAndHubDeployable cfg srv"
proof -
  obtain reg where reg: "wc_Policy cfg = Some (\<lambda>p. Authorize (Policy.New (Policy.LoadConfigFromEnv getenv (Some reg))))"
    using main_policy [OF assms(1), of now] assms(2) by blast
  have "(srv, json) \<notin> set (gs_written (session_side gw))" by (simp add: session_side_def)
  from denied_not_written [OF reg assms(3) this assms(4)] assms(5) show ?thesis
    by (auto simp: matchAny_iff Policy.New_def Policy.LoadConfigFromEnv_def)
qed

section \<open>Components that are switched off\<close>

text \<open>C30. What the environment does not enable is not there: in every gateway the program starts, API keys, quotas and usage that
  are not enabled go through any sequence of calls unchanged and answer each as the no-op implementation does (revoking and
  rotating keys, and setting a quota, give another error or an error), and rate limits that are not enabled have no adapter.\<close>

theorem started_disabled_noop:
  assumes "main getenv opts os = Ok gw"
  shows "(\<not> kc_Enabled (Apikeys.LoadConfigFromEnv getenv) \<and> list_all (\<lambda>c. \<not> key_differs c) ks \<longrightarrow>
      run_calls (key_step sha256 kops kclose) ks (gw_APIKeys gw) = (map key_NoopManager ks, gw_APIKeys gw)) \<and>
    (\<not> qc_Enabled (Quota.LoadConfigFromEnv getenv) \<and> list_all (\<lambda>c. \<not> quota_differs c) qs \<longrightarrow>
      run_calls (quota_call_step qops qclose) qs (gw_Quotas gw) = (map quota_NoopManager qs, gw_Quotas gw)) \<and>
    (\<not> uc_Enabled (Usage_Store.LoadConfigFromEnv getenv) \<longrightarrow>
      run_calls (tracker_step uops) us (gw_Usage gw) = (map NoopTracker us, gw_Usage gw)) \<and>
    (\<not> c_Enabled (Ratelimit.LoadConfigFromEnv getenv) \<longrightarrow> gw_RateLimiter gw = None)"
proof -
  obtain addr reg auther pol rl ut qm am where gw: "gw = assemble getenv addr reg auther pol rl ut qm am"
    and new: "Ratelimit_Limiter.New (os_Redis os) (os_RateMemory os) (Ratelimit.LoadConfigFromEnv getenv) = Ok rl"
    "Usage_Tracker.New (os_UsagePostgres os) (os_UsageMemory os) (Usage_Store.LoadConfigFromEnv getenv) = Ok ut"
    "Quota.New (os_QuotaPostgres os) (os_QuotaMemory os) (Quota.LoadConfigFromEnv getenv) = Ok qm"
    "Apikeys.New (os_KeysPostgres os) (os_KeysMemory os) (Apikeys.LoadConfigFromEnv getenv) = Ok am"
    using main_parts [OF assms] by blast
  have k: "\<not> kc_Enabled (Apikeys.LoadConfigFromEnv getenv) \<Longrightarrow> \<not> key_Enabled (gw_APIKeys gw) \<and> dm_store (gw_APIKeys gw) = None"
    using new(4) by (auto simp: gw assemble_def Apikeys.New_def key_Enabled_def)
  have q: "\<not> qc_Enabled (Quota.LoadConfigFromEnv getenv) \<Longrightarrow> \<not> Quota.Enabled (gw_Quotas gw) \<and> qm_store (gw_Quotas gw) = None"
    using new(3) by (auto simp: gw assemble_def Quota.New_def Quota.Enabled_def SetWebhookSender_def)
  have u: "\<not> uc_Enabled (Usage_Store.LoadConfigFromEnv getenv) \<Longrightarrow> \<not> Usage_Tracker.Enabled (gw_Usage gw)"
    using new(2) by (auto simp: gw assemble_def Usage_Tracker.New_def Usage_Tracker.Enabled_def Let_def)
  have r: "\<not> c_Enabled (Ratelimit.LoadConfigFromEnv getenv) \<Longrightarrow> gw_RateLimiter gw = None"
    using new(1) by (auto simp: gw assemble_def Ratelimit_Limiter.New_def)
  show ?thesis
    using keys_off.run_off [OF k] quotas_off.run_off [OF q] tracker_off.run_off [OF u, of us] r by (simp add: list_all_iff)
qed

section \<open>Quotas at work\<close>

definition own_call :: "string \<Rightarrow> string \<Rightarrow> ('l, 'p) arrival \<Rightarrow> bool" where
  "own_call tn us m \<longleftrightarrow> (case m of (env, json, s) \<Rightarrow> is_call json \<and> ss_tenantID s = tn \<and> session_user s = us)"

text \<open>How many of the scheduled messages are tool calls of a user that reach a backend.\<close>

fun calls_forwarded :: "resolver \<Rightarrow> 'q Quota.Store \<Rightarrow> Mcpws.Config \<Rightarrow> string \<Rightarrow> string \<Rightarrow> ('l, 'p) arrival list \<Rightarrow> ('l, 'q, 'u) services \<Rightarrow> nat" where
  "calls_forwarded resolve qops cfg tn us [] g = 0"
| "calls_forwarded resolve qops cfg tn us ((env, json, s) # ms) g =
     (let g' = fst (handleMessage resolve qops cfg env json g s)
      in (if own_call tn us (env, json, s) \<and> gs_written g' \<noteq> gs_written g then 1 else 0) + calls_forwarded resolve qops cfg tn us ms g')"

lemma mem_used_increment:
  "mem_used (snd (qs_IncrementUsage Quota.memory_ops now tn' us' ty' a ps' pe' s)) tn us ty ps =
     (if makeUsageKey tn' us' ty' ps' = makeUsageKey tn us ty ps then wrap64 (mem_used s tn us ty ps + a) else mem_used s tn us ty ps)"
  by (auto simp: Quota.mem_defs mem_used_def Let_def split: option.split)

text \<open>What the counter of a user and the quotas look like after somebody's call is counted.\<close>

lemma count_any:
  assumes "qm_enabled m" "qm_store m = Some st" "0 \<le> mem_used st tn us ty ps" "mem_used st tn us ty ps < max_int64"
  shows "\<exists>st'. snd (Increment Quota.memory_ops now tn' us' ty' 1 m) = m\<lparr>qm_store := Some st'\<rparr> \<and>
    applicable_quota Quota.memory_ops (qm_cfg m) tn us ty st' = applicable_quota Quota.memory_ops (qm_cfg m) tn us ty st \<and>
    (mem_used st' tn us ty ps = mem_used st tn us ty ps \<or> mem_used st' tn us ty ps = mem_used st tn us ty ps + 1) \<and>
    (tn' = tn \<and> us' = us \<and> ty' = ty \<and> fst (PeriodBounds (qt_Period (applicable_quota Quota.memory_ops (qm_cfg m) tn us ty st)) now) = ps
       \<longrightarrow> mem_used st' tn us ty ps = mem_used st tn us ty ps + 1)"
proof -
  let ?q = "applicable_quota Quota.memory_ops (qm_cfg m) tn' us' ty' st"
  obtain ps' pe' where b: "PeriodBounds (qt_Period ?q) now = (ps', pe')" by (rule prod.exhaust)
  let ?st = "snd (qs_IncrementUsage Quota.memory_ops now tn' us' ty' 1 ps' pe' st)"
  have w: "wrap64 (mem_used st tn us ty ps + 1) = mem_used st tn us ty ps + 1"
    using assms(3,4) by (intro wrap64_id) (auto simp: min_int64_def)
  have "snd (Increment Quota.memory_ops now tn' us' ty' 1 m) = m\<lparr>qm_store := Some ?st\<rparr>"
    using increment_state [OF assms(1,2) refl b, of 1] by simp
  then show ?thesis using b w by (intro exI [of _ ?st]) (auto simp: mem_used_increment memq.increment_applicable)
qed

text \<open>One message, seen from the counter of a user: a message that changes neither the quota manager nor what the user got
  forwarded leaves everything as it was; otherwise the counter grows by at most one, and a forwarded call of the
  user itself had room for it and is counted.\<close>

lemma quota_step:
  fixes q tn us ps u
  assumes h: "handleMessage resolve Quota.memory_ops cfg env j g s = (g', s')"
    and m: "gs_quota g = Some m" "qm_enabled m" "qm_store m = Some st" "qc_EnforceHard (qm_cfg m)"
    and q: "q = applicable_quota Quota.memory_ops (qm_cfg m) tn us QuotaTypeToolCalls st" "PeriodBounds (qt_Period q) now = (ps, pe)"
    and t: "own_call tn us (env, j, s) \<longrightarrow>
      ps \<le> me_CheckNow env \<and> me_CheckNow env < pe \<and> ps \<le> me_CountNow env \<and> me_CountNow env < pe"
    and u: "u = mem_used st tn us QuotaTypeToolCalls ps" "0 \<le> u" "u < max_int64"
  defines "fwd \<equiv> own_call tn us (env, j, s) \<and> gs_written g' \<noteq> gs_written g"
  shows "gs_quota g' = gs_quota g \<and> \<not> fwd \<or>
    (\<exists>st'. gs_quota g' = Some (m\<lparr>qm_store := Some st'\<rparr>) \<and> applicable_quota Quota.memory_ops (qm_cfg m) tn us QuotaTypeToolCalls st' = q \<and>
       (mem_used st' tn us QuotaTypeToolCalls ps = u \<and> \<not> own_call tn us (env, j, s) \<or> mem_used st' tn us QuotaTypeToolCalls ps = u + 1) \<and>
       (fwd \<longrightarrow> u + 1 \<le> qt_Limit q))"
proof (cases "gs_quota g' = gs_quota g \<and> \<not> fwd")
  case False
  then have "\<not> refused j g s g' s'" by (auto simp: refused_def fwd_def)
  with handleMessage_outcome [OF h] obtain route where
    r: "routeMessage resolve (ss_profile s) (ss_boundServer s) j = Ok route" "passes Quota.memory_ops cfg env route g s"
       "delivered Quota.memory_ops env route j g s g' s'" by blast
  have tc: "rd_method route = ''tools/call''"
    using r False route_facts [OF r(1)] by (auto simp: delivered_def own_call_def fwd_def split: if_splits)
  obtain st' where st': "snd (Increment Quota.memory_ops (me_CountNow env) (ss_tenantID s) (session_user s) QuotaTypeToolCalls 1 m) = m\<lparr>qm_store := Some st'\<rparr>"
    "applicable_quota Quota.memory_ops (qm_cfg m) tn us QuotaTypeToolCalls st' = q"
    "mem_used st' tn us QuotaTypeToolCalls ps = u \<or> mem_used st' tn us QuotaTypeToolCalls ps = u + 1"
    "ss_tenantID s = tn \<and> session_user s = us \<and> fst (PeriodBounds (qt_Period q) (me_CountNow env)) = ps
       \<longrightarrow> mem_used st' tn us QuotaTypeToolCalls ps = u + 1"
    using count_any [OF m(2,3), of tn us QuotaTypeToolCalls ps "me_CountNow env" "ss_tenantID s" "session_user s" QuotaTypeToolCalls] u q(1) by auto
  have g': "gs_quota g' = Some (m\<lparr>qm_store := Some st'\<rparr>)"
    using r(3) tc m(1) st'(1) by (simp add: delivered_def)
  have own: "mem_used st' tn us QuotaTypeToolCalls ps = u + 1 \<and> u + 1 \<le> qt_Limit q" if o: "own_call tn us (env, j, s)"
  proof
    have own': "ss_tenantID s = tn" "session_user s = us" using o by (auto simp: own_call_def)
    have n: "PeriodBounds (qt_Period q) (me_CheckNow env) = (ps, pe)" "PeriodBounds (qt_Period q) (me_CountNow env) = (ps, pe)"
      using t o by (auto intro!: period_bounds_same [OF q(2)])
    with st'(4) own' show "mem_used st' tn us QuotaTypeToolCalls ps = u + 1" by simp
    have "wrap64 (u + 1) = u + 1" using u by (intro wrap64_id) (auto simp: min_int64_def)
    moreover have "fst (snd (Check Quota.memory_ops (me_CheckNow env) tn us QuotaTypeToolCalls 1 m)) = None"
      using r(2) tc m(1) own' by (auto simp: passes_def split: prod.splits)
    ultimately show "u + 1 \<le> qt_Limit q"
      using memq.check_error [OF m(2,3) TrueI q(1) n(1), of 1] m(4) u(1) by (simp split: if_splits)
  qed
  show ?thesis using g' st'(2,3) own by (intro disjI2 exI [of _ st']) (auto simp: fwd_def)
qed simp

lemma calls_in_quota:
  assumes "gs_quota g = Some m" "qm_enabled m" "qm_store m = Some st" "qc_EnforceHard (qm_cfg m)"
    "q = applicable_quota Quota.memory_ops (qm_cfg m) tn us QuotaTypeToolCalls st" "PeriodBounds (qt_Period q) now = (ps, pe)"
    "\<forall>a\<in>set ms. own_call tn us a \<longrightarrow> ps \<le> me_CheckNow (fst a) \<and> me_CheckNow (fst a) < pe \<and> ps \<le> me_CountNow (fst a) \<and> me_CountNow (fst a) < pe"
    "0 \<le> mem_used st tn us QuotaTypeToolCalls ps" "mem_used st tn us QuotaTypeToolCalls ps + int (length ms) \<le> max_int64"
  shows "int (calls_forwarded resolve Quota.memory_ops cfg tn us ms g) \<le> max 0 (qt_Limit q - mem_used st tn us QuotaTypeToolCalls ps)"
  using assms(1-5,7-9)
proof (induction ms arbitrary: g m st)
  case Nil
  then show ?case by simp
next
  case (Cons a ms)
  obtain env j s where a: "a = (env, j, s)" by (cases a)
  obtain g' s' where h: "handleMessage resolve Quota.memory_ops cfg env j g s = (g', s')" by (rule prod.exhaust)
  let ?u = "mem_used st tn us QuotaTypeToolCalls ps" and ?fwd = "own_call tn us a \<and> gs_written g' \<noteq> gs_written g"
  have calls: "calls_forwarded resolve Quota.memory_ops cfg tn us (a # ms) g =
      (if ?fwd then 1 else 0) + calls_forwarded resolve Quota.memory_ops cfg tn us ms g'"
    by (simp add: a h Let_def)
  have t: "own_call tn us (env, j, s) \<longrightarrow> ps \<le> me_CheckNow env \<and> me_CheckNow env < pe \<and> ps \<le> me_CountNow env \<and> me_CountNow env < pe"
    using Cons.prems(6) by (simp add: a)
  have len: "?u < max_int64" using Cons.prems(8) by simp
  from quota_step [OF h Cons.prems(1-5) assms(6) t refl Cons.prems(7) len] show ?case
  proof (elim disjE exE conjE)
    assume "gs_quota g' = gs_quota g" "\<not> (own_call tn us (env, j, s) \<and> gs_written g' \<noteq> gs_written g)"
    moreover from this(1) have "int (calls_forwarded resolve Quota.memory_ops cfg tn us ms g') \<le> max 0 (qt_Limit q - ?u)"
      using Cons.prems by (intro Cons.IH [of g' m st]) auto
    ultimately show ?thesis unfolding calls by (auto simp: a)
  next
    fix st'
    assume st': "gs_quota g' = Some (m\<lparr>qm_store := Some st'\<rparr>)" "applicable_quota Quota.memory_ops (qm_cfg m) tn us QuotaTypeToolCalls st' = q"
      "mem_used st' tn us QuotaTypeToolCalls ps = ?u" "\<not> own_call tn us (env, j, s)"
    have "int (calls_forwarded resolve Quota.memory_ops cfg tn us ms g') \<le> max 0 (qt_Limit q - mem_used st' tn us QuotaTypeToolCalls ps)"
      using Cons.prems st'(1-3) by (intro Cons.IH [of g' "m\<lparr>qm_store := Some st'\<rparr>" st']) auto
    then show ?thesis unfolding calls using st'(3,4) by (auto simp: a)
  next
    fix st'
    assume st': "gs_quota g' = Some (m\<lparr>qm_store := Some st'\<rparr>)" "applicable_quota Quota.memory_ops (qm_cfg m) tn us QuotaTypeToolCalls st' = q"
      "mem_used st' tn us QuotaTypeToolCalls ps = ?u + 1"
      "own_call tn us (env, j, s) \<and> gs_written g' \<noteq> gs_written g \<longrightarrow> ?u + 1 \<le> qt_Limit q"
    have "int (calls_forwarded resolve Quota.memory_ops cfg tn us ms g') \<le> max 0 (qt_Limit q - mem_used st' tn us QuotaTypeToolCalls ps)"
      using Cons.prems st'(1-3) by (intro Cons.IH [of g' "m\<lparr>qm_store := Some st'\<rparr>" st']) auto
    then show ?thesis unfolding calls using st'(3,4) by (auto simp: a split: if_splits)
  qed
qed

text \<open>C2. Quotas hold end to end: over the in-memory store and with hard limits enforced, the tool calls of a user
  that reach backends within one period, from any number of sessions and between any other messages, handled one
  after the other, are at most what the quota that applies to the user leaves.\<close>

theorem tool_calls_within_quota:
  assumes "gs_quota g = Some m" "qm_enabled m" "qm_store m = Some st" "qc_EnforceHard (qm_cfg m)"
    "q = applicable_quota Quota.memory_ops (qm_cfg m) tn us QuotaTypeToolCalls st" "PeriodBounds (qt_Period q) now = (ps, pe)"
    "\<forall>a\<in>set ms. own_call tn us a \<longrightarrow> ps \<le> me_CheckNow (fst a) \<and> me_CheckNow (fst a) < pe \<and> ps \<le> me_CountNow (fst a) \<and> me_CountNow (fst a) < pe"
    "0 \<le> mem_used st tn us QuotaTypeToolCalls ps" "mem_used st tn us QuotaTypeToolCalls ps + int (length ms) \<le> max_int64"
  shows "int (calls_forwarded resolve Quota.memory_ops cfg tn us ms g) \<le> max 0 (qt_Limit q - mem_used st tn us QuotaTypeToolCalls ps)"
  using assms by (rule calls_in_quota)


section \<open>Rate limits at work\<close>

text \<open>A message that is checked by the limiter of the gateway with the in-memory store: the inputs of the checks (clock and
  context) belong to the message. The request to the limiter it gives rise to, if it is routed to a server at all.\<close>

type_synonym 'p limited_arrival = "call_envs \<times> (Ratelimit_Memory.MemoryStore HierarchicalLimiter option, 'p) arrival"

definition limited :: "'p limited_arrival \<Rightarrow> (Ratelimit_Memory.MemoryStore HierarchicalLimiter option, 'p) arrival" where
  "limited m = (case m of (ce, env, json, s) \<Rightarrow> (env\<lparr>me_CheckMessage := CheckMessage Take ce\<rparr>, json, s))"

definition rate_request :: "resolver \<Rightarrow> Mcpws.Config \<Rightarrow> 'p limited_arrival \<Rightarrow> request list" where
  "rate_request resolve cfg m =
     (case m of
        (ce, env, json, s) \<Rightarrow>
          (case routeMessage resolve (ss_profile s) (ss_boundServer s) json of
             Inl er \<Rightarrow> []
           | Inr route \<Rightarrow>
               if serverExistsAndHubDeployable cfg (rd_serverName route)
               then [\<lparr>rq_envs = ce, rq_key = empty_Key\<lparr>k_Scope := ''ws'', k_Tenant := ss_tenantID s, k_User := session_user s,
                        k_Tool := rd_toolName route\<rparr>, rq_n = 1\<rparr>]
               else []))"

lemma trackUsage_limiter [simp]: "gs_limiter (trackUsage env s route us ok er g) = gs_limiter g"
  by (simp add: trackUsage_def split: option.split)

lemma count_call_limiter [simp]: "gs_limiter (count_call qops env tn us route g) = gs_limiter g"
  by (simp add: count_call_def split: option.split)

lemma forward_limiter [simp]: "gs_limiter (fst (forward qops env route json b g s)) = gs_limiter g"
  by (simp add: forward_def Let_def split: option.split)

lemma forward_length: "length (gs_written (fst (forward qops env route json b g s))) \<le> length (gs_written g) + 1"
  by (simp add: forward_def Let_def split: option.split)

lemma CheckMessage_AllowN:
  assumes "h_enabled l" "AllowN Take ce (empty_Key\<lparr>k_Scope := ''ws'', k_Tenant := tn, k_User := us, k_Tool := tool\<rparr>) 1 l = Some (r, er, l')"
    "er = None \<longrightarrow> r_Allowed r" "er \<noteq> None \<longrightarrow> er = Some ErrRateLimited"
  shows "\<exists>w. CheckMessage Take ce tn us tool (Some l) = Some (er = None, w, Some l')"
  using assms by (cases er) (simp_all add: CheckMessage_def Allow_def)

text \<open>One message: the limiter is asked at most once, and a message it does not admit is not written.\<close>

lemma limited_step:
  assumes "gs_limiter g = Some (Some l)" "h_enabled l" "h_store l = Some st"
  shows "\<exists>l'. gs_limiter (fst (handleMessage resolve qops cfg (fst (limited m)) (fst (snd (limited m))) g (snd (snd (limited m))))) = Some (Some l') \<and>
    h_enabled l' \<and> h_cfg l' = h_cfg l \<and> (\<exists>st'. h_store l' = Some st') \<and>
    (\<forall>qs. admitted (rate_request resolve cfg m @ qs) l \<ge>
      int (length (gs_written (fst (handleMessage resolve qops cfg (fst (limited m)) (fst (snd (limited m))) g (snd (snd (limited m)))))))
        - int (length (gs_written g)) + admitted qs l')"
proof -
  obtain ce env json s where m: "m = (ce, env, json, s)" by (cases m)
  let ?e = "env\<lparr>me_CheckMessage := CheckMessage Take ce\<rparr>"
  show ?thesis
  proof (cases "\<exists>route. routeMessage resolve (ss_profile s) (ss_boundServer s) json = Ok route \<and> serverExistsAndHubDeployable cfg (rd_serverName route)")
    case False
    then have "gs_limiter (fst (handleMessage resolve qops cfg ?e json g s)) = Some (Some l)"
      "gs_written (fst (handleMessage resolve qops cfg ?e json g s)) = gs_written g" "rate_request resolve cfg m = []"
      using assms(1) by (auto simp: handleMessage_def rate_request_def m split: sum.split)
    with assms show ?thesis by (simp add: m limited_def)
  next
    case True
    then obtain route where r: "routeMessage resolve (ss_profile s) (ss_boundServer s) json = Ok route"
      "serverExistsAndHubDeployable cfg (rd_serverName route)" by blast
    let ?k = "empty_Key\<lparr>k_Scope := ''ws'', k_Tenant := ss_tenantID s, k_User := session_user s, k_Tool := rd_toolName route\<rparr>"
    obtain res er st' where a: "AllowN Take ce ?k 1 l = Some (res, er, l\<lparr>h_store := Some st'\<rparr>)"
      "er = None \<longrightarrow> res = allowed_Result"
      using AllowN_outcome [OF assms(2,3) refl, of ce 1 ?k] by (elim exE conjE) rule
    have er: "er \<noteq> None \<longrightarrow> er = Some ErrRateLimited" by (metis limit_error.exhaust not_None_eq)
    obtain w where c: "CheckMessage Take ce (ss_tenantID s) (session_user s) (rd_toolName route) (Some l) = Some (er = None, w, Some (l\<lparr>h_store := Some st'\<rparr>))"
      using CheckMessage_AllowN [OF assms(2) a(1)] a(2) er by (auto simp: allowed_Result_def)
    let ?g1 = "g\<lparr>gs_limiter := Some (Some (l\<lparr>h_store := Some st'\<rparr>))\<rparr>"
    have gate: "rate_gate ?e (ss_tenantID s) (session_user s) route g =
        (if er = None then None else Some (''rate limited: retry after '' @ Duration_String w), ?g1)"
      using c by (simp add: rate_gate_def assms(1) checkMessageSafe_def)
    obtain r2 g2 where r2: "quota_gate qops ?e (ss_tenantID s) (session_user s) route ?g1 = (r2, g2)" by (rule prod.exhaust)
    have g2: "gs_limiter g2 = gs_limiter ?g1" "gs_written g2 = gs_written g"
      using quota_gate_keeps [of qops ?e "ss_tenantID s" "session_user s" route ?g1] r2 by simp_all
    have "gs_limiter (fst (handleMessage resolve qops cfg ?e json g s)) = gs_limiter ?g1 \<and>
        length (gs_written (fst (handleMessage resolve qops cfg ?e json g s))) \<le> length (gs_written g) + (if er = None then 1 else 0)"
      using r gate r2 g2 forward_length [where g = g2]
      by (auto simp: handleMessage_def split: option.split sum.split prod.split)
    moreover have "rate_request resolve cfg m = [\<lparr>rq_envs = ce, rq_key = ?k, rq_n = 1\<rparr>]" using r by (simp add: rate_request_def m)
    ultimately show ?thesis using assms(2) a(1) by (auto simp: m limited_def)
  qed
qed

lemma limited_serve:
  assumes "gs_limiter g = Some (Some l)" "h_enabled l" "h_store l = Some st"
  shows "int (length (gs_written (serve resolve qops cfg (map limited ms) g))) - int (length (gs_written g))
    \<le> admitted (concat (map (rate_request resolve cfg) ms)) l"
  using assms
proof (induction ms arbitrary: g l st)
  case (Cons m ms)
  obtain env json s where m: "limited m = (env, json, s)" by (cases "limited m")
  obtain l' st' where l': "gs_limiter (fst (handleMessage resolve qops cfg env json g s)) = Some (Some l')" "h_enabled l'" "h_store l' = Some st'"
    "\<forall>qs. admitted (rate_request resolve cfg m @ qs) l \<ge>
      int (length (gs_written (fst (handleMessage resolve qops cfg env json g s)))) - int (length (gs_written g)) + admitted qs l'"
    using limited_step [OF Cons.prems, of resolve qops cfg m] by (auto simp: m)
  from Cons.IH [OF l'(1-3)] l'(4) [rule_format, of "concat (map (rate_request resolve cfg) ms)"] show ?case by (simp add: m)
qed simp

text \<open>C3. The global rate limit holds end to end: over any schedule of messages of any number of sessions, the messages that
  reach backends are at most the global burst, the refill of the elapsed time at the global rate, and the rounding of
  the store operations, as long as the clock does not go back and no check is cancelled.\<close>

theorem messages_within_global_limit:
  assumes "gs_limiter g = Some (Some l)" "config_ok (h_cfg l)" "c_GlobalRPS (h_cfg l) > 0" "h_enabled l"
    "h_store l = Some (Ratelimit_Memory.NewMemoryStore [])" "qs = concat (map (rate_request resolve cfg) ms)" "requests_ok t qs"
  shows "of_int (int (length (gs_written (serve resolve qops cfg (map limited ms) g))) - int (length (gs_written g)))
    \<le> f64_burst (GlobalLimit (h_cfg l))
      + of_int (requests_end t qs - t) * (RequestsPerSecond (GlobalLimit (h_cfg l)) * (1 + unit_roundoff) ^ 3 / of_int Second)
      + of_nat (4 * length qs) * (2 * unit_roundoff * f64_burst (GlobalLimit (h_cfg l)))"
proof -
  have "of_int (int (length (gs_written (serve resolve qops cfg (map limited ms) g))) - int (length (gs_written g))) \<le> (of_int (admitted qs l) :: rat)"
    using limited_serve [OF assms(1,4,5), of resolve qops cfg ms] by (simp only: of_int_le_iff assms(6))
  also note admitted_bound [OF assms(2-5,7)]
  finally show ?thesis .
qed

definition guarded_gateway :: Mcpws.Config where
  "guarded_gateway = demo_gateway\<lparr>wc_Policy := Some (\<lambda>p. Authorize open_policy)\<rparr>"

lemma guarded_serves:
  "gs_written (serve (\<lambda>p t a. Ok []) Quota.memory_ops guarded_gateway [(demo_env, demo_call, demo_session)] demo_services) = [(''fs'', demo_call)]"
  by code_simp

theorem denied_tool_never_forwarded_witness:
  "TrimSpace (call_tool demo_call) = ''read_file'' \<and> \<not> matchAny ''read_file'' (pp_denyTools open_policy) \<and>
   serverExistsAndHubDeployable guarded_gateway ''fs''"
proof -
  have c: "is_call demo_call" "TrimSpace (call_tool demo_call) = ''read_file''" by code_simp+
  have w: "(''fs'', demo_call) \<in> set (gs_written (serve (\<lambda>p t a. Ok []) Quota.memory_ops guarded_gateway [(demo_env, demo_call, demo_session)] demo_services))"
    by (simp only: guarded_serves) simp
  have n: "(''fs'', demo_call) \<notin> set (gs_written demo_services)" by (simp add: demo_services_def)
  have p: "wc_Policy guarded_gateway = Some (\<lambda>p. Authorize open_policy)" by (simp add: guarded_gateway_def)
  from denied_tool_never_forwarded [OF p w n c(1)] c(2) show ?thesis by simp
qed

theorem tool_calls_within_quota_witness:
  "int (calls_forwarded (\<lambda>p t a. Ok []) Quota.memory_ops demo_gateway [] [] (replicate 9 (demo_env, demo_call, demo_session))
     (demo_services\<lparr>gs_quota := Some (Quota.demo_manager)\<rparr>)) \<le> 5"
proof -
  let ?g = "demo_services\<lparr>gs_quota := Some (Quota.demo_manager)\<rparr>"
  let ?q = "applicable_quota Quota.memory_ops Quota.demo_config [] [] QuotaTypeToolCalls Quota.NewMemoryStore"
  have q: "qt_Limit ?q = 5" "PeriodBounds (qt_Period ?q) unix_epoch = (unix_epoch, unix_epoch + day_ns)"
    "mem_used Quota.NewMemoryStore [] [] QuotaTypeToolCalls unix_epoch = 0" "qc_EnforceHard Quota.demo_config"
    by code_simp+
  have m: "qm_cfg Quota.demo_manager = Quota.demo_config" "qm_enabled Quota.demo_manager" "qm_store Quota.demo_manager = Some Quota.NewMemoryStore"
    by (simp_all add: Quota.demo_manager_def)
  have t: "\<forall>a\<in>set (replicate 9 (demo_env, demo_call, demo_session)). own_call [] [] a \<longrightarrow>
      unix_epoch \<le> me_CheckNow (fst a) \<and> me_CheckNow (fst a) < unix_epoch + day_ns \<and>
      unix_epoch \<le> me_CountNow (fst a) \<and> me_CountNow (fst a) < unix_epoch + day_ns"
    by (simp add: demo_env_def day_ns_def)
  from tool_calls_within_quota [of ?g Quota.demo_manager Quota.NewMemoryStore ?q "[]" "[]" unix_epoch unix_epoch "unix_epoch + day_ns",
      OF _ m(2,3) _ _ q(2) t, of "\<lambda>p t a. Ok []" demo_gateway]
  show ?thesis by (simp add: m q max_int64_def del: replicate.simps calls_forwarded.simps)
qed

text \<open>Five calls of one session within a microsecond, at a gateway with a global limit.\<close>

definition limited_services :: "(Ratelimit_Memory.MemoryStore HierarchicalLimiter option, Quota.MemoryStore, Usage_Store.MemoryStore) services" where
  "limited_services = \<lparr>gs_limiter = Some (Some small_limiter), gs_quota = None, gs_tracker = None, gs_events = [], gs_written = []\<rparr>"

definition limited_call :: "time \<Rightarrow> nat limited_arrival" where
  "limited_call t = (at_time t, \<lparr>me_CheckMessage = (\<lambda>tn us tool l. None), me_CheckNow = t, me_DialNow = t, me_StartTime = t, me_CountNow = t,
     me_TrackNow = t, me_Pool = demo_pool, me_Write = (\<lambda>_. None)\<rparr>, demo_call, demo_session)"

theorem messages_within_global_limit_witness:
  "(let ms = map (\<lambda>i. limited_call (unix_epoch + i)) [0, 1, 2, 3, 4];
        qs = concat (map (rate_request (\<lambda>p t a. Ok []) demo_gateway) ms); L = GlobalLimit small_config
    in length qs = 5 \<and>
       of_int (int (length (gs_written (serve (\<lambda>p t a. Ok []) Quota.memory_ops demo_gateway (map limited ms) limited_services))))
         \<le> f64_burst L + of_int 4 * (RequestsPerSecond L * (1 + unit_roundoff) ^ 3 / of_int Second)
           + of_nat 20 * (2 * unit_roundoff * f64_burst L))"
proof -
  let ?ms = "map (\<lambda>i. limited_call (unix_epoch + i)) [0, 1, 2, 3, 4]"
  let ?qs = "concat (map (rate_request (\<lambda>p t a. Ok []) demo_gateway) ?ms)"
  have rt: "routeMessage (\<lambda>p t a. Ok []) (ss_profile demo_session) (ss_boundServer demo_session) demo_call =
      Ok \<lparr>rd_method = ''tools/call'', rd_toolName = ''read_file'', rd_serverName = ''fs''\<rparr>" by code_simp
  have d: "serverExistsAndHubDeployable demo_gateway ''fs''"
    by (simp add: serverExistsAndHubDeployable_def demo_gateway_def Mcpws.New_def demo_registry_def Let_def)
  have qs: "?qs = map (\<lambda>i. \<lparr>rq_envs = at_time (unix_epoch + i), rq_key = empty_Key\<lparr>k_Scope := ''ws'', k_Tenant := ss_tenantID demo_session,
      k_User := session_user demo_session, k_Tool := ''read_file''\<rparr>, rq_n = 1\<rparr>) [0, 1, 2, 3, 4]"
    by (simp add: rate_request_def limited_call_def rt d)
  have ok: "requests_ok unix_epoch ?qs" unfolding qs by (simp add: clock_ok_def at_time_def)
  have e: "requests_end unix_epoch ?qs = unix_epoch + 4" "length ?qs = 5" unfolding qs by (simp_all add: requests_end_def at_time_def)
  have l: "gs_limiter limited_services = Some (Some small_limiter)" "gs_written limited_services = []" by (simp_all add: limited_services_def)
  have c: "config_ok (h_cfg small_limiter)" "c_GlobalRPS (h_cfg small_limiter) > 0" "h_enabled small_limiter"
    "h_store small_limiter = Some (Ratelimit_Memory.NewMemoryStore [])" "h_cfg small_limiter = small_config"
    using small_config_ok by (simp_all add: small_limiter_def small_config_def)
  from messages_within_global_limit [OF l(1) c(1-4) refl ok, of Quota.memory_ops]
  show ?thesis unfolding Let_def e(2) l(2) c(5) e(1) by simp
qed

text \<open>The program started with a deny list; a call of an allowed tool is forwarded.\<close>

definition denying_environ :: getenv where
  "denying_environ = (\<lambda>k. if k = ''FI_MCP_POLICY_DENY_TOOLS'' then ''rm_*, *_drop'' else if k = ''REGISTRY_PATH'' then ''registry.yaml'' else [])"

abbreviation denying_run :: "(string \<times> any option) list" where
  "denying_run \<equiv> (case main denying_environ \<lparr>fl_registry = None, fl_listen = None\<rparr> demo_outside of
     Inl er \<Rightarrow> []
   | Inr gw \<Rightarrow> gs_written (serve (\<lambda>p t a. Ok []) Quota.memory_ops (sr_ws (gw_Server gw 0)) [limited (limited_call unix_epoch)] (session_side gw)))"

lemma denying_run_forwards: "denying_run = [(''fs'', demo_call)]"
  by code_simp

theorem started_gateway_denies_witness:
  "\<exists>gw. main denying_environ \<lparr>fl_registry = None, fl_listen = None\<rparr> demo_outside = Ok gw \<and>
     serverExistsAndHubDeployable (sr_ws (gw_Server gw 0)) ''fs'' \<and> \<not> matchPattern ''read_file'' ''*_drop''"
proof (cases "main denying_environ \<lparr>fl_registry = None, fl_listen = None\<rparr> demo_outside")
  case (Inl er)
  with denying_run_forwards show ?thesis by simp
next
  case (Inr gw)
  have c: "is_call demo_call" "TrimSpace (call_tool demo_call) = ''read_file''" by code_simp+
  have d: "''*_drop'' \<in> set (Policy.splitCSV (denying_environ ''FI_MCP_POLICY_DENY_TOOLS''))" by code_simp
  from denying_run_forwards Inr
  have "(''fs'', demo_call) \<in> set (gs_written (serve (\<lambda>p t a. Ok []) Quota.memory_ops (sr_ws (gw_Server gw 0)) [limited (limited_call unix_epoch)] (session_side gw)))"
    by simp
  from started_gateway_denies [OF Inr refl this c(1) d] c(2) Inr show ?thesis by simp
qed

text \<open>The program started with a daily number of three: of nine calls within a microsecond, three are forwarded.\<close>

definition metering_environ :: getenv where
  "metering_environ = (\<lambda>k. if k = ''FI_MCP_QUOTA_ENABLED'' then ''true'' else if k = ''FI_MCP_QUOTA_DAILY_REQUESTS'' then ''3''
     else if k = ''REGISTRY_PATH'' then ''registry.yaml'' else [])"


text \<open>The program started with quotas only.\<close>

theorem started_disabled_noop_witness:
  "\<exists>gw. main metering_environ \<lparr>fl_registry = None, fl_listen = None\<rparr> demo_outside = Ok gw \<and>
     run_calls (key_step (\<lambda>k. k) Apikeys.memory_ops (\<lambda>s. (Ok (), s))) [Validate_key 0 ''k'', Create_key (Apikeys.demo_inputs 0 ''x'') Apikeys.demo_request] (gw_APIKeys gw) =
       ([key_answer.Found (Err ErrKeyNotFound), key_answer.Created (Err ErrDisabled)], gw_APIKeys gw) \<and> gw_RateLimiter gw = None"
proof -
  have "(case main metering_environ \<lparr>fl_registry = None, fl_listen = None\<rparr> demo_outside of Inl er \<Rightarrow> False | Inr gw \<Rightarrow> True)" by code_simp
  then obtain gw where gw: "main metering_environ \<lparr>fl_registry = None, fl_listen = None\<rparr> demo_outside = Ok gw" by (auto split: sum.splits)
  have c: "\<not> kc_Enabled (Apikeys.LoadConfigFromEnv metering_environ)" "\<not> c_Enabled (Ratelimit.LoadConfigFromEnv metering_environ)"
    by code_simp+
  from started_disabled_noop [OF gw, of "[Validate_key 0 ''k'', Create_key (Apikeys.demo_inputs 0 ''x'') Apikeys.demo_request]" "\<lambda>k. k" Apikeys.memory_ops "\<lambda>s. (Ok (), s)"] c gw
  show ?thesis by simp
qed

end
